(* ===== verification/Prelude.thy ===== *)
theory Prelude
  imports Main "HOL-Library.Char_ord" "HOL-Library.List_Lexorder" "HOL-Library.Product_Lexorder"
begin

text \<open>
  Shared vocabulary of the development.

  Python code that may raise is a value of the sum type \<open>'e + 'a\<close> (\<open>Inl\<close> the exception).
  Python code that also reads or writes state outside its arguments is a state transformer
  \<open>('s, 'e, 'a) io\<close>: it takes the state of everything behind the ports and returns the result
  together with the new state.  The state survives an exception, as it does in Python.

  Python strings are sequences of code points; the model's \<open>string\<close> covers the code points
  below 256, one \<open>char\<close> each, so \<open>length\<close> is Python's \<open>len\<close> and the order of
  \<open>HOL-Library.List_Lexorder\<close> is Python's order of strings.
\<close>

named_theorems io_run "running the combinators of the state-and-exception monad"
named_theorems io_keep "operations that keep an invariant"
named_theorems raises "which exceptions an operation may raise"
named_theorems io_inv "inversion of a run of the monad that is known to return or to raise"

type_synonym str = string
type_synonym ('s, 'e, 'a) io = "'s \<Rightarrow> ('e + 'a) \<times> 's"

section \<open>Exceptions as values\<close>

definition bind_r :: "'e + 'a \<Rightarrow> ('a \<Rightarrow> 'e + 'b) \<Rightarrow> 'e + 'b" where
  "bind_r r f = (case r of Inl e \<Rightarrow> Inl e | Inr x \<Rightarrow> f x)"

fun map_r :: "('a \<Rightarrow> 'e + 'b) \<Rightarrow> 'a list \<Rightarrow> 'e + 'b list" where
  "map_r f [] = Inr []"
| "map_r f (x # xs) = bind_r (f x) (\<lambda>y. bind_r (map_r f xs) (\<lambda>ys. Inr (y # ys)))"

text \<open>A computation whose exceptions are all in a given set.\<close>

definition raises_only :: "'e set \<Rightarrow> 'e + 'a \<Rightarrow> bool" where
  "raises_only E r \<longleftrightarrow> (\<forall>e. r = Inl e \<longrightarrow> e \<in> E)"

section \<open>State and exceptions\<close>

definition return_io :: "'a \<Rightarrow> ('s, 'e, 'a) io" where
  "return_io x = (\<lambda>s. (Inr x, s))"

definition raise_io :: "'e \<Rightarrow> ('s, 'e, 'a) io" where
  "raise_io e = (\<lambda>s. (Inl e, s))"

definition lift_r :: "'e + 'a \<Rightarrow> ('s, 'e, 'a) io" where
  "lift_r r = (\<lambda>s. (r, s))"

definition bind_io :: "('s, 'e, 'a) io \<Rightarrow> ('a \<Rightarrow> ('s, 'e, 'b) io) \<Rightarrow> ('s, 'e, 'b) io" where
  "bind_io m f = (\<lambda>s. case m s of (Inl e, s') \<Rightarrow> (Inl e, s') | (Inr x, s') \<Rightarrow> f x s')"

text \<open>\<open>attempt_io\<close> is \<open>try\<close>: the exception, if any, becomes a value the code can look at.\<close>

definition attempt_io :: "('s, 'e, 'a) io \<Rightarrow> ('s, 'e, 'e + 'a) io" where
  "attempt_io m = (\<lambda>s. case m s of (r, s') \<Rightarrow> (Inr r, s'))"

fun map_io :: "('a \<Rightarrow> ('s, 'e, 'b) io) \<Rightarrow> 'a list \<Rightarrow> ('s, 'e, 'b list) io" where
  "map_io f [] = return_io []"
| "map_io f (x # xs) = bind_io (f x) (\<lambda>y. bind_io (map_io f xs) (\<lambda>ys. return_io (y # ys)))"

text \<open>\<open>if port is not None: port.method(...)\<close>, for an optional collaborator.\<close>

definition when_some :: "'p option \<Rightarrow> ('p \<Rightarrow> ('s, 'e, unit) io) \<Rightarrow> ('s, 'e, unit) io" where
  "when_some p f = (case p of None \<Rightarrow> return_io () | Some x \<Rightarrow> f x)"

text \<open>An operation on one component of a larger state.\<close>

definition on_part :: "('s \<Rightarrow> 'p) \<Rightarrow> ('p \<Rightarrow> 's \<Rightarrow> 's) \<Rightarrow> ('p, 'e, 'a) io \<Rightarrow> ('s, 'e, 'a) io" where
  "on_part get put m = (\<lambda>s. case m (get s) of (r, p) \<Rightarrow> (r, put p s))"

text \<open>An operation that returns in every state.\<close>

definition total_io :: "('s, 'e, 'a) io \<Rightarrow> bool" where
  "total_io m \<longleftrightarrow> (\<forall>s. \<exists>x s'. m s = (Inr x, s'))"

text \<open>An operation that keeps an invariant of the state, whether it returns or raises.\<close>

definition preserves_io :: "('s \<Rightarrow> bool) \<Rightarrow> ('s, 'e, 'a) io \<Rightarrow> bool" where
  "preserves_io P m \<longleftrightarrow> (\<forall>s r s'. P s \<longrightarrow> m s = (r, s') \<longrightarrow> P s')"

section \<open>Python collections\<close>

text \<open>\<open>dict.fromkeys\<close>: the keys in order of first occurrence.\<close>

fun fromkeys :: "'a list \<Rightarrow> 'a list" where
  "fromkeys [] = []"
| "fromkeys (x # xs) = x # filter (\<lambda>y. y \<noteq> x) (fromkeys xs)"

text \<open>\<open>next(x for x in xs if p(x))\<close> and the search loops that return the first match.\<close>

fun first_such :: "('a \<Rightarrow> bool) \<Rightarrow> 'a list \<Rightarrow> 'a option" where
  "first_such p [] = None"
| "first_such p (x # xs) = (if p x then Some x else first_such p xs)"

text \<open>\<open>min(xs, key=f)\<close> on a non-empty sequence: the first element whose key is least.\<close>

fun min_key :: "('a \<Rightarrow> 'k::linorder) \<Rightarrow> 'a \<Rightarrow> 'a list \<Rightarrow> 'a" where
  "min_key f x [] = x"
| "min_key f x (y # ys) = (if f y < f x then min_key f y ys else min_key f x ys)"

text \<open>\<open>sep.join(parts)\<close>.\<close>

fun str_join :: "str \<Rightarrow> str list \<Rightarrow> str" where
  "str_join sep [] = []"
| "str_join sep [x] = x"
| "str_join sep (x # y # ys) = x @ sep @ str_join sep (y # ys)"

section \<open>Lemmas on exceptions\<close>

lemma bind_r_simps [simp]:
  "bind_r (Inl e) f = Inl e"
  "bind_r (Inr x) f = f x"
  by (simp_all add: bind_r_def)

lemma bind_r_Inr_iff [simp]: "bind_r r f = Inr y \<longleftrightarrow> (\<exists>x. r = Inr x \<and> f x = Inr y)"
  by (cases r) auto

lemma map_r_Inr_iff: "map_r f xs = Inr ys \<longleftrightarrow> list_all2 (\<lambda>x y. f x = Inr y) xs ys"
proof (induction xs arbitrary: ys)
  case Nil
  then show ?case by auto
next
  case (Cons x xs)
  then show ?case by (cases ys) auto
qed

lemma raises_onlyD: "raises_only E r \<Longrightarrow> r = Inl e \<Longrightarrow> e \<in> E"
  by (simp add: raises_only_def)

lemma raises_Inr [raises]: "raises_only E (Inr x)"
  by (simp add: raises_only_def)

lemma raises_Inl [raises]: "e \<in> E \<Longrightarrow> raises_only E (Inl e)"
  by (simp add: raises_only_def)

lemma raises_bind [raises]: "raises_only E r \<Longrightarrow> (\<And>x. raises_only E (f x)) \<Longrightarrow> raises_only E (bind_r r f)"
  by (cases r) (auto simp: raises_only_def)

lemma raises_map [raises]: "(\<And>x. raises_only E (f x)) \<Longrightarrow> raises_only E (map_r f xs)"
  by (induction xs) (auto intro!: raises)

lemma raises_if [raises]: "(c \<Longrightarrow> raises_only E r) \<Longrightarrow> (\<not> c \<Longrightarrow> raises_only E q) \<Longrightarrow> raises_only E (if c then r else q)"
  by simp

section \<open>Lemmas on the monad\<close>

lemma run_io [io_run]:
  "return_io x s = (Inr x, s)"
  "raise_io e s = (Inl e, s)"
  "lift_r r s = (r, s)"
  "bind_io m f s = (case m s of (Inl e, s') \<Rightarrow> (Inl e, s') | (Inr x, s') \<Rightarrow> f x s')"
  "attempt_io m s = (case m s of (r, s') \<Rightarrow> (Inr r, s'))"
  by (simp_all add: return_io_def raise_io_def lift_r_def bind_io_def attempt_io_def)

lemma run_when_some [io_run]:
  "when_some None f = return_io ()"
  "when_some (Some p) f = f p"
  by (simp_all add: when_some_def)

lemma bind_lift_Inr [io_run]: "bind_io (lift_r (Inr x)) f = f x"
  by (simp add: bind_io_def lift_r_def)

lemma return_io_inv [io_inv]:
  "return_io x s = (r, s') \<longleftrightarrow> r = Inr x \<and> s' = s"
  by (auto simp: return_io_def)

lemma raise_io_inv [io_inv]:
  "raise_io e s = (r, s') \<longleftrightarrow> r = Inl e \<and> s' = s"
  by (auto simp: raise_io_def)

lemma lift_r_inv [io_inv]:
  "lift_r x s = (r, s') \<longleftrightarrow> x = r \<and> s' = s"
  by (auto simp: lift_r_def)

lemma bind_io_Inr_inv [io_inv]:
  "bind_io m f s = (Inr y, s') \<longleftrightarrow> (\<exists>x s1. m s = (Inr x, s1) \<and> f x s1 = (Inr y, s'))"
  by (auto simp: bind_io_def split: prod.splits sum.splits)

lemma bind_io_Inl_inv [io_inv]:
  "bind_io m f s = (Inl e, s') \<longleftrightarrow>
     m s = (Inl e, s') \<or> (\<exists>x s1. m s = (Inr x, s1) \<and> f x s1 = (Inl e, s'))"
  by (auto simp: bind_io_def split: prod.splits sum.splits)

lemma attempt_io_inv [io_inv]:
  "attempt_io m s = (r, s') \<longleftrightarrow> (\<exists>x. m s = (x, s') \<and> r = Inr x)"
  by (auto simp: attempt_io_def split: prod.splits)

lemma map_io_length: "map_io f xs s = (Inr ys, s') \<Longrightarrow> length ys = length xs"
  by (induction xs arbitrary: ys s) (auto simp: io_inv)

lemma map_io_elem:
  "map_io f xs s = (Inr ys, s') \<Longrightarrow>
   list_all2 (\<lambda>x y. \<exists>t t'. f x t = (Inr y, t')) xs ys"
  by (induction xs arbitrary: ys s) (auto simp: io_inv)

lemma on_part_run [io_run]: "on_part get put m s = (case m (get s) of (r, p) \<Rightarrow> (r, put p s))"
  by (simp add: on_part_def)

lemma on_part_inv [io_inv]:
  "on_part get put m s = (r, s') \<longleftrightarrow> (\<exists>p. m (get s) = (r, p) \<and> s' = put p s)"
  by (auto simp: on_part_def split: prod.splits)

lemma total_ioE:
  assumes "total_io m"
  obtains x s' where "m s = (Inr x, s')"
  using assms unfolding total_io_def by blast

lemma total_io_return [simp]: "total_io (return_io x)"
  by (simp add: total_io_def return_io_def)

lemma total_io_bind: "total_io m \<Longrightarrow> (\<And>x. total_io (f x)) \<Longrightarrow> total_io (bind_io m f)"
  unfolding total_io_def bind_io_def by (metis (no_types, lifting) old.prod.case sum.case(2))

lemma total_io_map: "(\<And>x. x \<in> set xs \<Longrightarrow> total_io (f x)) \<Longrightarrow> total_io (map_io f xs)"
  by (induction xs) (auto intro!: total_io_bind)

lemma total_io_lift: "total_io (lift_r r) \<longleftrightarrow> (\<exists>x. r = Inr x)"
  by (auto simp: total_io_def lift_r_def)

lemma preserves_ioD: "preserves_io P m \<Longrightarrow> P s \<Longrightarrow> m s = (r, s') \<Longrightarrow> P s'"
  by (simp add: preserves_io_def)

lemma preserves_simple [io_keep]:
  "preserves_io P (return_io x)" "preserves_io P (raise_io e)" "preserves_io P (lift_r r)"
  by (simp_all add: preserves_io_def io_inv)

lemma preserves_bind [io_keep]:
  assumes "preserves_io P m" and "\<And>x. preserves_io P (f x)"
  shows "preserves_io P (bind_io m f)"
  unfolding preserves_io_def
proof (intro allI impI)
  fix s r s' assume s: "P s" and run: "bind_io m f s = (r, s')"
  obtain x s1 where m: "m s = (x, s1)" by (rule prod.exhaust)
  have s1: "P s1" using preserves_ioD[OF assms(1) s m] .
  show "P s'"
  proof (cases x)
    case (Inl e)
    then show ?thesis using run m s1 by (simp add: io_run)
  next
    case (Inr y)
    then have "f y s1 = (r, s')" using run m by (simp add: io_run)
    then show ?thesis by (rule preserves_ioD[OF assms(2) s1])
  qed
qed

lemma preserves_attempt [io_keep]: "preserves_io P m \<Longrightarrow> preserves_io P (attempt_io m)"
  by (auto simp: preserves_io_def io_inv)

lemma preserves_map [io_keep]: "(\<And>x. preserves_io P (f x)) \<Longrightarrow> preserves_io P (map_io f xs)"
  by (induction xs) (auto intro: io_keep)

lemma preserves_when_some [io_keep]: "(\<And>x. p = Some x \<Longrightarrow> preserves_io P (f x)) \<Longrightarrow> preserves_io P (when_some p f)"
  by (cases p) (auto simp: when_some_def intro: io_keep)

lemma preserves_if [io_keep]:
  "(c \<Longrightarrow> preserves_io P m) \<Longrightarrow> (\<not> c \<Longrightarrow> preserves_io P n) \<Longrightarrow> preserves_io P (if c then m else n)"
  by simp

section \<open>Lemmas on collections\<close>

lemma list_all2_right_elem: "list_all2 P xs ys \<Longrightarrow> y \<in> set ys \<Longrightarrow> \<exists>x\<in>set xs. P x y"
  by (induction rule: list_all2_induct) auto

lemma list_all2_left_elem: "list_all2 P xs ys \<Longrightarrow> x \<in> set xs \<Longrightarrow> \<exists>y\<in>set ys. P x y"
  by (induction rule: list_all2_induct) auto

lemma list_all2_map_eq:
  "list_all2 P xs ys \<Longrightarrow> (\<And>x y. P x y \<Longrightarrow> g y = f x) \<Longrightarrow> map g ys = map f xs"
  by (induction rule: list_all2_induct) auto

lemma set_fromkeys [simp]: "set (fromkeys xs) = set xs"
  by (induction xs) auto

lemma distinct_fromkeys [simp]: "distinct (fromkeys xs)"
  by (induction xs) auto

lemma first_such_SomeD: "first_such p xs = Some x \<Longrightarrow> x \<in> set xs \<and> p x"
  by (induction xs) (auto split: if_splits)

lemma first_such_never [simp]: "first_such (\<lambda>x. False) xs = None"
  by (induction xs) auto

lemma first_such_None_iff: "first_such p xs = None \<longleftrightarrow> (\<forall>x\<in>set xs. \<not> p x)"
  by (induction xs) auto

lemma min_key_in: "min_key f x xs \<in> set (x # xs)"
  by (induction xs arbitrary: x) force+

lemma min_key_le: "y \<in> set (x # xs) \<Longrightarrow> f (min_key f x xs) \<le> f y"
proof (induction xs arbitrary: x y)
  case Nil
  then show ?case by simp
next
  case (Cons z zs)
  have base: "f (min_key f w zs) \<le> f w" for w
    using Cons.IH[of w w] by simp
  from Cons.prems consider "y = x" | "y = z" | "y \<in> set zs"
    by auto
  then show ?case
  proof cases
    case 1
    then show ?thesis using base[of x] base[of z] by auto
  next
    case 2
    then show ?thesis using base[of x] base[of z] by auto
  next
    case 3
    then show ?thesis using Cons.IH[of y] by simp
  qed
qed

lemma min_key_unique:
  assumes "inj_on f (set (x # xs))" and "z \<in> set (x # xs)"
    and "\<And>y. y \<in> set (x # xs) \<Longrightarrow> f z \<le> f y"
  shows "min_key f x xs = z"
proof -
  have m: "min_key f x xs \<in> set (x # xs)" by (rule min_key_in)
  have "f (min_key f x xs) = f z"
    using min_key_le[OF assms(2)] assms(3)[OF m] by (rule antisym)
  then show ?thesis using assms(1,2) m by (meson inj_onD)
qed

end
