(* ===== verification/Domain_Enums.thy ===== *)
theory Domain_Enums
  imports Prelude
begin

text \<open>
  The closed vocabularies of \<open>src/domain/enums.py\<close>, the exceptions of
  \<open>src/domain/errors.py\<close> (with the Python and library exceptions the code lets through) and
  the attempt statuses of \<open>src/domain/invocation.py\<close>.  A \<open>StrEnum\<close> member is a
  constructor; its \<open>.value\<close> is given by the function named after the enum.
\<close>

section \<open>Enumerations\<close>

datatype role = Role_SYSTEM | Role_USER | Role_ASSISTANT

fun role_value :: "role \<Rightarrow> str" where
  "role_value Role_SYSTEM = ''system''"
| "role_value Role_USER = ''user''"
| "role_value Role_ASSISTANT = ''assistant''"

datatype quality_tier = Tier_STANDARD | Tier_PREMIUM

fun quality_tier_value :: "quality_tier \<Rightarrow> str" where
  "quality_tier_value Tier_STANDARD = ''standard''"
| "quality_tier_value Tier_PREMIUM = ''premium''"

datatype latency_preference = Latency_LOW | Latency_BALANCED | Latency_HIGH

fun latency_preference_value :: "latency_preference \<Rightarrow> str" where
  "latency_preference_value Latency_LOW = ''low''"
| "latency_preference_value Latency_BALANCED = ''balanced''"
| "latency_preference_value Latency_HIGH = ''high''"

datatype routing_strategy_type =
  Strategy_PREFERRED_MODEL | Strategy_LOWEST_COST | Strategy_QUALITY_TIER | Strategy_EXPERIMENT

datatype provider_name = Provider_BEDROCK | Provider_OPENAI

fun provider_name_value :: "provider_name \<Rightarrow> str" where
  "provider_name_value Provider_BEDROCK = ''bedrock''"
| "provider_name_value Provider_OPENAI = ''openai''"

datatype model_health_status = Health_HEALTHY | Health_DEGRADED | Health_UNAVAILABLE

datatype model_resolution_type =
  Resolution_DIRECT_MODEL_ID
| Resolution_CROSS_REGION_INFERENCE_PROFILE
| Resolution_APPLICATION_INFERENCE_PROFILE
| Resolution_ROUTER_ALIAS

fun model_resolution_type_value :: "model_resolution_type \<Rightarrow> str" where
  "model_resolution_type_value Resolution_DIRECT_MODEL_ID = ''direct_model_id''"
| "model_resolution_type_value Resolution_CROSS_REGION_INFERENCE_PROFILE = ''cross_region_inference_profile''"
| "model_resolution_type_value Resolution_APPLICATION_INFERENCE_PROFILE = ''application_inference_profile''"
| "model_resolution_type_value Resolution_ROUTER_ALIAS = ''router_alias''"

datatype stop_reason =
  Stop_END_TURN | Stop_MAX_TOKENS | Stop_STOP_SEQUENCE | Stop_TOOL_USE
| Stop_CONTENT_FILTERED | Stop_GUARDRAIL_INTERVENED | Stop_OTHER

datatype provider_error_category =
  Category_THROTTLED | Category_TRANSIENT | Category_TIMEOUT | Category_PERMANENT

datatype invocation_attempt_status =
  Attempt_SUCCEEDED | Attempt_THROTTLED | Attempt_TRANSIENT_ERROR
| Attempt_NON_RETRYABLE_ERROR | Attempt_TIMEOUT

fun invocation_attempt_status_value :: "invocation_attempt_status \<Rightarrow> str" where
  "invocation_attempt_status_value Attempt_SUCCEEDED = ''succeeded''"
| "invocation_attempt_status_value Attempt_THROTTLED = ''throttled''"
| "invocation_attempt_status_value Attempt_TRANSIENT_ERROR = ''transient_error''"
| "invocation_attempt_status_value Attempt_NON_RETRYABLE_ERROR = ''non_retryable_error''"
| "invocation_attempt_status_value Attempt_TIMEOUT = ''timeout''"

section \<open>Exceptions\<close>

text \<open>
  The domain's exceptions and the others the modelled code raises or lets through.
  \<open>ProviderError\<close> carries its message and its category, the idempotency errors their
  message.  The texts of configuration errors quote file paths and texts of third-party
  exceptions; no code reads them and they are not modelled.  \<open>Client_Error\<close> is botocore's
  \<open>ClientError\<close> with its error code, \<open>Boto_Core_Error\<close> and \<open>OpenAI_Error\<close> are the exceptions of the
  two client libraries by the classes the code tells apart (an \<open>APIStatusError\<close> with its status),
  and \<open>Foreign_Error\<close> is any other exception of a collaborator behind a port.
\<close>

datatype boto_core_error = Connect_Timeout | Read_Timeout | Other_Boto_Core

datatype openai_error =
  RateLimitError | APITimeoutError | APIConnectionError | APIStatusError int | Other_OpenAI

datatype exn =
  ConfigurationError
| RoutingPolicyNotFoundError
| ProviderError str provider_error_category
| IdempotencyConflictError str
| IdempotencyInProgressError str
| Validation_Error
| Value_Error
| Key_Error
| Index_Error
| Type_Error
| Assertion_Error
| Stop_Iteration
| Zero_Division_Error
| Decimal_InvalidOperation
| Attribute_Error
| Json_Decode_Error
| Client_Error str
| Boto_Core_Error boto_core_error
| OpenAI_Error openai_error
| Foreign_Error str

type_synonym 'a result = "exn + 'a"
type_synonym ('s, 'a) op = "('s, exn, 'a) io"

text \<open>\<open>isinstance(exc, DomainError)\<close>.\<close>

fun is_domain_error :: "exn \<Rightarrow> bool" where
  "is_domain_error ConfigurationError = True"
| "is_domain_error RoutingPolicyNotFoundError = True"
| "is_domain_error (ProviderError m c) = True"
| "is_domain_error (IdempotencyConflictError m) = True"
| "is_domain_error (IdempotencyInProgressError m) = True"
| "is_domain_error _ = False"

text \<open>\<open>except ProviderError as exc\<close>: the category of the exception, if it is one.\<close>

fun provider_error_category_of :: "exn \<Rightarrow> provider_error_category option" where
  "provider_error_category_of (ProviderError m c) = Some c"
| "provider_error_category_of _ = None"

lemma provider_error_category_of_iff:
  "provider_error_category_of e = Some c \<longleftrightarrow> (\<exists>m. e = ProviderError m c)"
  by (cases e) auto

section \<open>Attempt statuses and the error taxonomy\<close>

fun status_for_provider_error_category :: "provider_error_category \<Rightarrow> invocation_attempt_status" where
  "status_for_provider_error_category Category_THROTTLED = Attempt_THROTTLED"
| "status_for_provider_error_category Category_TRANSIENT = Attempt_TRANSIENT_ERROR"
| "status_for_provider_error_category Category_TIMEOUT = Attempt_TIMEOUT"
| "status_for_provider_error_category Category_PERMANENT = Attempt_NON_RETRYABLE_ERROR"

lemma status_for_category_inj: "inj status_for_provider_error_category"
proof (rule injI)
  fix c d
  assume "status_for_provider_error_category c = status_for_provider_error_category d"
  then show "c = d" by (cases c; cases d) simp_all
qed

lemma status_for_category_not_succeeded [simp]:
  "status_for_provider_error_category c \<noteq> Attempt_SUCCEEDED"
  by (cases c) simp_all

lemma status_for_category_non_retryable [simp]:
  "status_for_provider_error_category c = Attempt_NON_RETRYABLE_ERROR \<longleftrightarrow> c = Category_PERMANENT"
  by (cases c) simp_all

end
