(* ===== verification/Reason_Codes.thy ===== *)
theory Reason_Codes
  imports Domain_Enums
begin

text \<open>
  \<open>src/domain/reason_codes.py\<close>: the reason-code vocabulary, its canonical order and
  \<open>sort_reason_codes\<close>; from \<open>src/domain/invocation.py\<close>, the reason code an invocation
  failure contributes.  The canonical order is the declaration order, so the type is made a
  linear order by it and the library's theory of sorting applies.
\<close>

datatype routing_reason_code =
  CAPABILITY_MATCH
| MODEL_ALLOWED
| MODEL_NOT_ALLOWED
| WITHIN_COST_LIMIT
| COST_LIMIT_EXCEEDED
| TOKEN_LIMIT_EXCEEDED
| LOWEST_ESTIMATED_COST
| LATENCY_PREFERENCE_MATCH
| QUALITY_TIER_MATCH
| REGION_POLICY_MATCH
| MODEL_UNHEALTHY
| MODEL_DEGRADED
| MODEL_THROTTLED
| MODEL_UNAVAILABLE
| FALLBACK_SELECTED
| EXPERIMENT_ROUTE_SELECTED
| NO_ELIGIBLE_MODEL
| INVALID_ROUTING_POLICY
| REQUIRED_CAPABILITY_UNAVAILABLE

text \<open>\<open>_CANONICAL_ORDER\<close>.\<close>

fun canonical_order :: "routing_reason_code \<Rightarrow> nat" where
  "canonical_order CAPABILITY_MATCH = 0"
| "canonical_order MODEL_ALLOWED = 1"
| "canonical_order MODEL_NOT_ALLOWED = 2"
| "canonical_order WITHIN_COST_LIMIT = 3"
| "canonical_order COST_LIMIT_EXCEEDED = 4"
| "canonical_order TOKEN_LIMIT_EXCEEDED = 5"
| "canonical_order LOWEST_ESTIMATED_COST = 6"
| "canonical_order LATENCY_PREFERENCE_MATCH = 7"
| "canonical_order QUALITY_TIER_MATCH = 8"
| "canonical_order REGION_POLICY_MATCH = 9"
| "canonical_order MODEL_UNHEALTHY = 10"
| "canonical_order MODEL_DEGRADED = 11"
| "canonical_order MODEL_THROTTLED = 12"
| "canonical_order MODEL_UNAVAILABLE = 13"
| "canonical_order FALLBACK_SELECTED = 14"
| "canonical_order EXPERIMENT_ROUTE_SELECTED = 15"
| "canonical_order NO_ELIGIBLE_MODEL = 16"
| "canonical_order INVALID_ROUTING_POLICY = 17"
| "canonical_order REQUIRED_CAPABILITY_UNAVAILABLE = 18"

definition sort_reason_codes :: "routing_reason_code list \<Rightarrow> routing_reason_code list" where
  "sort_reason_codes codes = (let unique = fromkeys codes in sort_key canonical_order unique)"

fun reason_code_for_provider_error_category ::
  "provider_error_category \<Rightarrow> routing_reason_code option" where
  "reason_code_for_provider_error_category Category_THROTTLED = Some MODEL_THROTTLED"
| "reason_code_for_provider_error_category Category_TRANSIENT = Some MODEL_UNAVAILABLE"
| "reason_code_for_provider_error_category Category_TIMEOUT = Some MODEL_UNAVAILABLE"
| "reason_code_for_provider_error_category Category_PERMANENT = None"

section \<open>The canonical order is a linear order\<close>

lemma canonical_order_inj: "canonical_order c = canonical_order d \<Longrightarrow> c = d"
  by (cases c; cases d; simp)

lemma canonical_order_eq_iff [simp]: "canonical_order c = canonical_order d \<longleftrightarrow> c = d"
  using canonical_order_inj by blast

instantiation routing_reason_code :: linorder
begin

definition less_eq_routing_reason_code :: "routing_reason_code \<Rightarrow> routing_reason_code \<Rightarrow> bool" where
  "less_eq_routing_reason_code c d \<longleftrightarrow> canonical_order c \<le> canonical_order d"

definition less_routing_reason_code :: "routing_reason_code \<Rightarrow> routing_reason_code \<Rightarrow> bool" where
  "less_routing_reason_code c d \<longleftrightarrow> canonical_order c < canonical_order d"

instance
  by standard
    (auto simp: less_eq_routing_reason_code_def less_routing_reason_code_def
      intro: canonical_order_inj)

end

section \<open>Correctness of the sort\<close>

lemma sort_key_canonical_order: "sort_key canonical_order xs = sort xs"
proof -
  have "insort_key canonical_order x ys = insort x ys" for x ys
    by (induction ys) (simp_all add: less_eq_routing_reason_code_def)
  then show ?thesis
    by (induction xs) simp_all
qed

lemma sort_reason_codes_eq: "sort_reason_codes codes = sorted_list_of_set (set codes)"
proof -
  have "sorted_list_of_set (set (fromkeys codes)) = sort (remdups (fromkeys codes))"
    by (rule sorted_list_of_set_sort_remdups)
  also have "remdups (fromkeys codes) = fromkeys codes"
    by (rule distinct_remdups_id) (rule distinct_fromkeys)
  finally show ?thesis
    by (simp add: sort_reason_codes_def Let_def sort_key_canonical_order)
qed

lemma set_sort_reason_codes [simp]: "set (sort_reason_codes codes) = set codes"
  by (simp add: sort_reason_codes_eq)

lemma sorted_sort_reason_codes [simp]: "sorted (sort_reason_codes codes)"
  by (simp add: sort_reason_codes_eq)

lemma distinct_sort_reason_codes [simp]: "distinct (sort_reason_codes codes)"
  by (simp add: sort_reason_codes_eq)

lemma sort_reason_codes_idem [simp]: "sort_reason_codes (sort_reason_codes codes) = sort_reason_codes codes"
  by (simp add: sort_reason_codes_eq)

text \<open>
  Identical routing outcomes give identical reason-code lists: the sorted list depends only
  on which codes occur, it is strictly increasing in the canonical (declaration) order, and it
  holds exactly the codes given.
\<close>

theorem sort_reason_codes_canonical:
  "(sort_reason_codes xs = sort_reason_codes ys \<longleftrightarrow> set xs = set ys) \<and>
   set (sort_reason_codes xs) = set xs \<and>
   sorted_wrt (\<lambda>c d. canonical_order c < canonical_order d) (sort_reason_codes xs)"
proof -
  have "sorted_wrt (<) (sort_reason_codes xs)"
    by (simp add: sort_reason_codes_eq)
  then have "sorted_wrt (\<lambda>c d. canonical_order c < canonical_order d) (sort_reason_codes xs)"
    by (rule sorted_wrt_mono_rel[rotated]) (simp add: less_routing_reason_code_def)
  moreover have "sort_reason_codes xs = sort_reason_codes ys \<longleftrightarrow> set xs = set ys"
    by (metis set_sort_reason_codes sort_reason_codes_eq)
  ultimately show ?thesis by simp
qed

end
