(* ===== verification/Py_Decimal.thy ===== *)
theory Py_Decimal
  imports Complex_Main Prelude
begin

text \<open>
  The part of Python's \<open>decimal\<close> module the router uses for money
  (\<open>src/domain/money.py\<close>, \<open>src/domain/cost_estimation.py\<close>): finite decimals as a signed
  coefficient and an exponent, with division, multiplication, addition and
  \<open>quantize\<close> under the default context (28 significant digits, ROUND_HALF_EVEN).
  Infinities and NaNs do not occur (pydantic refuses them for a \<open>Decimal\<close> field), the sign of
  a zero is not kept, and the exponent is unbounded (Python's default limits are
  plus or minus 999999).
\<close>

datatype decimal = Dec (coeff: int) (expo: int)

definition dec_val :: "decimal \<Rightarrow> rat" where
  "dec_val d = of_int (coeff d) * 10 powi (expo d)"

definition dec_prec :: nat where
  "dec_prec = 28"

fun ndigits :: "nat \<Rightarrow> nat" where
  "ndigits n = (if n < 10 then 1 else Suc (ndigits (n div 10)))"

declare ndigits.simps [simp del]

text \<open>\<open>c / m\<close> rounded to the nearest integer, ties to even, for \<open>0 < m\<close>.\<close>

definition round_half_even :: "int \<Rightarrow> int \<Rightarrow> int" where
  "round_half_even c m =
     (let q = c div m; r = c mod m
      in if 2 * r < m then q else if m < 2 * r then q + 1 else if even q then q else q + 1)"

text \<open>\<open>Decimal._fix\<close>: round to the precision of the context.\<close>

definition dec_fix :: "decimal \<Rightarrow> decimal" where
  "dec_fix d =
     (let n = ndigits (nat \<bar>coeff d\<bar>)
      in if n \<le> dec_prec then d
         else let k = n - dec_prec; c = round_half_even (coeff d) (10 ^ k)
              in if ndigits (nat \<bar>c\<bar>) \<le> dec_prec then Dec c (expo d + int k)
                 else Dec (c div 10) (expo d + int k + 1))"

definition dec_of_int :: "int \<Rightarrow> decimal" where
  "dec_of_int n = Dec n 0"

definition dec_mult :: "decimal \<Rightarrow> decimal \<Rightarrow> decimal" where
  "dec_mult a b = dec_fix (Dec (coeff a * coeff b) (expo a + expo b))"

definition dec_add :: "decimal \<Rightarrow> decimal \<Rightarrow> decimal" where
  "dec_add a b =
     (let e = min (expo a) (expo b)
      in dec_fix (Dec (coeff a * 10 ^ nat (expo a - e) + coeff b * 10 ^ nat (expo b - e)) e))"

function strip_zeros :: "int \<Rightarrow> int \<Rightarrow> int \<Rightarrow> decimal" where
  "strip_zeros c e ideal =
     (if e < ideal \<and> c mod 10 = 0 then strip_zeros (c div 10) (e + 1) ideal else Dec c e)"
  by pat_completeness auto
termination
  by (relation "measure (\<lambda>(c, e, ideal). nat (ideal - e))") auto

declare strip_zeros.simps [simp del]

text \<open>\<open>Decimal.__truediv__\<close> for a non-zero divisor (\<open>None\<close>: division by zero).\<close>

definition dec_div :: "decimal \<Rightarrow> decimal \<Rightarrow> decimal option" where
  "dec_div a b =
     (if coeff b = 0 then None
      else if coeff a = 0 then Some (dec_fix (Dec 0 (expo a - expo b)))
      else
        let x = \<bar>coeff a\<bar>; y = \<bar>coeff b\<bar>; s = sgn (coeff a) * sgn (coeff b);
            shift = int (ndigits (nat y)) - int (ndigits (nat x)) + int dec_prec + 1;
            e = expo a - expo b - shift;
            num = x * 10 ^ nat shift; den = y * 10 ^ nat (- shift);
            q = num div den
        in if num mod den \<noteq> 0
           then Some (dec_fix (Dec (s * (if q mod 5 = 0 then q + 1 else q)) e))
           else let d = strip_zeros q e (expo a - expo b)
                in Some (dec_fix (Dec (s * coeff d) (expo d))))"

text \<open>
  \<open>d.quantize(Decimal((0, (1,), q)))\<close>: the value rounded to the exponent \<open>q\<close>; \<open>None\<close> is
  \<open>decimal.InvalidOperation\<close>, raised when the coefficient would not fit the precision.
\<close>

definition dec_rescale :: "decimal \<Rightarrow> int \<Rightarrow> int" where
  "dec_rescale d q =
     (if q \<le> expo d then coeff d * 10 ^ nat (expo d - q)
      else round_half_even (coeff d) (10 ^ nat (q - expo d)))"

definition dec_quantize :: "decimal \<Rightarrow> int \<Rightarrow> decimal option" where
  "dec_quantize d q =
     (let c = dec_rescale d q
      in if ndigits (nat \<bar>c\<bar>) \<le> dec_prec then Some (Dec c q) else None)"

section \<open>Digits\<close>

lemma ndigits_le_iff: "0 < k \<Longrightarrow> ndigits n \<le> k \<longleftrightarrow> n < 10 ^ k"
proof (induction n arbitrary: k rule: ndigits.induct)
  case (1 n)
  show ?case
  proof (cases "n < 10")
    case True
    from \<open>0 < k\<close> have "10 ^ 1 \<le> (10::nat) ^ k"
      by (intro power_increasing) auto
    with True have "n < 10 ^ k" by simp
    with True \<open>0 < k\<close> show ?thesis by (simp add: ndigits.simps[of n])
  next
    case False
    obtain j where k: "k = Suc j" using \<open>0 < k\<close> by (cases k) auto
    show ?thesis
    proof (cases "j = 0")
      case True
      have "0 < ndigits (n div 10)" by (simp add: ndigits.simps[of "n div 10"])
      with False True k show ?thesis by (simp add: ndigits.simps[of n])
    next
      case j: False
      with 1 False have "ndigits (n div 10) \<le> j \<longleftrightarrow> n div 10 < 10 ^ j" by simp
      also have "\<dots> \<longleftrightarrow> n < 10 ^ k"
        by (simp add: k div_less_iff_less_mult mult.commute)
      finally show ?thesis using False k by (simp add: ndigits.simps[of n])
    qed
  qed
qed

lemma fits_iff: "ndigits (nat \<bar>c\<bar>) \<le> dec_prec \<longleftrightarrow> \<bar>c\<bar> < 10 ^ 28"
  by (simp add: ndigits_le_iff dec_prec_def nat_less_iff)

section \<open>Rounding\<close>

lemma round_half_even_error:
  assumes "0 < m"
  shows "2 * \<bar>c - m * round_half_even c m\<bar> \<le> m"
proof -
  have r: "0 \<le> c mod m" "c mod m < m" using assms by auto
  have d: "c - m * (c div m) = c mod m" "c - m * (c div m + 1) = c mod m - m"
    by (simp_all add: minus_mult_div_eq_mod distrib_left diff_diff_eq [symmetric])
  have "round_half_even c m = c div m \<and> 2 * (c mod m) \<le> m \<or>
        round_half_even c m = c div m + 1 \<and> m \<le> 2 * (c mod m)"
    by (auto simp: round_half_even_def Let_def)
  with r show ?thesis by (elim disjE conjE) (simp_all only: d, simp_all)
qed

lemma round_half_even_mono:
  assumes "0 < m" and "c \<le> d"
  shows "round_half_even c m \<le> round_half_even d m"
proof (cases "c div m = d div m")
  case True
  have "c mod m \<le> d mod m"
    using assms(2) True by (simp add: minus_div_mult_eq_mod [symmetric])
  then show ?thesis using True by (auto simp: round_half_even_def Let_def)
next
  case False
  then have "c div m + 1 \<le> d div m"
    using zdiv_mono1[OF assms(2,1)] by linarith
  then show ?thesis by (auto simp: round_half_even_def Let_def)
qed

lemma round_half_even_exact: "0 < m \<Longrightarrow> round_half_even (k * m) m = k"
  by (simp add: round_half_even_def Let_def)

lemma round_half_even_scale: "0 < k \<Longrightarrow> round_half_even (c * k) (m * k) = round_half_even c m"
  by (simp add: round_half_even_def Let_def div_mult_mult2 mult_mod_left [symmetric])

section \<open>Values\<close>

lemma dec_val_Dec [simp]: "dec_val (Dec c e) = of_int c * 10 powi e"
  by (simp add: dec_val_def)

lemma dec_val_of_int [simp]: "dec_val (dec_of_int n) = of_int n"
  by (simp add: dec_of_int_def)

lemma powi_shift: "e \<le> d \<Longrightarrow> (10::rat) ^ nat (d - e) * 10 powi e = 10 powi d"
  by (simp add: power_int_nonneg_exp [symmetric] power_int_add [symmetric])

lemma dec_fix_id: "\<bar>coeff d\<bar> < 10 ^ 28 \<Longrightarrow> dec_fix d = d"
  by (simp add: dec_fix_def fits_iff)

lemma dec_mult_exact:
  "\<bar>coeff a * coeff b\<bar> < 10 ^ 28 \<Longrightarrow>
   dec_mult a b = Dec (coeff a * coeff b) (expo a + expo b) \<and>
   dec_val (dec_mult a b) = dec_val a * dec_val b"
  by (simp add: dec_mult_def dec_fix_id dec_val_def power_int_add)

lemma dec_add_exact:
  fixes a b
  defines "e \<equiv> min (expo a) (expo b)"
  assumes "\<bar>coeff a * 10 ^ nat (expo a - e) + coeff b * 10 ^ nat (expo b - e)\<bar> < 10 ^ 28"
  shows "expo (dec_add a b) = e \<and> dec_val (dec_add a b) = dec_val a + dec_val b"
proof -
  have "dec_add a b = Dec (coeff a * 10 ^ nat (expo a - e) + coeff b * 10 ^ nat (expo b - e)) e"
    using assms by (simp add: dec_add_def Let_def dec_fix_id)
  moreover have "(10::rat) ^ nat (expo a - e) * 10 powi e = 10 powi expo a"
    and "(10::rat) ^ nat (expo b - e) * 10 powi e = 10 powi expo b"
    by (auto simp: e_def intro!: powi_shift)
  ultimately show ?thesis
    by (simp add: dec_val_def distrib_right mult.assoc)
qed

lemma strip_zeros_val: "dec_val (strip_zeros c e ideal) = of_int c * 10 powi e"
proof (induction c e ideal rule: strip_zeros.induct)
  case (1 c e ideal)
  show ?case
  proof (cases "e < ideal \<and> c mod 10 = 0")
    case True
    then have "c = (c div 10) * 10" by auto
    then have "of_int c = of_int (c div 10) * (10::rat)"
      by (metis of_int_mult of_int_numeral)
    with True "1.IH" show ?thesis
      by (simp add: strip_zeros.simps[of c e ideal] power_int_add_1')
  next
    case False
    then show ?thesis by (auto simp: strip_zeros.simps[of c e ideal])
  qed
qed

lemma strip_zeros_scaled:
  "e + int j \<le> ideal \<Longrightarrow> strip_zeros (c * 10 ^ j) e ideal = strip_zeros c (e + int j) ideal"
proof (induction j arbitrary: e)
  case 0
  then show ?case by simp
next
  case (Suc j)
  have "(c * 10 ^ Suc j) div 10 = c * 10 ^ j" by simp
  moreover have "(c * 10 ^ Suc j) mod 10 = 0" by simp
  ultimately have "strip_zeros (c * 10 ^ Suc j) e ideal = strip_zeros (c * 10 ^ j) (e + 1) ideal"
    using Suc.prems by (subst strip_zeros.simps) simp
  also have "\<dots> = strip_zeros c (e + 1 + int j) ideal"
    by (rule Suc.IH) (use Suc.prems in simp)
  finally show ?case by (simp add: add.assoc)
qed

lemma strip_zeros_bounds:
  "\<bar>coeff (strip_zeros c e ideal)\<bar> \<le> \<bar>c\<bar> \<and> e \<le> expo (strip_zeros c e ideal) \<and>
   (e \<le> ideal \<longrightarrow> expo (strip_zeros c e ideal) \<le> ideal) \<and> (0 \<le> c \<longrightarrow> 0 \<le> coeff (strip_zeros c e ideal))"
proof (induction c e ideal rule: strip_zeros.induct)
  case (1 c e ideal)
  show ?case
  proof (cases "e < ideal \<and> c mod 10 = 0")
    case True
    then have "\<bar>c div 10\<bar> \<le> \<bar>c\<bar>" by auto
    with True "1.IH" show ?thesis by (auto simp: strip_zeros.simps[of c e ideal])
  next
    case False
    then show ?thesis by (auto simp: strip_zeros.simps[of c e ideal])
  qed
qed

section \<open>Quantizing\<close>

lemma dec_quantize_expo: "dec_quantize d q = Some r \<Longrightarrow> expo r = q"
  by (auto simp: dec_quantize_def Let_def split: if_splits)

lemma dec_rescale_error: "\<bar>of_int (dec_rescale d q) * 10 powi q - dec_val d\<bar> \<le> 10 powi q / 2"
proof (cases "q \<le> expo d")
  case True
  then have "of_int (dec_rescale d q) * (10::rat) powi q = dec_val d"
    by (simp add: dec_rescale_def dec_val_def powi_shift mult.assoc)
  then show ?thesis by simp
next
  case False
  let ?k = "nat (q - expo d)"
  let ?c = "coeff d" and ?r = "round_half_even (coeff d) (10 ^ nat (q - expo d))"
  have p: "(10::rat) ^ ?k * 10 powi expo d = 10 powi q"
    using False by (intro powi_shift) simp
  have "2 * \<bar>?c - 10 ^ ?k * ?r\<bar> \<le> 10 ^ ?k"
    by (rule round_half_even_error) simp
  then have "of_int (2 * \<bar>?c - 10 ^ ?k * ?r\<bar>) \<le> (of_int (10 ^ ?k) :: rat)"
    by (simp only: of_int_le_iff)
  then have "\<bar>of_int ?c - 10 ^ ?k * of_int ?r\<bar> \<le> (10 ^ ?k / 2 :: rat)"
    by simp
  then have "\<bar>of_int ?c - 10 ^ ?k * of_int ?r\<bar> * 10 powi expo d \<le> (10 ^ ?k / 2 :: rat) * 10 powi expo d"
    by (rule mult_right_mono) simp
  also have "\<dots> = 10 powi q / 2" using p by simp
  finally have "\<bar>(of_int ?c - 10 ^ ?k * of_int ?r) * 10 powi expo d\<bar> \<le> (10 powi q / 2 :: rat)"
    by (simp add: abs_mult)
  moreover have "(of_int ?c - 10 ^ ?k * of_int ?r) * (10::rat) powi expo d
      = dec_val d - of_int ?r * 10 powi q"
    by (simp add: dec_val_def p [symmetric] algebra_simps)
  ultimately have "\<bar>of_int ?r * 10 powi q - dec_val d\<bar> \<le> (10 powi q / 2 :: rat)"
    by (simp only: abs_minus_commute)
  moreover have "dec_rescale d q = ?r" using False by (simp add: dec_rescale_def)
  ultimately show ?thesis by simp
qed

lemma dec_quantize_error:
  assumes "dec_quantize d q = Some r"
  shows "\<bar>dec_val r - dec_val d\<bar> \<le> 10 powi q / 2"
proof -
  from assms have "r = Dec (dec_rescale d q) q"
    by (auto simp: dec_quantize_def Let_def split: if_splits)
  then show ?thesis using dec_rescale_error[of d q] by simp
qed

text \<open>Quantizing is monotone in the value, whatever the exponents of the operands.\<close>

lemma dec_rescale_common:
  assumes "e \<le> expo d" and "e \<le> q"
  shows "dec_rescale d q = round_half_even (coeff d * 10 ^ nat (expo d - e)) (10 ^ nat (q - e))"
proof (cases "q \<le> expo d")
  case True
  then have "nat (expo d - e) = nat (expo d - q) + nat (q - e)" using assms by simp
  then have "coeff d * 10 ^ nat (expo d - e) = (coeff d * 10 ^ nat (expo d - q)) * 10 ^ nat (q - e)"
    by (simp add: power_add)
  then have "round_half_even (coeff d * 10 ^ nat (expo d - e)) (10 ^ nat (q - e))
      = coeff d * 10 ^ nat (expo d - q)"
    by (simp only: round_half_even_exact zero_less_power zero_less_numeral)
  then show ?thesis using True by (simp add: dec_rescale_def)
next
  case False
  then have "nat (q - e) = nat (q - expo d) + nat (expo d - e)" using assms by simp
  then have "(10::int) ^ nat (q - e) = 10 ^ nat (q - expo d) * 10 ^ nat (expo d - e)"
    by (simp add: power_add)
  then show ?thesis using False by (simp add: dec_rescale_def round_half_even_scale)
qed

lemma dec_rescale_mono:
  assumes "dec_val a \<le> dec_val b"
  shows "dec_rescale a q \<le> dec_rescale b q"
proof -
  define e where "e = min (min (expo a) (expo b)) q"
  have le: "e \<le> expo a" "e \<le> expo b" "e \<le> q" by (auto simp: e_def)
  have v: "dec_val d = of_int (coeff d * 10 ^ nat (expo d - e)) * 10 powi e" if "e \<le> expo d" for d
    using powi_shift[OF that] by (simp add: dec_val_def mult.assoc)
  from assms have "coeff a * 10 ^ nat (expo a - e) \<le> coeff b * 10 ^ nat (expo b - e)"
    unfolding v[OF le(1)] v[OF le(2)]
    by (simp only: mult_le_cancel_right of_int_le_iff) (auto simp: zero_less_power_int)
  then show ?thesis
    using le by (simp add: dec_rescale_common[of e] round_half_even_mono)
qed

lemma dec_quantize_mono:
  assumes "dec_quantize a q = Some r" and "dec_quantize b q = Some t" and "dec_val a \<le> dec_val b"
  shows "dec_val r \<le> dec_val t"
proof -
  have "r = Dec (dec_rescale a q) q" "t = Dec (dec_rescale b q) q"
    using assms(1,2) by (auto simp: dec_quantize_def Let_def split: if_splits)
  then show ?thesis using dec_rescale_mono[OF assms(3)] by (simp add: mult_right_mono)
qed

end
