(* ===== verification/Domain_Types.thy ===== *)
theory Domain_Types
  imports Reason_Codes Py_Decimal
begin

text \<open>
  The immutable pydantic models of \<open>src/domain/\<close> as records, one per class, with the
  constraints pydantic checks when an instance is built: \<open>Field\<close> bounds and the validators the
  classes define.  A failed check raises \<open>pydantic.ValidationError\<close>.  Field names carry a
  prefix for the class, since HOL record fields are global.  Times are microseconds since the
  epoch; token counts are Python integers.
\<close>

type_synonym datetime = int
type_synonym money = decimal

section \<open>Messages, usage and cost\<close>

record message =
  msg_role :: role
  msg_content :: str

record usage =
  us_input_tokens :: int
  us_output_tokens :: int

text \<open>\<open>is_estimate\<close> is the literal \<open>True\<close> in the source and carries no information.\<close>

record estimated_cost =
  ec_amount_usd :: money

definition mk_usage :: "int \<Rightarrow> int \<Rightarrow> usage result" where
  "mk_usage i out =
     (if 0 \<le> i \<and> 0 \<le> out then Inr \<lparr>us_input_tokens = i, us_output_tokens = out\<rparr>
      else Inl Validation_Error)"

section \<open>The model catalogue's entries\<close>

record model_capabilities =
  cap_capability_tags :: "str list"
  cap_quality_tier :: quality_tier
  cap_max_input_tokens :: int
  cap_max_output_tokens :: int
  cap_supports_tool_use :: bool
  cap_supports_structured_output :: bool
  cap_supports_streaming :: bool
  cap_supported_modalities :: "str list"
  cap_typical_latency :: latency_preference

record model_pricing =
  pri_currency :: str
  pri_input_price_per_1k_tokens :: money
  pri_output_price_per_1k_tokens :: money
  pri_pricing_version :: int

record model_resolution =
  mr_type :: model_resolution_type
  mr_value :: str

record model_definition =
  md_model_alias :: str
  md_provider :: provider_name
  md_region :: str
  md_resolution :: model_resolution
  md_capabilities :: model_capabilities
  md_pricing :: model_pricing
  md_health :: model_health_status

definition bedrock_only_resolution_types :: "model_resolution_type list" where
  "bedrock_only_resolution_types =
     [Resolution_CROSS_REGION_INFERENCE_PROFILE, Resolution_APPLICATION_INFERENCE_PROFILE]"

definition model_capabilities_fields_ok :: "model_capabilities \<Rightarrow> bool" where
  "model_capabilities_fields_ok c \<longleftrightarrow>
     1 \<le> length (cap_capability_tags c) \<and> 0 < cap_max_input_tokens c \<and> 0 < cap_max_output_tokens c"

definition model_pricing_fields_ok :: "model_pricing \<Rightarrow> bool" where
  "model_pricing_fields_ok p \<longleftrightarrow> 0 < pri_pricing_version p"

text \<open>\<open>_validate_resolution_matches_provider\<close>, after the fields' own checks.\<close>

definition validate_model_definition :: "model_definition \<Rightarrow> model_definition result" where
  "validate_model_definition m =
     (if \<not> model_capabilities_fields_ok (md_capabilities m)
         \<or> \<not> model_pricing_fields_ok (md_pricing m) then Inl Validation_Error
      else if md_provider m \<noteq> Provider_BEDROCK
         \<and> mr_type (md_resolution m) \<in> set bedrock_only_resolution_types then Inl Validation_Error
      else Inr m)"

section \<open>Routing policy\<close>

record experiment_arm =
  arm_model_alias :: str
  arm_weight :: int

datatype experiment_subject_key_source =
  Subject_APPLICATION_ID | Subject_CONVERSATION_ID | Subject_APPLICATION_AND_CONVERSATION

record experiment_policy =
  exp_experiment_id :: str
  exp_arms :: "experiment_arm list"
  exp_subject_key_source :: experiment_subject_key_source

text \<open>\<open>_validate_unique_arms\<close>, after the fields' own checks.\<close>

definition experiment_policy_ok :: "experiment_policy \<Rightarrow> bool" where
  "experiment_policy_ok x \<longleftrightarrow>
     2 \<le> length (exp_arms x) \<and> (\<forall>a\<in>set (exp_arms x). 0 < arm_weight a) \<and>
     distinct (map arm_model_alias (exp_arms x))"

record fallback_policy =
  fb_fallback_model_aliases :: "str list"
  fb_maximum_attempts :: int

record idempotency_policy =
  idp_allow_response_caching :: bool
  idp_retention_seconds :: int

record client_override_permissions =
  ov_quality_tier :: bool
  ov_maximum_estimated_cost_usd :: bool
  ov_maximum_output_tokens :: bool
  ov_latency_preference :: bool

record routing_policy =
  pol_policy_id :: str
  pol_policy_version :: int
  pol_is_default :: bool
  pol_allowed_capabilities :: "str list"
  pol_allowed_model_aliases :: "str list"
  pol_allowed_quality_tiers :: "quality_tier list"
  pol_default_quality_tier :: quality_tier
  pol_maximum_estimated_cost_usd :: money
  pol_maximum_output_tokens :: int
  pol_routing_strategy :: routing_strategy_type
  pol_preferred_model_alias :: "str option"
  pol_latency_preference :: latency_preference
  pol_allow_client_overrides :: client_override_permissions
  pol_fallback_policy :: fallback_policy
  pol_experiment_policy :: "experiment_policy option"
  pol_idempotency_policy :: idempotency_policy

definition routing_policy_fields_ok :: "routing_policy \<Rightarrow> bool" where
  "routing_policy_fields_ok p \<longleftrightarrow>
     0 < pol_policy_version p \<and> pol_allowed_capabilities p \<noteq> [] \<and>
     pol_allowed_model_aliases p \<noteq> [] \<and> pol_allowed_quality_tiers p \<noteq> [] \<and>
     0 < pol_maximum_output_tokens p \<and> 1 \<le> fb_maximum_attempts (pol_fallback_policy p) \<and>
     0 < idp_retention_seconds (pol_idempotency_policy p) \<and>
     (case pol_experiment_policy p of None \<Rightarrow> True | Some x \<Rightarrow> experiment_policy_ok x)"

text \<open>
  \<open>_validate_consistency\<close>, in the order of the source's checks; Python's
  \<open>not self.preferred_model_alias\<close> holds for \<open>None\<close> and for the empty string.
\<close>

definition validate_consistency :: "routing_policy \<Rightarrow> routing_policy result" where
  "validate_consistency p =
     (if pol_default_quality_tier p \<notin> set (pol_allowed_quality_tiers p) then Inl Validation_Error
      else if pol_routing_strategy p = Strategy_PREFERRED_MODEL
         \<and> (pol_preferred_model_alias p = None \<or> pol_preferred_model_alias p = Some [])
        then Inl Validation_Error
      else if (case pol_preferred_model_alias p of None \<Rightarrow> False
               | Some a \<Rightarrow> a \<notin> set (pol_allowed_model_aliases p)) then Inl Validation_Error
      else if pol_routing_strategy p = Strategy_EXPERIMENT \<and> pol_experiment_policy p = None
        then Inl Validation_Error
      else if (case pol_experiment_policy p of None \<Rightarrow> False
               | Some x \<Rightarrow> list_ex (\<lambda>arm. arm_model_alias arm \<notin> set (pol_allowed_model_aliases p))
                             (exp_arms x)) then Inl Validation_Error
      else if list_ex (\<lambda>a. a \<notin> set (pol_allowed_model_aliases p))
                (fb_fallback_model_aliases (pol_fallback_policy p)) then Inl Validation_Error
      else Inr p)"

definition validate_routing_policy :: "routing_policy \<Rightarrow> routing_policy result" where
  "validate_routing_policy p =
     (if routing_policy_fields_ok p then validate_consistency p else Inl Validation_Error)"

text \<open>A policy every check of its class accepts.\<close>

definition policy_ok :: "routing_policy \<Rightarrow> bool" where
  "policy_ok p \<longleftrightarrow> validate_routing_policy p = Inr p"

section \<open>Requests\<close>

record routing_requirements =
  req_capability :: str
  req_quality_tier :: "quality_tier option"
  req_maximum_estimated_cost_usd :: "money option"
  req_maximum_output_tokens :: "int option"
  req_latency_preference :: "latency_preference option"
  req_requires_tool_use :: bool
  req_requires_structured_output :: bool

definition routing_requirements_ok :: "routing_requirements \<Rightarrow> bool" where
  "routing_requirements_ok r \<longleftrightarrow>
     (case req_maximum_output_tokens r of None \<Rightarrow> True | Some n \<Rightarrow> 0 < n)"

record application_identity =
  aid_application_id :: str

record inference_request =
  ir_application_id :: str
  ir_messages :: "message list"
  ir_requirements :: routing_requirements
  ir_conversation_id :: "str option"
  ir_idempotency_key :: "str option"
  ir_metadata :: "(str \<times> str) list"

text \<open>\<open>str.isspace\<close> on the code points below 256, and \<open>not value.strip()\<close>.\<close>

definition is_space :: "char \<Rightarrow> bool" where
  "is_space c \<longleftrightarrow>
     (let n = (of_char c :: nat)
      in 9 \<le> n \<and> n \<le> 13 \<or> 28 \<le> n \<and> n \<le> 32 \<or> n = 133 \<or> n = 160)"

definition is_blank :: "str \<Rightarrow> bool" where
  "is_blank s \<longleftrightarrow> list_all is_space s"

definition validate_inference_request :: "inference_request \<Rightarrow> inference_request result" where
  "validate_inference_request r =
     (if is_blank (ir_application_id r) \<or> ir_messages r = []
         \<or> \<not> routing_requirements_ok (ir_requirements r) then Inl Validation_Error
      else Inr r)"

section \<open>Candidates, decisions, provider requests and results\<close>

record route_candidate =
  rc_model_alias :: str
  rc_provider :: provider_name
  rc_eligible :: bool
  rc_reason_codes :: "routing_reason_code list"
  rc_estimated_usage :: usage
  rc_estimated_cost :: estimated_cost

record route_score =
  rsc_candidate :: route_candidate
  rsc_score :: decimal

record routing_decision =
  dec_decision_id :: str
  dec_application_id :: str
  dec_created_at :: datetime
  dec_policy_id :: str
  dec_policy_version :: int
  dec_capability :: str
  dec_selected_model_alias :: "str option"
  dec_provider :: "provider_name option"
  dec_fallback_used :: bool
  dec_reason_codes :: "routing_reason_code list"
  dec_considered_candidates :: "route_candidate list"
  dec_estimated_usage :: "usage option"
  dec_estimated_cost :: "estimated_cost option"

record provider_request =
  pr_model_alias :: str
  pr_messages :: "message list"
  pr_system_prompt :: "str option"
  pr_max_output_tokens :: int
  pr_temperature :: "rat option"
  pr_top_p :: "rat option"
  pr_requires_tool_use :: bool
  pr_requires_structured_output :: bool

definition unit_interval :: "rat option \<Rightarrow> bool" where
  "unit_interval x = (case x of None \<Rightarrow> True | Some q \<Rightarrow> 0 \<le> q \<and> q \<le> 1)"

definition validate_provider_request :: "provider_request \<Rightarrow> provider_request result" where
  "validate_provider_request r =
     (if pr_messages r = [] \<or> pr_max_output_tokens r \<le> 0
         \<or> \<not> unit_interval (pr_temperature r) \<or> \<not> unit_interval (pr_top_p r)
      then Inl Validation_Error else Inr r)"

record provider_response =
  ps_model_alias :: str
  ps_provider :: provider_name
  ps_message :: message
  ps_stop_reason :: stop_reason
  ps_usage :: usage

record provider_response_chunk =
  ch_delta_text :: str
  ch_is_final :: bool
  ch_stop_reason :: "stop_reason option"
  ch_usage :: "usage option"

record invocation_attempt =
  at_model_alias :: str
  at_status :: invocation_attempt_status
  at_latency_ms :: int

definition mk_invocation_attempt ::
  "str \<Rightarrow> invocation_attempt_status \<Rightarrow> int \<Rightarrow> invocation_attempt result" where
  "mk_invocation_attempt alias status latency_ms =
     (if 0 \<le> latency_ms
      then Inr \<lparr>at_model_alias = alias, at_status = status, at_latency_ms = latency_ms\<rparr>
      else Inl Validation_Error)"

record inference_result =
  res_decision :: routing_decision
  res_response :: "provider_response option"
  res_invocation_attempts :: "invocation_attempt list"

record audit_record =
  aud_decision :: routing_decision
  aud_invocation_attempts :: "invocation_attempt list"

datatype idempotency_outcome = Outcome_NEW | Outcome_IN_PROGRESS | Outcome_COMPLETED | Outcome_CONFLICT

record idempotency_reservation =
  rsv_outcome :: idempotency_outcome
  rsv_cached_result :: "inference_result option"

section \<open>What validation establishes\<close>

lemma mk_usage_Inr [simp]:
  "mk_usage i n = Inr u \<longleftrightarrow> 0 \<le> i \<and> 0 \<le> n \<and> u = \<lparr>us_input_tokens = i, us_output_tokens = n\<rparr>"
  by (auto simp: mk_usage_def)

lemma mk_invocation_attempt_Inr [simp]:
  "mk_invocation_attempt a st l = Inr t \<longleftrightarrow>
     0 \<le> l \<and> t = \<lparr>at_model_alias = a, at_status = st, at_latency_ms = l\<rparr>"
  by (auto simp: mk_invocation_attempt_def)

lemma validate_provider_request_Inr [simp]:
  "validate_provider_request r = Inr r' \<longleftrightarrow>
     r' = r \<and> pr_messages r \<noteq> [] \<and> 0 < pr_max_output_tokens r \<and>
     unit_interval (pr_temperature r) \<and> unit_interval (pr_top_p r)"
  by (auto simp: validate_provider_request_def)

lemma unit_interval_None [simp]: "unit_interval None"
  by (simp add: unit_interval_def)

lemma policy_ok_iff:
  "policy_ok p \<longleftrightarrow>
     routing_policy_fields_ok p \<and>
     pol_default_quality_tier p \<in> set (pol_allowed_quality_tiers p) \<and>
     (pol_routing_strategy p = Strategy_PREFERRED_MODEL \<longrightarrow>
        pol_preferred_model_alias p \<notin> {None, Some []}) \<and>
     (\<forall>a. pol_preferred_model_alias p = Some a \<longrightarrow> a \<in> set (pol_allowed_model_aliases p)) \<and>
     (pol_routing_strategy p = Strategy_EXPERIMENT \<longrightarrow> pol_experiment_policy p \<noteq> None) \<and>
     (\<forall>x. pol_experiment_policy p = Some x \<longrightarrow>
        arm_model_alias ` set (exp_arms x) \<subseteq> set (pol_allowed_model_aliases p)) \<and>
     set (fb_fallback_model_aliases (pol_fallback_policy p)) \<subseteq> set (pol_allowed_model_aliases p)"
  by (auto simp: policy_ok_def validate_routing_policy_def validate_consistency_def list_ex_iff
      split: if_splits option.splits)

lemma validate_routing_policy_Inr: "validate_routing_policy p = Inr q \<Longrightarrow> q = p \<and> policy_ok p"
  by (auto simp: policy_ok_def validate_routing_policy_def validate_consistency_def
      split: if_splits option.splits)

end
