(* ===== verification/Shipped_Config.thy ===== *)
theory Shipped_Config
  imports Domain_Types
begin

text \<open>
  The configuration the repository ships under \<open>src/policies/\<close>: the model catalogue, the default
  policy and the application policies, as the records they load into.  Absent keys take the
  defaults of the pydantic classes.  The development's concrete instances are taken from here.
\<close>

definition economical_text_primary :: model_definition where
  "economical_text_primary =
     \<lparr>md_model_alias = ''economical-text-primary'', md_provider = Provider_BEDROCK, md_region = ''us-east-1'',
      md_resolution = \<lparr>mr_type = Resolution_DIRECT_MODEL_ID, mr_value = ''anthropic.claude-3-haiku-20240307-v1:0''\<rparr>,
      md_capabilities =
        \<lparr>cap_capability_tags = [''economical-text''], cap_quality_tier = Tier_STANDARD,
         cap_max_input_tokens = 200000, cap_max_output_tokens = 4096,
         cap_supports_tool_use = False, cap_supports_structured_output = False,
         cap_supports_streaming = True, cap_supported_modalities = [''text''],
         cap_typical_latency = Latency_LOW\<rparr>,
      md_pricing =
        \<lparr>pri_currency = ''USD'', pri_input_price_per_1k_tokens = Dec 25 (- 5),
         pri_output_price_per_1k_tokens = Dec 125 (- 5), pri_pricing_version = 1\<rparr>,
      md_health = Health_HEALTHY\<rparr>"

definition balanced_text_primary :: model_definition where
  "balanced_text_primary =
     \<lparr>md_model_alias = ''balanced-text-primary'', md_provider = Provider_BEDROCK, md_region = ''us-east-1'',
      md_resolution = \<lparr>mr_type = Resolution_DIRECT_MODEL_ID, mr_value = ''anthropic.claude-3-5-sonnet-20240620-v1:0''\<rparr>,
      md_capabilities =
        \<lparr>cap_capability_tags = [''balanced-text''], cap_quality_tier = Tier_STANDARD,
         cap_max_input_tokens = 200000, cap_max_output_tokens = 4096,
         cap_supports_tool_use = True, cap_supports_structured_output = True,
         cap_supports_streaming = True, cap_supported_modalities = [''text''],
         cap_typical_latency = Latency_BALANCED\<rparr>,
      md_pricing =
        \<lparr>pri_currency = ''USD'', pri_input_price_per_1k_tokens = Dec 3 (- 3),
         pri_output_price_per_1k_tokens = Dec 15 (- 3), pri_pricing_version = 1\<rparr>,
      md_health = Health_HEALTHY\<rparr>"

definition balanced_text_secondary :: model_definition where
  "balanced_text_secondary =
     \<lparr>md_model_alias = ''balanced-text-secondary'', md_provider = Provider_BEDROCK, md_region = ''us-east-1'',
      md_resolution = \<lparr>mr_type = Resolution_DIRECT_MODEL_ID, mr_value = ''meta.llama3-1-70b-instruct-v1:0''\<rparr>,
      md_capabilities =
        \<lparr>cap_capability_tags = [''balanced-text''], cap_quality_tier = Tier_STANDARD,
         cap_max_input_tokens = 128000, cap_max_output_tokens = 4096,
         cap_supports_tool_use = False, cap_supports_structured_output = False,
         cap_supports_streaming = True, cap_supported_modalities = [''text''],
         cap_typical_latency = Latency_BALANCED\<rparr>,
      md_pricing =
        \<lparr>pri_currency = ''USD'', pri_input_price_per_1k_tokens = Dec 8 (- 3),
         pri_output_price_per_1k_tokens = Dec 24 (- 3), pri_pricing_version = 1\<rparr>,
      md_health = Health_HEALTHY\<rparr>"

definition balanced_text_openai :: model_definition where
  "balanced_text_openai =
     \<lparr>md_model_alias = ''balanced-text-openai'', md_provider = Provider_OPENAI, md_region = ''global'',
      md_resolution = \<lparr>mr_type = Resolution_DIRECT_MODEL_ID, mr_value = ''gpt-4o''\<rparr>,
      md_capabilities =
        \<lparr>cap_capability_tags = [''balanced-text''], cap_quality_tier = Tier_STANDARD,
         cap_max_input_tokens = 128000, cap_max_output_tokens = 4096,
         cap_supports_tool_use = True, cap_supports_structured_output = True,
         cap_supports_streaming = True, cap_supported_modalities = [''text''],
         cap_typical_latency = Latency_BALANCED\<rparr>,
      md_pricing =
        \<lparr>pri_currency = ''USD'', pri_input_price_per_1k_tokens = Dec 25 (- 4),
         pri_output_price_per_1k_tokens = Dec 1 (- 2), pri_pricing_version = 1\<rparr>,
      md_health = Health_HEALTHY\<rparr>"

definition advanced_reasoning_primary :: model_definition where
  "advanced_reasoning_primary =
     \<lparr>md_model_alias = ''advanced-reasoning-primary'', md_provider = Provider_BEDROCK, md_region = ''us-east-1'',
      md_resolution = \<lparr>mr_type = Resolution_DIRECT_MODEL_ID, mr_value = ''anthropic.claude-3-opus-20240229-v1:0''\<rparr>,
      md_capabilities =
        \<lparr>cap_capability_tags = [''advanced-reasoning''], cap_quality_tier = Tier_PREMIUM,
         cap_max_input_tokens = 200000, cap_max_output_tokens = 4096,
         cap_supports_tool_use = True, cap_supports_structured_output = True,
         cap_supports_streaming = True, cap_supported_modalities = [''text''],
         cap_typical_latency = Latency_HIGH\<rparr>,
      md_pricing =
        \<lparr>pri_currency = ''USD'', pri_input_price_per_1k_tokens = Dec 15 (- 3),
         pri_output_price_per_1k_tokens = Dec 75 (- 3), pri_pricing_version = 1\<rparr>,
      md_health = Health_HEALTHY\<rparr>"

definition shipped_models :: "model_definition list" where
  "shipped_models =
     [economical_text_primary, balanced_text_primary, balanced_text_secondary,
      balanced_text_openai, advanced_reasoning_primary]"

definition default_policy :: routing_policy where
  "default_policy =
     \<lparr>pol_policy_id = ''default'', pol_policy_version = 1, pol_is_default = True,
      pol_allowed_capabilities = [''economical-text''],
      pol_allowed_model_aliases = [''economical-text-primary''],
      pol_allowed_quality_tiers = [Tier_STANDARD],
      pol_default_quality_tier = Tier_STANDARD,
      pol_maximum_estimated_cost_usd = Dec 5 (- 3), pol_maximum_output_tokens = 500,
      pol_routing_strategy = Strategy_PREFERRED_MODEL,
      pol_preferred_model_alias = Some ''economical-text-primary'',
      pol_latency_preference = Latency_BALANCED,
      pol_allow_client_overrides =
        \<lparr>ov_quality_tier = False, ov_maximum_estimated_cost_usd = True,
         ov_maximum_output_tokens = True, ov_latency_preference = False\<rparr>,
      pol_fallback_policy =
        \<lparr>fb_fallback_model_aliases = [], fb_maximum_attempts = 1\<rparr>,
      pol_experiment_policy = None,
      pol_idempotency_policy =
        \<lparr>idp_allow_response_caching = False, idp_retention_seconds = 300\<rparr>\<rparr>"

definition balanced_text_experiment :: experiment_policy where
  "balanced_text_experiment =
        \<lparr>exp_experiment_id = ''balanced-text-model-comparison-2026h1'',
          exp_arms =
            [\<lparr>arm_model_alias = ''balanced-text-primary'', arm_weight = 70\<rparr>,
             \<lparr>arm_model_alias = ''balanced-text-secondary'', arm_weight = 30\<rparr>],
          exp_subject_key_source = Subject_APPLICATION_AND_CONVERSATION\<rparr>"

definition experimental_app_policy :: routing_policy where
  "experimental_app_policy =
     \<lparr>pol_policy_id = ''experimental-app-default'', pol_policy_version = 1, pol_is_default = False,
      pol_allowed_capabilities = [''balanced-text''],
      pol_allowed_model_aliases = [''balanced-text-primary'', ''balanced-text-secondary''],
      pol_allowed_quality_tiers = [Tier_STANDARD],
      pol_default_quality_tier = Tier_STANDARD,
      pol_maximum_estimated_cost_usd = Dec 2 (- 2), pol_maximum_output_tokens = 500,
      pol_routing_strategy = Strategy_EXPERIMENT,
      pol_preferred_model_alias = None,
      pol_latency_preference = Latency_BALANCED,
      pol_allow_client_overrides =
        \<lparr>ov_quality_tier = False, ov_maximum_estimated_cost_usd = True,
         ov_maximum_output_tokens = True, ov_latency_preference = False\<rparr>,
      pol_fallback_policy =
        \<lparr>fb_fallback_model_aliases = [], fb_maximum_attempts = 1\<rparr>,
      pol_experiment_policy = Some balanced_text_experiment,
      pol_idempotency_policy =
        \<lparr>idp_allow_response_caching = False, idp_retention_seconds = 300\<rparr>\<rparr>"

definition multi_provider_demo_policy :: routing_policy where
  "multi_provider_demo_policy =
     \<lparr>pol_policy_id = ''multi-provider-demo-default'', pol_policy_version = 1, pol_is_default = False,
      pol_allowed_capabilities = [''balanced-text''],
      pol_allowed_model_aliases = [''balanced-text-primary'', ''balanced-text-openai''],
      pol_allowed_quality_tiers = [Tier_STANDARD],
      pol_default_quality_tier = Tier_STANDARD,
      pol_maximum_estimated_cost_usd = Dec 2 (- 2), pol_maximum_output_tokens = 500,
      pol_routing_strategy = Strategy_PREFERRED_MODEL,
      pol_preferred_model_alias = Some ''balanced-text-primary'',
      pol_latency_preference = Latency_BALANCED,
      pol_allow_client_overrides =
        \<lparr>ov_quality_tier = False, ov_maximum_estimated_cost_usd = True,
         ov_maximum_output_tokens = True, ov_latency_preference = True\<rparr>,
      pol_fallback_policy =
        \<lparr>fb_fallback_model_aliases = [''balanced-text-openai''], fb_maximum_attempts = 2\<rparr>,
      pol_experiment_policy = None,
      pol_idempotency_policy =
        \<lparr>idp_allow_response_caching = False, idp_retention_seconds = 300\<rparr>\<rparr>"

definition support_assistant_policy :: routing_policy where
  "support_assistant_policy =
     \<lparr>pol_policy_id = ''support-assistant-default'', pol_policy_version = 3, pol_is_default = False,
      pol_allowed_capabilities = [''economical-text'', ''balanced-text''],
      pol_allowed_model_aliases = [''economical-text-primary'', ''balanced-text-primary'', ''balanced-text-secondary''],
      pol_allowed_quality_tiers = [Tier_STANDARD, Tier_PREMIUM],
      pol_default_quality_tier = Tier_STANDARD,
      pol_maximum_estimated_cost_usd = Dec 1 (- 2), pol_maximum_output_tokens = 1000,
      pol_routing_strategy = Strategy_LOWEST_COST,
      pol_preferred_model_alias = None,
      pol_latency_preference = Latency_BALANCED,
      pol_allow_client_overrides =
        \<lparr>ov_quality_tier = True, ov_maximum_estimated_cost_usd = True,
         ov_maximum_output_tokens = True, ov_latency_preference = True\<rparr>,
      pol_fallback_policy =
        \<lparr>fb_fallback_model_aliases = [''balanced-text-secondary''], fb_maximum_attempts = 2\<rparr>,
      pol_experiment_policy = None,
      pol_idempotency_policy =
        \<lparr>idp_allow_response_caching = False, idp_retention_seconds = 300\<rparr>\<rparr>"

text \<open>
  A request as in \<open>src/scripts/examples/\<close>: a short chat turn of the support assistant.
\<close>

definition balanced_requirements :: routing_requirements where
  "balanced_requirements =
     \<lparr>req_capability = ''balanced-text'', req_quality_tier = None,
      req_maximum_estimated_cost_usd = None, req_maximum_output_tokens = Some 200,
      req_latency_preference = None, req_requires_tool_use = False,
      req_requires_structured_output = False\<rparr>"

definition sample_request :: "str \<Rightarrow> str option \<Rightarrow> inference_request" where
  "sample_request app key =
     \<lparr>ir_application_id = app,
      ir_messages = [\<lparr>msg_role = Role_USER, msg_content = ''Where is my order?''\<rparr>],
      ir_requirements = balanced_requirements, ir_conversation_id = Some ''conv-1'',
      ir_idempotency_key = key, ir_metadata = []\<rparr>"

lemmas shipped_model_defs =
  economical_text_primary_def balanced_text_primary_def balanced_text_secondary_def
  balanced_text_openai_def advanced_reasoning_primary_def

lemmas shipped_policy_defs =
  default_policy_def experimental_app_policy_def multi_provider_demo_policy_def
  support_assistant_policy_def

lemmas policy_check_defs =
  policy_ok_def validate_routing_policy_def validate_consistency_def routing_policy_fields_ok_def
  experiment_policy_ok_def

lemma balanced_text_experiment_ok: "experiment_policy_ok balanced_text_experiment"
  by (simp add: experiment_policy_ok_def balanced_text_experiment_def)

lemma shipped_policies_ok [simp]:
  "policy_ok default_policy" "policy_ok experimental_app_policy"
  "policy_ok multi_provider_demo_policy" "policy_ok support_assistant_policy"
  by (simp_all add: policy_check_defs shipped_policy_defs balanced_text_experiment_def)

lemma shipped_models_valid: "m \<in> set shipped_models \<Longrightarrow> validate_model_definition m = Inr m"
proof -
  have "list_all (\<lambda>m. validate_model_definition m = Inr m) shipped_models"
    by (simp add: shipped_models_def shipped_model_defs validate_model_definition_def
        model_capabilities_fields_ok_def model_pricing_fields_ok_def bedrock_only_resolution_types_def)
  then show "m \<in> set shipped_models \<Longrightarrow> validate_model_definition m = Inr m"
    by (simp add: list_all_iff)
qed

lemma balanced_requirements_ok [simp]: "routing_requirements_ok balanced_requirements"
  by (simp add: routing_requirements_ok_def balanced_requirements_def)

end
