(* ===== verification/Requirements.thy ===== *)
theory Requirements
  imports Shipped_Config
begin

text \<open>
  \<open>src/domain/requirements.py\<close>: the constraints that apply to a request, merged from what the
  client asked for and what its policy permits.
\<close>

record effective_requirements =
  eff_capability :: str
  eff_quality_tier :: quality_tier
  eff_maximum_estimated_cost_usd :: money
  eff_maximum_output_tokens :: int
  eff_latency_preference :: latency_preference
  eff_requires_tool_use :: bool
  eff_requires_structured_output :: bool

text \<open>Python's \<open>min(a, b)\<close> on decimals: the first argument unless the second is smaller.\<close>

definition min_money :: "money \<Rightarrow> money \<Rightarrow> money" where
  "min_money a b = (if dec_val b < dec_val a then b else a)"

definition resolve_effective_requirements ::
  "routing_requirements \<Rightarrow> routing_policy \<Rightarrow> effective_requirements" where
  "resolve_effective_requirements requested policy =
     (let overrides = pol_allow_client_overrides policy;
          quality_tier =
            (case req_quality_tier requested of
               Some t \<Rightarrow> if ov_quality_tier overrides \<and> t \<in> set (pol_allowed_quality_tiers policy)
                         then t else pol_default_quality_tier policy
             | None \<Rightarrow> pol_default_quality_tier policy);
          cost_limit =
            (case req_maximum_estimated_cost_usd requested of
               Some c \<Rightarrow> if ov_maximum_estimated_cost_usd overrides
                         then min_money c (pol_maximum_estimated_cost_usd policy)
                         else pol_maximum_estimated_cost_usd policy
             | None \<Rightarrow> pol_maximum_estimated_cost_usd policy);
          token_limit =
            (case req_maximum_output_tokens requested of
               Some n \<Rightarrow> if ov_maximum_output_tokens overrides
                         then min n (pol_maximum_output_tokens policy)
                         else pol_maximum_output_tokens policy
             | None \<Rightarrow> pol_maximum_output_tokens policy);
          latency =
            (case req_latency_preference requested of
               Some l \<Rightarrow> if ov_latency_preference overrides then l else pol_latency_preference policy
             | None \<Rightarrow> pol_latency_preference policy)
      in \<lparr>eff_capability = req_capability requested,
          eff_quality_tier = quality_tier,
          eff_maximum_estimated_cost_usd = cost_limit,
          eff_maximum_output_tokens = token_limit,
          eff_latency_preference = latency,
          eff_requires_tool_use = req_requires_tool_use requested,
          eff_requires_structured_output = req_requires_structured_output requested\<rparr>)"

lemma min_money_le:
  "dec_val (min_money a b) \<le> dec_val a" "dec_val (min_money a b) \<le> dec_val b"
  by (simp_all add: min_money_def)

lemma resolve_output_tokens_pos:
  assumes "policy_ok p" and "routing_requirements_ok r"
  shows "0 < eff_maximum_output_tokens (resolve_effective_requirements r p)"
  using assms
  by (auto simp: resolve_effective_requirements_def Let_def policy_ok_iff routing_policy_fields_ok_def
      routing_requirements_ok_def split: option.splits)

lemma resolve_passthrough [simp]:
  "eff_capability (resolve_effective_requirements r p) = req_capability r"
  "eff_requires_tool_use (resolve_effective_requirements r p) = req_requires_tool_use r"
  "eff_requires_structured_output (resolve_effective_requirements r p) = req_requires_structured_output r"
  by (simp_all add: resolve_effective_requirements_def Let_def)

lemma resolve_cost_le:
  "dec_val (eff_maximum_estimated_cost_usd (resolve_effective_requirements r p)) \<le>
   dec_val (pol_maximum_estimated_cost_usd p)"
  by (simp add: resolve_effective_requirements_def Let_def min_money_le split: option.splits)

lemma resolve_tokens_le:
  "eff_maximum_output_tokens (resolve_effective_requirements r p) \<le> pol_maximum_output_tokens p"
  by (simp add: resolve_effective_requirements_def Let_def split: option.splits)

lemma resolve_tier_allowed:
  "policy_ok p \<Longrightarrow>
   eff_quality_tier (resolve_effective_requirements r p) \<in> set (pol_allowed_quality_tiers p)"
  by (auto simp: resolve_effective_requirements_def Let_def policy_ok_iff split: option.splits)

text \<open>
  C7. A client can only tighten its policy: for a valid policy the effective cost and output-token
  limits never exceed the policy's, the tier is one the policy allows, the token limit stays
  positive, and where the policy grants no override the effective constraints are the policy's
  own whatever the client asked for.
\<close>

theorem client_overrides_only_tighten:
  assumes "policy_ok p" and "routing_requirements_ok r"
  defines "eff \<equiv> resolve_effective_requirements r p"
  shows "dec_val (eff_maximum_estimated_cost_usd eff) \<le> dec_val (pol_maximum_estimated_cost_usd p) \<and>
    0 < eff_maximum_output_tokens eff \<and>
    eff_maximum_output_tokens eff \<le> pol_maximum_output_tokens p \<and>
    eff_quality_tier eff \<in> set (pol_allowed_quality_tiers p) \<and>
    (\<not> ov_quality_tier (pol_allow_client_overrides p) \<longrightarrow>
       eff_quality_tier eff = pol_default_quality_tier p) \<and>
    (\<not> ov_maximum_estimated_cost_usd (pol_allow_client_overrides p) \<longrightarrow>
       eff_maximum_estimated_cost_usd eff = pol_maximum_estimated_cost_usd p) \<and>
    (\<not> ov_maximum_output_tokens (pol_allow_client_overrides p) \<longrightarrow>
       eff_maximum_output_tokens eff = pol_maximum_output_tokens p) \<and>
    (\<not> ov_latency_preference (pol_allow_client_overrides p) \<longrightarrow>
       eff_latency_preference eff = pol_latency_preference p)"
proof -
  have frame: "\<not> ov_quality_tier (pol_allow_client_overrides p) \<Longrightarrow>
       eff_quality_tier eff = pol_default_quality_tier p"
    "\<not> ov_maximum_estimated_cost_usd (pol_allow_client_overrides p) \<Longrightarrow>
       eff_maximum_estimated_cost_usd eff = pol_maximum_estimated_cost_usd p"
    "\<not> ov_maximum_output_tokens (pol_allow_client_overrides p) \<Longrightarrow>
       eff_maximum_output_tokens eff = pol_maximum_output_tokens p"
    "\<not> ov_latency_preference (pol_allow_client_overrides p) \<Longrightarrow>
       eff_latency_preference eff = pol_latency_preference p"
    by (simp_all add: eff_def resolve_effective_requirements_def Let_def split: option.splits)
  show ?thesis
    using assms(1,2) frame
    by (simp add: eff_def resolve_cost_le resolve_tokens_le resolve_tier_allowed
        resolve_output_tokens_pos)
qed

theorem client_overrides_only_tighten_witness:
  "dec_val (eff_maximum_estimated_cost_usd
      (resolve_effective_requirements balanced_requirements support_assistant_policy)) \<le> 1 / 100 \<and>
   0 < eff_maximum_output_tokens
      (resolve_effective_requirements balanced_requirements support_assistant_policy)"
  using client_overrides_only_tighten[of support_assistant_policy balanced_requirements]
  by (simp add: support_assistant_policy_def[THEN arg_cong, of pol_maximum_estimated_cost_usd]
      power_int_def power_one_over)

end
