(* ===== verification/Ports.thy ===== *)
theory Ports
  imports Domain_Types
begin

text \<open>
  The protocols of \<open>src/domain/ports.py\<close>: one record per protocol, one field per method.
  \<open>'s\<close> is the state behind the ports (the network, the tables, the clocks, the caches of the
  process); a method that reads or changes it is an operation on \<open>'s\<close>.  The estimators and the
  catalogue are immutable objects, so their methods are functions of their arguments.
\<close>

record token_estimator =
  te_estimate :: "message list \<Rightarrow> int \<Rightarrow> usage result"

record cost_estimator =
  ce_estimate :: "usage \<Rightarrow> model_pricing \<Rightarrow> estimated_cost result"

record model_catalogue =
  mc_catalogue_version :: int
  mc_find_by_capability :: "str \<Rightarrow> model_definition list"
  mc_get_by_alias :: "str \<Rightarrow> model_definition option"
  mc_all_models :: "model_definition list"

record 's clock =
  ck_now :: "('s, datetime) op"

record 's identifier_generator =
  ig_new_id :: "str \<Rightarrow> ('s, str) op"

record 's routing_policy_repository =
  rp_resolve :: "str \<Rightarrow> ('s, routing_policy) op"

record 's model_health_repository =
  mh_get_health :: "str \<Rightarrow> ('s, model_health_status) op"
  mh_record_outcome :: "str \<Rightarrow> invocation_attempt_status \<Rightarrow> ('s, unit) op"

record 's idempotency_store =
  ids_reserve :: "str \<Rightarrow> str \<Rightarrow> str \<Rightarrow> ('s, idempotency_reservation) op"
  ids_complete :: "str \<Rightarrow> str \<Rightarrow> str \<Rightarrow> inference_result \<Rightarrow> bool \<Rightarrow> int \<Rightarrow> ('s, unit) op"
  ids_release :: "str \<Rightarrow> str \<Rightarrow> ('s, unit) op"

record 's routing_decision_repository =
  rd_save :: "audit_record \<Rightarrow> ('s, unit) op"
  rd_get :: "str \<Rightarrow> ('s, audit_record option) op"

record 's metrics_publisher =
  mx_publish :: "inference_result \<Rightarrow> ('s, unit) op"

record 's decision_event_publisher =
  dp_publish :: "inference_result \<Rightarrow> ('s, unit) op"

text \<open>
  A lazily produced stream of chunks, as the sequence of outcomes of \<open>next\<close> on the iterator:
  each is an operation, returning \<open>Some\<close> chunk, \<open>None\<close> for \<open>StopIteration\<close> of an exhausted
  iterator, or raising.  \<open>mp_invoke_stream\<close> is absent for a provider that does not implement
  \<open>StreamingModelProvider\<close> (the source's \<open>isinstance\<close> check); its result is a handle
  whose \<open>next\<close> is \<open>mp_next\<close>.
\<close>

record 's model_provider =
  mp_invoke :: "provider_request \<Rightarrow> ('s, provider_response) op"
  mp_invoke_stream :: "(provider_request \<Rightarrow> ('s, nat) op) option"
  mp_next :: "nat \<Rightarrow> ('s, provider_response_chunk option) op"

end
