(* ===== verification/Cost_Estimation.thy ===== *)
theory Cost_Estimation
  imports Ports
begin

text \<open>
  \<open>src/domain/cost_estimation.py\<close>: the default token and cost estimators, in Python's
  decimal arithmetic.  The theorems compare the estimator with the exact rational cost: within
  the range of realistic prices and token counts it never raises, it is within half a
  micro-dollar of the exact value, and it is monotone in the usage.
\<close>

definition default_token_estimate :: "int \<Rightarrow> message list \<Rightarrow> int \<Rightarrow> usage result" where
  "default_token_estimate chars_per_token messages maximum_output_tokens =
     (let total_chars = sum_list (map (\<lambda>m. int (length (msg_content m))) messages)
      in if chars_per_token = 0 then Inl Zero_Division_Error
         else let input_tokens = max 1 (- ((- total_chars) div chars_per_token))
              in mk_usage input_tokens maximum_output_tokens)"

text \<open>The constant the source calls \<open>_CENTS_PER_1K\<close>.\<close>

definition cents_per_1k :: decimal where
  "cents_per_1k = dec_of_int 1000"

definition side_cost :: "int \<Rightarrow> money \<Rightarrow> decimal option" where
  "side_cost tokens price =
     map_option (\<lambda>q. dec_mult q price) (dec_div (dec_of_int tokens) cents_per_1k)"

definition default_cost_estimate :: "usage \<Rightarrow> model_pricing \<Rightarrow> estimated_cost result" where
  "default_cost_estimate u pricing =
     (case side_cost (us_input_tokens u) (pri_input_price_per_1k_tokens pricing) of
        None \<Rightarrow> Inl Zero_Division_Error
      | Some input_cost \<Rightarrow>
          (case side_cost (us_output_tokens u) (pri_output_price_per_1k_tokens pricing) of
             None \<Rightarrow> Inl Zero_Division_Error
           | Some output_cost \<Rightarrow>
               (case dec_quantize (dec_add input_cost output_cost) (-6) of
                  None \<Rightarrow> Inl Decimal_InvalidOperation
                | Some amount \<Rightarrow> Inr \<lparr>ec_amount_usd = amount\<rparr>)))"

text \<open>The two classes as ports.\<close>

definition default_token_estimator :: "int \<Rightarrow> token_estimator" where
  "default_token_estimator chars_per_token = \<lparr>te_estimate = default_token_estimate chars_per_token\<rparr>"

definition default_cost_estimator :: cost_estimator where
  "default_cost_estimator = \<lparr>ce_estimate = default_cost_estimate\<rparr>"

text \<open>The exact cost, the reference the estimate is compared with.\<close>

definition exact_cost :: "usage \<Rightarrow> model_pricing \<Rightarrow> rat" where
  "exact_cost u pricing =
     of_int (us_input_tokens u) / 1000 * dec_val (pri_input_price_per_1k_tokens pricing) +
     of_int (us_output_tokens u) / 1000 * dec_val (pri_output_price_per_1k_tokens pricing)"

text \<open>
  Realistic inputs: fewer than a billion tokens a side, prices from zero to below 1000 dollars per
  thousand tokens given with at most nine decimal places.
\<close>

definition price_in_range :: "money \<Rightarrow> bool" where
  "price_in_range p \<longleftrightarrow> 0 \<le> coeff p \<and> - 9 \<le> expo p \<and> expo p \<le> 0 \<and> dec_val p < 1000"

definition pricing_in_range :: "model_pricing \<Rightarrow> bool" where
  "pricing_in_range p \<longleftrightarrow>
     price_in_range (pri_input_price_per_1k_tokens p) \<and> price_in_range (pri_output_price_per_1k_tokens p)"

definition usage_in_range :: "usage \<Rightarrow> bool" where
  "usage_in_range u \<longleftrightarrow>
     0 \<le> us_input_tokens u \<and> us_input_tokens u < 10 ^ 9 \<and>
     0 \<le> us_output_tokens u \<and> us_output_tokens u < 10 ^ 9"

section \<open>Token estimation\<close>

lemma ceil_div_bounds:
  fixes n k :: int
  assumes "0 < k"
  shows "n \<le> k * (- ((- n) div k)) \<and> k * (- ((- n) div k)) < n + k"
proof -
  have "- n = k * ((- n) div k) + (- n) mod k" by simp
  moreover have "0 \<le> (- n) mod k" "(- n) mod k < k" using assms by auto
  moreover have "k * (- ((- n) div k)) = - (k * ((- n) div k))" by simp
  ultimately show ?thesis by linarith
qed

text \<open>
  The token estimator's input count is the least number of tokens, at least one, whose
  characters (\<open>chars_per_token\<close> each) hold the text of all messages, and its output count is
  the requested maximum.
\<close>

theorem token_estimate_ceiling:
  assumes "0 < k" and "0 \<le> m"
  shows "\<exists>u. default_token_estimate k msgs m = Inr u \<and> us_output_tokens u = m \<and>
     (\<forall>t\<ge>1. us_input_tokens u \<le> t \<longleftrightarrow>
        sum_list (map (\<lambda>x. int (length (msg_content x))) msgs) \<le> k * t) \<and>
     1 \<le> us_input_tokens u"
proof -
  define n where "n = sum_list (map (\<lambda>x. int (length (msg_content x))) msgs)"
  define c where "c = - ((- n) div k)"
  have b: "n \<le> k * c" "k * c < n + k"
    using ceil_div_bounds[OF assms(1), of n] by (auto simp: c_def)
  have "c \<le> t \<longleftrightarrow> n \<le> k * t" for t
  proof
    assume "c \<le> t"
    then have "k * c \<le> k * t" using assms(1) by (intro mult_left_mono) auto
    then show "n \<le> k * t" using b by linarith
  next
    assume "n \<le> k * t"
    then have "k * c < k * (t + 1)" using b by (simp add: distrib_left)
    then have "c < t + 1" using assms(1) by (simp only: mult_less_cancel_left_pos)
    then show "c \<le> t" by simp
  qed
  then show ?thesis
    using assms by (auto simp: default_token_estimate_def Let_def n_def[symmetric] c_def[symmetric])
qed

theorem token_estimate_ceiling_witness:
  "\<exists>u. default_token_estimate 4 [\<lparr>msg_role = Role_USER, msg_content = ''hello''\<rparr>] 100 = Inr u \<and>
       us_output_tokens u = 100 \<and> us_input_tokens u = 2"
proof -
  let ?msgs = "[\<lparr>msg_role = Role_USER, msg_content = ''hello''\<rparr>] :: message list"
  have "(0::int) < 4" and "(0::int) \<le> 100" by simp_all
  from token_estimate_ceiling[OF this, of ?msgs] obtain u
    where u: "default_token_estimate 4 ?msgs 100 = Inr u" "us_output_tokens u = 100"
      "\<forall>t\<ge>1. us_input_tokens u \<le> t \<longleftrightarrow> 5 \<le> 4 * t" by auto
  have "us_input_tokens u \<le> 2" using u(3) by simp
  moreover have "\<not> us_input_tokens u \<le> 1" using u(3) by simp
  ultimately show ?thesis using u(1,2) by auto
qed

section \<open>Division by a thousand is exact\<close>

lemma ndigits_1000: "ndigits 1000 = 4"
  by (simp add: ndigits.simps)

lemma dec_div_1000_eq:
  assumes "0 < n" and "n < 10 ^ 28"
  shows "dec_div (dec_of_int n) cents_per_1k = Some (strip_zeros n (- 3) 0)"
proof -
  define len where "len = ndigits (nat n)"
  have len: "len \<le> 28" using assms by (simp add: len_def ndigits_le_iff nat_less_iff)
  define sh where "sh = 33 - len"
  have sh: "int sh = 33 - int len" "3 \<le> sh" using len by (simp_all add: sh_def)
  have e: "nat (33 - int len) = sh" "nat (int len - 33) = 0" "int len - 33 = - int sh"
    using len by (simp_all add: sh_def)
  have "(10::int) ^ sh = 10 ^ (sh - 3) * 10 ^ 3"
    using sh(2) by (metis le_add_diff_inverse2 power_add)
  then have num: "n * 10 ^ sh = (n * 10 ^ (sh - 3)) * 1000" by simp
  define d where "d = strip_zeros n (- 3) 0"
  have "strip_zeros (n * 10 ^ (sh - 3)) (- int sh) 0 = strip_zeros n (- int sh + int (sh - 3)) 0"
    using sh(2) by (intro strip_zeros_scaled) simp
  also have "- int sh + int (sh - 3) = - 3" using sh(2) by simp
  finally have strip: "strip_zeros (n * 10 ^ (sh - 3)) (- int sh) 0 = d" by (simp add: d_def)
  have "\<bar>coeff d\<bar> \<le> \<bar>n\<bar>"
    using strip_zeros_bounds[of n "- 3" 0] assms(1) unfolding d_def by auto
  then have "dec_fix d = d" using assms by (intro dec_fix_id) linarith
  moreover have "dec_div (dec_of_int n) cents_per_1k = Some (dec_fix d)"
    using assms(1) strip
    by (simp add: dec_div_def dec_of_int_def cents_per_1k_def Let_def ndigits_1000 dec_prec_def
        len_def[symmetric] e num)
  ultimately show ?thesis by (simp add: d_def)
qed

lemma dec_div_1000:
  assumes "0 \<le> n" and "n < 10 ^ 28"
  shows "\<exists>d. dec_div (dec_of_int n) cents_per_1k = Some d \<and> dec_val d = of_int n / 1000 \<and>
     - 3 \<le> expo d \<and> expo d \<le> 0 \<and> 0 \<le> coeff d \<and> coeff d \<le> n"
proof (cases "n = 0")
  case True
  then show ?thesis
    by (simp add: dec_div_def dec_of_int_def cents_per_1k_def dec_fix_id)
next
  case False
  with assms have pos: "0 < n" by simp
  let ?d = "strip_zeros n (- 3) 0"
  have b: "\<bar>coeff ?d\<bar> \<le> \<bar>n\<bar>" "- 3 \<le> expo ?d" "expo ?d \<le> 0" "0 \<le> coeff ?d"
    using strip_zeros_bounds[of n "- 3" 0] pos by auto
  moreover have "dec_val ?d = of_int n / 1000"
    by (simp add: strip_zeros_val)
  moreover have "coeff ?d \<le> n" using b(1,4) pos by linarith
  ultimately show ?thesis using dec_div_1000_eq[OF pos assms(2)] by auto
qed

section \<open>Accuracy and monotonicity\<close>

lemma side_cost_exact:
  assumes "0 \<le> n" and "n < 10 ^ 9" and "price_in_range p"
  shows "\<exists>d. side_cost n p = Some d \<and> dec_val d = of_int n / 1000 * dec_val p \<and>
     - 12 \<le> expo d \<and> expo d \<le> 0 \<and> 0 \<le> coeff d \<and> dec_val d < 10 ^ 9"
proof -
  obtain q where q: "dec_div (dec_of_int n) cents_per_1k = Some q" "dec_val q = of_int n / 1000"
    "- 3 \<le> expo q" "expo q \<le> 0" "0 \<le> coeff q" "coeff q \<le> n"
    using dec_div_1000[of n] assms(1,2) by auto
  from assms(3) have p: "0 \<le> coeff p" "- 9 \<le> expo p" "expo p \<le> 0" "dec_val p < 1000"
    by (auto simp: price_in_range_def)
  have "of_int (coeff p) * (10::rat) powi expo p < 1000" using p(4) by (simp add: dec_val_def)
  moreover have "(10::rat) powi (- 9) \<le> 10 powi expo p" using p(2) by (intro power_int_increasing) auto
  ultimately have "of_int (coeff p) * (10::rat) powi (- 9) < 1000"
    using p(1) by (meson le_less_trans mult_left_mono of_int_0_le_iff)
  then have "of_int (coeff p) < (of_int (10 ^ 12) :: rat)" by (simp add: field_simps)
  then have cp: "coeff p < 10 ^ 12" by (simp only: of_int_less_iff)
  have "coeff q * coeff p \<le> 10 ^ 9 * 10 ^ 12"
    using q(5,6) p(1) cp assms(2) by (intro mult_mono) auto
  then have "\<bar>coeff q * coeff p\<bar> < 10 ^ 28" using q(5) p(1) by (simp add: abs_mult)
  note m = dec_mult_exact[OF this]
  have "dec_val (dec_mult q p) = dec_val q * dec_val p" using m by blast
  then have val: "dec_val (dec_mult q p) = of_int n / 1000 * dec_val p" by (simp only: q(2))
  have "of_int n / 1000 * dec_val p < (10 ^ 6 :: rat) * 1000"
  proof (rule mult_strict_mono')
    show "of_int n / 1000 < (10 ^ 6 :: rat)" using assms(2) by (simp add: field_simps)
    show "0 \<le> dec_val p" using p(1) by (simp add: dec_val_def)
  qed (use p(4) assms(1) in auto)
  then have "dec_val (dec_mult q p) < 10 ^ 9" using val by simp
  then show ?thesis using q m p val by (auto simp: side_cost_def)
qed

lemma scaled_coeff_bound:
  fixes d :: decimal
  assumes "0 \<le> coeff d" and "dec_val d < 10 ^ 9" and "- 12 \<le> e" and "e \<le> expo d"
  shows "0 \<le> coeff d * 10 ^ nat (expo d - e)" and "coeff d * 10 ^ nat (expo d - e) < 10 ^ 21"
proof -
  show "0 \<le> coeff d * 10 ^ nat (expo d - e)" using assms(1) by simp
  have "(10::rat) ^ nat (expo d - e) * 10 powi e = 10 powi expo d"
    using assms(4) by (rule powi_shift)
  then have "of_int (coeff d * 10 ^ nat (expo d - e)) * (10::rat) powi e = dec_val d"
    by (simp add: dec_val_def mult.assoc)
  moreover have "(10::rat) powi (- 12) \<le> 10 powi e" using assms(3) by (intro power_int_increasing) auto
  ultimately have "of_int (coeff d * 10 ^ nat (expo d - e)) * (10::rat) powi (- 12) < 10 ^ 9"
    using assms(1,2) mult_left_mono[of "(10::rat) powi (- 12)" "10 powi e"
      "of_int (coeff d * 10 ^ nat (expo d - e))"] by simp
  then have "of_int (coeff d * 10 ^ nat (expo d - e)) < (of_int (10 ^ 21) :: rat)"
    by (simp add: field_simps)
  then show "coeff d * 10 ^ nat (expo d - e) < 10 ^ 21" by (simp only: of_int_less_iff)
qed

lemma cost_sum_exact:
  assumes "usage_in_range u" and "pricing_in_range p"
  shows "\<exists>a b. side_cost (us_input_tokens u) (pri_input_price_per_1k_tokens p) = Some a \<and>
     side_cost (us_output_tokens u) (pri_output_price_per_1k_tokens p) = Some b \<and>
     dec_val (dec_add a b) = exact_cost u p \<and> - 12 \<le> expo (dec_add a b) \<and>
     0 \<le> exact_cost u p \<and> exact_cost u p < 2 * 10 ^ 9"
proof -
  have u: "0 \<le> us_input_tokens u" "us_input_tokens u < 10 ^ 9"
    "0 \<le> us_output_tokens u" "us_output_tokens u < 10 ^ 9"
    using assms(1) by (auto simp: usage_in_range_def)
  have r: "price_in_range (pri_input_price_per_1k_tokens p)"
    "price_in_range (pri_output_price_per_1k_tokens p)"
    using assms(2) by (auto simp: pricing_in_range_def)
  obtain a where a: "side_cost (us_input_tokens u) (pri_input_price_per_1k_tokens p) = Some a"
    "dec_val a = of_int (us_input_tokens u) / 1000 * dec_val (pri_input_price_per_1k_tokens p)"
    "- 12 \<le> expo a" "expo a \<le> 0" "0 \<le> coeff a" "dec_val a < 10 ^ 9"
    using side_cost_exact[OF u(1,2) r(1)] by auto
  obtain b where b: "side_cost (us_output_tokens u) (pri_output_price_per_1k_tokens p) = Some b"
    "dec_val b = of_int (us_output_tokens u) / 1000 * dec_val (pri_output_price_per_1k_tokens p)"
    "- 12 \<le> expo b" "expo b \<le> 0" "0 \<le> coeff b" "dec_val b < 10 ^ 9"
    using side_cost_exact[OF u(3,4) r(2)] by auto
  define e where "e = min (expo a) (expo b)"
  have e: "- 12 \<le> e" "e \<le> expo a" "e \<le> expo b" using a b by (auto simp: e_def)
  note sa = scaled_coeff_bound[OF a(5,6) e(1,2)] and sb = scaled_coeff_bound[OF b(5,6) e(1,3)]
  have "\<bar>coeff a * 10 ^ nat (expo a - e) + coeff b * 10 ^ nat (expo b - e)\<bar> < 10 ^ 28"
    using sa sb by simp
  then have "expo (dec_add a b) = e \<and> dec_val (dec_add a b) = dec_val a + dec_val b"
    unfolding e_def by (rule dec_add_exact)
  moreover have "exact_cost u p = dec_val a + dec_val b"
    by (simp only: exact_cost_def a(2) b(2))
  moreover have "0 \<le> dec_val a" "0 \<le> dec_val b"
    using a(5) b(5) by (simp_all add: dec_val_def)
  ultimately show ?thesis using a(1,6) b(1,6) e(1) by auto
qed

lemma default_cost_estimate_eq:
  assumes "usage_in_range u" and "pricing_in_range p"
  shows "\<exists>d amount. default_cost_estimate u p = Inr \<lparr>ec_amount_usd = amount\<rparr> \<and>
     dec_quantize d (- 6) = Some amount \<and> dec_val d = exact_cost u p"
proof -
  obtain a b where ab: "side_cost (us_input_tokens u) (pri_input_price_per_1k_tokens p) = Some a"
    "side_cost (us_output_tokens u) (pri_output_price_per_1k_tokens p) = Some b"
    "dec_val (dec_add a b) = exact_cost u p" "- 12 \<le> expo (dec_add a b)"
    "0 \<le> exact_cost u p" "exact_cost u p < 2 * 10 ^ 9"
    using cost_sum_exact[OF assms] by auto
  let ?r = "dec_rescale (dec_add a b) (- 6)"
  have "\<bar>of_int ?r * 10 powi (- 6) - exact_cost u p\<bar> \<le> (10 powi (- 6) / 2 :: rat)"
    using dec_rescale_error[of "dec_add a b" "- 6"] by (simp only: ab(3))
  then have "\<bar>of_int ?r\<bar> < (of_int (10 ^ 28) :: rat)"
    using ab(5,6) by (simp add: abs_if field_simps split: if_splits)
  then have "\<bar>?r\<bar> < 10 ^ 28" by (simp only: of_int_abs [symmetric] of_int_less_iff)
  then have "dec_quantize (dec_add a b) (- 6) = Some (Dec ?r (- 6))"
    by (simp add: dec_quantize_def Let_def fits_iff)
  then show ?thesis using ab(1,2,3) by (auto simp: default_cost_estimate_def)
qed

text \<open>
  C30. Within the realistic range the cost estimator never raises, its result is a non-negative
  amount with six decimal places, and it is within half a micro-dollar of the exact cost.
\<close>

theorem cost_estimate_accurate:
  assumes "usage_in_range u" and "pricing_in_range p"
  shows "\<exists>c. default_cost_estimate u p = Inr c \<and> expo (ec_amount_usd c) = - 6 \<and>
     0 \<le> dec_val (ec_amount_usd c) \<and>
     \<bar>dec_val (ec_amount_usd c) - exact_cost u p\<bar> \<le> 1 / 2000000"
proof -
  obtain d amount where c: "default_cost_estimate u p = Inr \<lparr>ec_amount_usd = amount\<rparr>"
    "dec_quantize d (- 6) = Some amount" "dec_val d = exact_cost u p"
    using default_cost_estimate_eq[OF assms] by auto
  have "0 \<le> exact_cost u p" using cost_sum_exact[OF assms] by auto
  then have "dec_val (Dec 0 0) \<le> dec_val d" using c(3) by simp
  moreover have "dec_quantize (Dec 0 0) (- 6) = Some (Dec 0 (- 6))"
    by (simp add: dec_quantize_def dec_rescale_def fits_iff)
  ultimately have "dec_val (Dec 0 (- 6)) \<le> dec_val amount"
    using c(2) dec_quantize_mono by blast
  moreover have "\<bar>dec_val amount - exact_cost u p\<bar> \<le> 1 / 2000000"
    using dec_quantize_error[OF c(2)] by (simp add: c(3) power_int_def power_one_over)
  ultimately show ?thesis using c(1) dec_quantize_expo[OF c(2)] by simp
qed

theorem cost_estimate_accurate_witness:
  "\<exists>c. default_cost_estimate \<lparr>us_input_tokens = 1000, us_output_tokens = 333\<rparr>
      \<lparr>pri_currency = ''USD'', pri_input_price_per_1k_tokens = Dec 25 (- 5),
       pri_output_price_per_1k_tokens = Dec 125 (- 5), pri_pricing_version = 1\<rparr> = Inr c \<and>
     expo (ec_amount_usd c) = - 6 \<and> \<bar>dec_val (ec_amount_usd c) - 66625 / 10 ^ 8\<bar> \<le> 1 / 2000000"
  using cost_estimate_accurate[of "\<lparr>us_input_tokens = 1000, us_output_tokens = 333\<rparr>"
      "\<lparr>pri_currency = ''USD'', pri_input_price_per_1k_tokens = Dec 25 (- 5),
        pri_output_price_per_1k_tokens = Dec 125 (- 5), pri_pricing_version = 1\<rparr>"]
  by (auto simp: usage_in_range_def pricing_in_range_def price_in_range_def exact_cost_def
      power_int_def power_one_over)

text \<open>
  The cost estimate is monotone: more tokens on either side never give a smaller estimate.
\<close>

theorem cost_estimate_mono:
  assumes "usage_in_range u" and "usage_in_range v" and "pricing_in_range p"
    and "us_input_tokens u \<le> us_input_tokens v" and "us_output_tokens u \<le> us_output_tokens v"
    and "default_cost_estimate u p = Inr c" and "default_cost_estimate v p = Inr d"
  shows "dec_val (ec_amount_usd c) \<le> dec_val (ec_amount_usd d)"
proof -
  have price: "0 \<le> dec_val (pri_input_price_per_1k_tokens p)"
    "0 \<le> dec_val (pri_output_price_per_1k_tokens p)"
    using assms(3) by (auto simp: pricing_in_range_def price_in_range_def dec_val_def)
  have "exact_cost u p \<le> exact_cost v p"
    unfolding exact_cost_def using assms(4,5) price
    by (intro add_mono mult_right_mono divide_right_mono) auto
  then show ?thesis
    using default_cost_estimate_eq[OF assms(1,3)] default_cost_estimate_eq[OF assms(2,3)] assms(6,7)
    by (auto intro: dec_quantize_mono)
qed

theorem cost_estimate_mono_witness:
  "\<exists>c d. default_cost_estimate \<lparr>us_input_tokens = 10, us_output_tokens = 20\<rparr>
      \<lparr>pri_currency = ''USD'', pri_input_price_per_1k_tokens = Dec 25 (- 5),
       pri_output_price_per_1k_tokens = Dec 125 (- 5), pri_pricing_version = 1\<rparr> = Inr c \<and>
     default_cost_estimate \<lparr>us_input_tokens = 10, us_output_tokens = 4000\<rparr>
      \<lparr>pri_currency = ''USD'', pri_input_price_per_1k_tokens = Dec 25 (- 5),
       pri_output_price_per_1k_tokens = Dec 125 (- 5), pri_pricing_version = 1\<rparr> = Inr d \<and>
     dec_val (ec_amount_usd c) \<le> dec_val (ec_amount_usd d)"
proof -
  let ?u = "\<lparr>us_input_tokens = 10, us_output_tokens = 20\<rparr> :: usage"
  let ?v = "\<lparr>us_input_tokens = 10, us_output_tokens = 4000\<rparr> :: usage"
  let ?p = "\<lparr>pri_currency = ''USD'', pri_input_price_per_1k_tokens = Dec 25 (- 5),
     pri_output_price_per_1k_tokens = Dec 125 (- 5), pri_pricing_version = 1\<rparr> :: model_pricing"
  have r: "usage_in_range ?u" "usage_in_range ?v" "pricing_in_range ?p"
    by (simp_all add: usage_in_range_def pricing_in_range_def price_in_range_def
        power_int_def power_one_over)
  obtain c d where cd: "default_cost_estimate ?u ?p = Inr c" "default_cost_estimate ?v ?p = Inr d"
    using default_cost_estimate_eq[OF r(1,3)] default_cost_estimate_eq[OF r(2,3)] by blast
  have "dec_val (ec_amount_usd c) \<le> dec_val (ec_amount_usd d)"
    by (rule cost_estimate_mono[OF r _ _ cd]) simp_all
  with cd show ?thesis by blast
qed

end
