(* ===== verification/Filtering.thy ===== *)
theory Filtering
  imports Requirements Cost_Estimation
begin

text \<open>
  \<open>src/domain/filtering.py\<close>: every catalogue model for the capability becomes a candidate with
  its eligibility and its reason codes.  The theorems give the exact eligibility condition and the
  exact set of reason codes on every branch.
\<close>

definition health_codes :: "model_health_status \<Rightarrow> routing_reason_code list" where
  "health_codes h =
     (case h of Health_UNAVAILABLE \<Rightarrow> [MODEL_UNHEALTHY] | Health_DEGRADED \<Rightarrow> [MODEL_DEGRADED]
      | Health_HEALTHY \<Rightarrow> [])"

definition capability_matched :: "model_definition \<Rightarrow> effective_requirements \<Rightarrow> bool" where
  "capability_matched model requirements \<longleftrightarrow>
     eff_capability requirements \<in> set (cap_capability_tags (md_capabilities model)) \<and>
     (\<not> eff_requires_tool_use requirements \<or> cap_supports_tool_use (md_capabilities model)) \<and>
     (\<not> eff_requires_structured_output requirements
        \<or> cap_supports_structured_output (md_capabilities model))"

definition token_limit_exceeded :: "model_definition \<Rightarrow> usage \<Rightarrow> bool" where
  "token_limit_exceeded model u \<longleftrightarrow>
     cap_max_input_tokens (md_capabilities model) < us_input_tokens u \<or>
     cap_max_output_tokens (md_capabilities model) < us_output_tokens u"

definition within_cost_limit :: "estimated_cost \<Rightarrow> effective_requirements \<Rightarrow> bool" where
  "within_cost_limit c requirements \<longleftrightarrow>
     dec_val (ec_amount_usd c) \<le> dec_val (eff_maximum_estimated_cost_usd requirements)"

definition evaluate_candidate ::
  "model_definition \<Rightarrow> effective_requirements \<Rightarrow> routing_policy \<Rightarrow> token_estimator \<Rightarrow>
   cost_estimator \<Rightarrow> message list \<Rightarrow> model_health_status \<Rightarrow> route_candidate result" where
  "evaluate_candidate model requirements policy te ce messages health_status =
     (let allowed = md_model_alias model \<in> set (pol_allowed_model_aliases policy);
          tier_match = (cap_quality_tier (md_capabilities model) = eff_quality_tier requirements);
          matched = capability_matched model requirements
      in bind_r (te_estimate te messages (eff_maximum_output_tokens requirements)) (\<lambda>u.
         bind_r (ce_estimate ce u (md_pricing model)) (\<lambda>cost.
           let exceeded = token_limit_exceeded model u;
               affordable = within_cost_limit cost requirements;
               reason_codes =
                 health_codes health_status
                 @ (if matched then [CAPABILITY_MATCH] else [])
                 @ (if allowed then [MODEL_ALLOWED] else [MODEL_NOT_ALLOWED])
                 @ (if tier_match then [QUALITY_TIER_MATCH] else [])
                 @ (if exceeded then [TOKEN_LIMIT_EXCEEDED] else [])
                 @ (if affordable then [WITHIN_COST_LIMIT] else [COST_LIMIT_EXCEEDED])
           in Inr \<lparr>rc_model_alias = md_model_alias model,
                   rc_provider = md_provider model,
                   rc_eligible = (health_status \<noteq> Health_UNAVAILABLE \<and> matched \<and> allowed \<and>
                                  tier_match \<and> \<not> exceeded \<and> affordable),
                   rc_reason_codes = sort_reason_codes reason_codes,
                   rc_estimated_usage = u,
                   rc_estimated_cost = cost\<rparr>)))"

definition candidate_health ::
  "'s model_health_repository option \<Rightarrow> str \<Rightarrow> ('s, model_health_status) op" where
  "candidate_health repo alias =
     (case repo of None \<Rightarrow> return_io Health_HEALTHY | Some r \<Rightarrow> mh_get_health r alias)"

definition build_route_candidates ::
  "model_definition list \<Rightarrow> effective_requirements \<Rightarrow> routing_policy \<Rightarrow> token_estimator \<Rightarrow>
   cost_estimator \<Rightarrow> message list \<Rightarrow> 's model_health_repository option \<Rightarrow>
   ('s, route_candidate list) op" where
  "build_route_candidates models requirements policy te ce messages repo =
     map_io (\<lambda>model. bind_io (candidate_health repo (md_model_alias model)) (\<lambda>h.
       lift_r (evaluate_candidate model requirements policy te ce messages h))) models"

section \<open>Lemmas\<close>

lemma evaluate_candidate_Inr:
  assumes "evaluate_candidate model req policy te ce msgs h = Inr c"
  shows "rc_model_alias c = md_model_alias model"
    and "rc_provider c = md_provider model"
    and "te_estimate te msgs (eff_maximum_output_tokens req) = Inr (rc_estimated_usage c)"
    and "ce_estimate ce (rc_estimated_usage c) (md_pricing model) = Inr (rc_estimated_cost c)"
    and "rc_eligible c \<longleftrightarrow>
       h \<noteq> Health_UNAVAILABLE \<and> capability_matched model req \<and>
       md_model_alias model \<in> set (pol_allowed_model_aliases policy) \<and>
       cap_quality_tier (md_capabilities model) = eff_quality_tier req \<and>
       \<not> token_limit_exceeded model (rc_estimated_usage c) \<and>
       within_cost_limit (rc_estimated_cost c) req"
  using assms by (auto simp: evaluate_candidate_def Let_def)

lemma evaluate_candidate_codes:
  assumes "evaluate_candidate model req policy te ce msgs h = Inr c"
  shows "set (rc_reason_codes c) =
      (if h = Health_UNAVAILABLE then {MODEL_UNHEALTHY} else {}) \<union>
      (if h = Health_DEGRADED then {MODEL_DEGRADED} else {}) \<union>
      (if capability_matched model req then {CAPABILITY_MATCH} else {}) \<union>
      {if md_model_alias model \<in> set (pol_allowed_model_aliases policy)
       then MODEL_ALLOWED else MODEL_NOT_ALLOWED} \<union>
      (if cap_quality_tier (md_capabilities model) = eff_quality_tier req then {QUALITY_TIER_MATCH} else {}) \<union>
      (if token_limit_exceeded model (rc_estimated_usage c) then {TOKEN_LIMIT_EXCEEDED} else {}) \<union>
      {if within_cost_limit (rc_estimated_cost c) req then WITHIN_COST_LIMIT else COST_LIMIT_EXCEEDED}"
proof -
  have "rc_reason_codes c = sort_reason_codes
      (health_codes h
       @ (if capability_matched model req then [CAPABILITY_MATCH] else [])
       @ (if md_model_alias model \<in> set (pol_allowed_model_aliases policy)
          then [MODEL_ALLOWED] else [MODEL_NOT_ALLOWED])
       @ (if cap_quality_tier (md_capabilities model) = eff_quality_tier req then [QUALITY_TIER_MATCH] else [])
       @ (if token_limit_exceeded model (rc_estimated_usage c) then [TOKEN_LIMIT_EXCEEDED] else [])
       @ (if within_cost_limit (rc_estimated_cost c) req then [WITHIN_COST_LIMIT] else [COST_LIMIT_EXCEEDED]))"
    using assms by (fastforce simp: evaluate_candidate_def Let_def simp del: if_split)
  moreover have "set (health_codes h) =
      (if h = Health_UNAVAILABLE then {MODEL_UNHEALTHY} else {}) \<union>
      (if h = Health_DEGRADED then {MODEL_DEGRADED} else {})"
    by (cases h) (simp_all add: health_codes_def)
  ultimately show ?thesis
    by (simp add: Un_assoc if_distrib[of set] cong: if_cong)
qed

lemma build_route_candidates_elem:
  assumes "build_route_candidates models req policy te ce msgs repo s = (Inr cs, s')"
  shows "list_all2 (\<lambda>m c. \<exists>h. evaluate_candidate m req policy te ce msgs h = Inr c) models cs"
proof -
  have "list_all2 (\<lambda>m c. \<exists>t t'. bind_io (candidate_health repo (md_model_alias m)) (\<lambda>h.
      lift_r (evaluate_candidate m req policy te ce msgs h)) t = (Inr c, t')) models cs"
    using assms unfolding build_route_candidates_def by (rule map_io_elem)
  then show ?thesis
    by (rule list_all2_mono) (auto simp: io_inv)
qed

lemma build_route_candidates_aliases:
  "build_route_candidates models req policy te ce msgs repo s = (Inr cs, s') \<Longrightarrow>
   map rc_model_alias cs = map md_model_alias models"
  by (rule list_all2_map_eq[OF build_route_candidates_elem]) (auto dest: evaluate_candidate_Inr(1))

lemma build_route_candidates_member:
  assumes "build_route_candidates models req policy te ce msgs repo s = (Inr cs, s')" and "c \<in> set cs"
  shows "\<exists>m h. m \<in> set models \<and> evaluate_candidate m req policy te ce msgs h = Inr c"
  using list_all2_right_elem[OF build_route_candidates_elem[OF assms(1)] assms(2)] by blast

text \<open>
  C5. A candidate is eligible exactly when the model is not reported unavailable, has the
  capability and features asked for, is on the policy's allowlist, has the effective quality tier,
  takes the estimated tokens and costs at most the effective limit; and the reason codes explain
  it: an ineligible candidate carries a negative code or lacks the capability or tier code.
\<close>

theorem candidate_eligible_iff_explained:
  assumes "evaluate_candidate model req policy te ce msgs h = Inr c"
  shows "(rc_eligible c \<longleftrightarrow>
       h \<noteq> Health_UNAVAILABLE \<and> capability_matched model req \<and>
       md_model_alias model \<in> set (pol_allowed_model_aliases policy) \<and>
       cap_quality_tier (md_capabilities model) = eff_quality_tier req \<and>
       us_input_tokens (rc_estimated_usage c) \<le> cap_max_input_tokens (md_capabilities model) \<and>
       us_output_tokens (rc_estimated_usage c) \<le> cap_max_output_tokens (md_capabilities model) \<and>
       dec_val (ec_amount_usd (rc_estimated_cost c)) \<le> dec_val (eff_maximum_estimated_cost_usd req)) \<and>
     (rc_eligible c \<longleftrightarrow>
       {CAPABILITY_MATCH, MODEL_ALLOWED, QUALITY_TIER_MATCH, WITHIN_COST_LIMIT}
         \<subseteq> set (rc_reason_codes c) \<and>
       MODEL_UNHEALTHY \<notin> set (rc_reason_codes c) \<and> TOKEN_LIMIT_EXCEEDED \<notin> set (rc_reason_codes c))"
proof
  show "rc_eligible c \<longleftrightarrow>
       h \<noteq> Health_UNAVAILABLE \<and> capability_matched model req \<and>
       md_model_alias model \<in> set (pol_allowed_model_aliases policy) \<and>
       cap_quality_tier (md_capabilities model) = eff_quality_tier req \<and>
       us_input_tokens (rc_estimated_usage c) \<le> cap_max_input_tokens (md_capabilities model) \<and>
       us_output_tokens (rc_estimated_usage c) \<le> cap_max_output_tokens (md_capabilities model) \<and>
       dec_val (ec_amount_usd (rc_estimated_cost c)) \<le> dec_val (eff_maximum_estimated_cost_usd req)"
    unfolding evaluate_candidate_Inr(5)[OF assms]
    by (auto simp: token_limit_exceeded_def within_cost_limit_def)
  show "rc_eligible c \<longleftrightarrow>
       {CAPABILITY_MATCH, MODEL_ALLOWED, QUALITY_TIER_MATCH, WITHIN_COST_LIMIT}
         \<subseteq> set (rc_reason_codes c) \<and>
       MODEL_UNHEALTHY \<notin> set (rc_reason_codes c) \<and> TOKEN_LIMIT_EXCEEDED \<notin> set (rc_reason_codes c)"
    unfolding evaluate_candidate_Inr(5)[OF assms] evaluate_candidate_codes[OF assms]
    by (auto split: if_splits)
qed

section \<open>The support assistant's candidates\<close>

text \<open>
  The shipped catalogue's balanced-text models, evaluated for the sample request under the shipped
  support-assistant policy: the concrete instance of the later theories.
\<close>

definition sample_effective :: effective_requirements where
  "sample_effective = resolve_effective_requirements balanced_requirements support_assistant_policy"

definition sample_candidate :: "str \<Rightarrow> provider_name \<Rightarrow> bool \<Rightarrow> routing_reason_code list \<Rightarrow> int \<Rightarrow> route_candidate" where
  "sample_candidate alias provider eligible codes micro_usd =
     \<lparr>rc_model_alias = alias, rc_provider = provider, rc_eligible = eligible, rc_reason_codes = codes,
      rc_estimated_usage = \<lparr>us_input_tokens = 5, us_output_tokens = 200\<rparr>,
      rc_estimated_cost = \<lparr>ec_amount_usd = Dec micro_usd (- 6)\<rparr>\<rparr>"

definition eligible_codes :: "routing_reason_code list" where
  "eligible_codes = sort_reason_codes [CAPABILITY_MATCH, MODEL_ALLOWED, QUALITY_TIER_MATCH, WITHIN_COST_LIMIT]"

definition not_allowed_codes :: "routing_reason_code list" where
  "not_allowed_codes =
     sort_reason_codes [CAPABILITY_MATCH, MODEL_NOT_ALLOWED, QUALITY_TIER_MATCH, WITHIN_COST_LIMIT]"

abbreviation "sample_primary \<equiv> sample_candidate ''balanced-text-primary'' Provider_BEDROCK True eligible_codes 3015"
abbreviation "sample_secondary \<equiv> sample_candidate ''balanced-text-secondary'' Provider_BEDROCK True eligible_codes 4840"
abbreviation "sample_openai \<equiv> sample_candidate ''balanced-text-openai'' Provider_OPENAI False not_allowed_codes 2012"

lemma sample_effective_simps [simp]:
  "eff_capability sample_effective = ''balanced-text''"
  "eff_quality_tier sample_effective = Tier_STANDARD"
  "eff_maximum_estimated_cost_usd sample_effective = Dec 1 (- 2)"
  "eff_maximum_output_tokens sample_effective = 200"
  "\<not> eff_requires_tool_use sample_effective"
  "\<not> eff_requires_structured_output sample_effective"
  by (simp_all add: sample_effective_def resolve_effective_requirements_def balanced_requirements_def
      support_assistant_policy_def Let_def)

lemma sample_token_estimate:
  "default_token_estimate 4 (ir_messages (sample_request app key)) 200 =
     Inr \<lparr>us_input_tokens = 5, us_output_tokens = 200\<rparr>"
  by (simp add: sample_request_def default_token_estimate_def)

lemma dec_fix_Dec: "\<bar>c\<bar> < 10 ^ 28 \<Longrightarrow> dec_fix (Dec c e) = Dec c e"
  by (simp add: dec_fix_id)

lemma sample_thousandths:
  "dec_div (dec_of_int 5) cents_per_1k = Some (Dec 5 (- 3))"
  "dec_div (dec_of_int 200) cents_per_1k = Some (Dec 2 (- 1))"
  by (simp_all add: dec_div_1000_eq strip_zeros.simps)

lemmas cost_evaluation_defs =
  default_cost_estimate_def side_cost_def sample_thousandths dec_mult_def dec_add_def dec_fix_Dec
  dec_quantize_def dec_rescale_def round_half_even_def fits_iff

lemma sample_cost_primary:
  "default_cost_estimate \<lparr>us_input_tokens = 5, us_output_tokens = 200\<rparr> (md_pricing balanced_text_primary) =
     Inr \<lparr>ec_amount_usd = Dec 3015 (- 6)\<rparr>"
  by (simp add: cost_evaluation_defs balanced_text_primary_def)

lemma sample_cost_secondary:
  "default_cost_estimate \<lparr>us_input_tokens = 5, us_output_tokens = 200\<rparr> (md_pricing balanced_text_secondary) =
     Inr \<lparr>ec_amount_usd = Dec 4840 (- 6)\<rparr>"
  by (simp add: cost_evaluation_defs balanced_text_secondary_def)

lemma sample_cost_openai:
  "default_cost_estimate \<lparr>us_input_tokens = 5, us_output_tokens = 200\<rparr> (md_pricing balanced_text_openai) =
     Inr \<lparr>ec_amount_usd = Dec 2012 (- 6)\<rparr>"
  by (simp add: cost_evaluation_defs balanced_text_openai_def)

lemmas sample_evaluation_defs =
  evaluate_candidate_def support_assistant_policy_def default_token_estimator_def
  default_cost_estimator_def sample_token_estimate sample_cost_primary sample_cost_secondary
  sample_cost_openai Let_def sample_candidate_def
  capability_matched_def token_limit_exceeded_def within_cost_limit_def health_codes_def
  eligible_codes_def not_allowed_codes_def

lemma dec_val_micro_le_cent [simp]: "dec_val (Dec k (- 6)) \<le> dec_val (Dec 1 (- 2)) \<longleftrightarrow> k \<le> 10000"
proof -
  have "dec_val (Dec k (- 6)) \<le> dec_val (Dec 1 (- 2)) \<longleftrightarrow> (of_int k :: rat) \<le> of_int 10000"
    by (simp add: power_int_def power_one_over divide_simps)
  then show ?thesis by (simp only: of_int_le_iff)
qed

lemma sample_evaluation_primary:
  "evaluate_candidate balanced_text_primary sample_effective support_assistant_policy
     (default_token_estimator 4) default_cost_estimator (ir_messages (sample_request app key)) Health_HEALTHY
     = Inr sample_primary"
  by (simp add: sample_evaluation_defs del: dec_val_Dec) (simp add: balanced_text_primary_def)

lemma sample_evaluation_secondary:
  "evaluate_candidate balanced_text_secondary sample_effective support_assistant_policy
     (default_token_estimator 4) default_cost_estimator (ir_messages (sample_request app key)) Health_HEALTHY
     = Inr sample_secondary"
  by (simp add: sample_evaluation_defs del: dec_val_Dec) (simp add: balanced_text_secondary_def)

lemma sample_evaluation_openai:
  "evaluate_candidate balanced_text_openai sample_effective support_assistant_policy
     (default_token_estimator 4) default_cost_estimator (ir_messages (sample_request app key)) Health_HEALTHY
     = Inr sample_openai"
  by (simp add: sample_evaluation_defs del: dec_val_Dec) (simp add: balanced_text_openai_def)

lemmas sample_evaluations =
  sample_evaluation_primary sample_evaluation_secondary sample_evaluation_openai

theorem candidate_eligible_iff_explained_witness:
  "rc_eligible sample_primary \<and>
   dec_val (ec_amount_usd (rc_estimated_cost sample_primary)) \<le> dec_val (Dec 1 (- 2)) \<and>
   \<not> rc_eligible sample_openai \<and>
   ''balanced-text-openai'' \<notin> set (pol_allowed_model_aliases support_assistant_policy)"
proof -
  have "rc_eligible sample_primary"
    by (simp add: sample_candidate_def)
  then have "dec_val (ec_amount_usd (rc_estimated_cost sample_primary)) \<le> dec_val (Dec 1 (- 2))"
    using candidate_eligible_iff_explained[OF sample_evaluations(1)] by simp
  moreover have "\<not> rc_eligible sample_openai"
    by (simp add: sample_candidate_def)
  moreover have "''balanced-text-openai'' \<notin> set (pol_allowed_model_aliases support_assistant_policy)"
    by (simp add: support_assistant_policy_def)
  ultimately show ?thesis using \<open>rc_eligible sample_primary\<close> by blast
qed

end
