(* ===== verification/Sha256.thy ===== *)
theory Sha256
  imports Prelude "HOL-Library.Word"
begin

unbundle bit_operations_syntax

text \<open>
  \<open>hashlib.sha256(text.encode("utf-8")).hexdigest()\<close>, which \<open>src/domain/experiment.py\<close> and
  \<open>src/domain/idempotency.py\<close> use: UTF-8 on the code points below 256, SHA-256 of FIPS 180-4 on
  32-bit words, and lower-case hexadecimal.  The lemmas give the shape of the digest, which is all
  the callers' correctness rests on: 64 hexadecimal digits, so that \<open>int(digest[:8], 16)\<close> is a
  number below \<open>2 ^ 32\<close>.
\<close>

section \<open>UTF-8 and hexadecimal\<close>

text \<open>Code points below 128 take one byte, those from 128 to 255 two.\<close>

definition utf8_char :: "char \<Rightarrow> int list" where
  "utf8_char c =
     (let n = of_char c in if n < 128 then [n] else [192 + n div 64, 128 + n mod 64])"

definition utf8_encode :: "str \<Rightarrow> int list" where
  "utf8_encode s = concat (map utf8_char s)"

definition hex_digits :: str where
  "hex_digits = ''0123456789abcdef''"

definition hex_byte :: "int \<Rightarrow> str" where
  "hex_byte b = [hex_digits ! nat (b div 16 mod 16), hex_digits ! nat (b mod 16)]"

text \<open>\<open>int(text, 16)\<close> on a string of lower-case hexadecimal digits.\<close>

definition hex_value :: "char \<Rightarrow> int" where
  "hex_value c =
     (let n = of_char c in if 48 \<le> n \<and> n \<le> 57 then n - 48 else n - 87)"

definition int_base16 :: "str \<Rightarrow> int" where
  "int_base16 s = foldl (\<lambda>acc c. 16 * acc + hex_value c) 0 s"

section \<open>SHA-256\<close>

text \<open>The round constants and the initial hash value, in decimal.\<close>

definition sha256_k :: "32 word list" where
  "sha256_k =
     [1116352408, 1899447441, 3049323471, 3921009573, 961987163, 1508970993, 2453635748, 2870763221,
      3624381080, 310598401, 607225278, 1426881987, 1925078388, 2162078206, 2614888103, 3248222580,
      3835390401, 4022224774, 264347078, 604807628, 770255983, 1249150122, 1555081692, 1996064986,
      2554220882, 2821834349, 2952996808, 3210313671, 3336571891, 3584528711, 113926993, 338241895,
      666307205, 773529912, 1294757372, 1396182291, 1695183700, 1986661051, 2177026350, 2456956037,
      2730485921, 2820302411, 3259730800, 3345764771, 3516065817, 3600352804, 4094571909, 275423344,
      430227734, 506948616, 659060556, 883997877, 958139571, 1322822218, 1537002063, 1747873779,
      1955562222, 2024104815, 2227730452, 2361852424, 2428436474, 2756734187, 3204031479, 3329325298]"

definition sha256_h :: "32 word \<times> 32 word \<times> 32 word \<times> 32 word \<times> 32 word \<times> 32 word \<times> 32 word \<times> 32 word" where
  "sha256_h =
     (1779033703, 3144134277, 1013904242, 2773480762,
      1359893119, 2600822924, 528734635, 1541459225)"

text \<open>Big-endian bytes of a number, most significant first.\<close>

fun be_bytes :: "nat \<Rightarrow> int \<Rightarrow> int list" where
  "be_bytes 0 n = []"
| "be_bytes (Suc k) n = n div 256 ^ k mod 256 # be_bytes k n"

definition sha256_pad :: "int list \<Rightarrow> int list" where
  "sha256_pad bs =
     bs @ [128] @ replicate ((55 + 64 - length bs mod 64) mod 64) 0 @ be_bytes 8 (8 * int (length bs))"

fun be_words :: "int list \<Rightarrow> 32 word list" where
  "be_words (a # b # c # d # bs) =
     of_int (a * 2 ^ 24 + b * 2 ^ 16 + c * 2 ^ 8 + d) # be_words bs"
| "be_words _ = []"

definition small_sigma0 :: "32 word \<Rightarrow> 32 word" where
  "small_sigma0 x = word_rotr 7 x XOR word_rotr 18 x XOR drop_bit 3 x"

definition small_sigma1 :: "32 word \<Rightarrow> 32 word" where
  "small_sigma1 x = word_rotr 17 x XOR word_rotr 19 x XOR drop_bit 10 x"

definition big_sigma0 :: "32 word \<Rightarrow> 32 word" where
  "big_sigma0 x = word_rotr 2 x XOR word_rotr 13 x XOR word_rotr 22 x"

definition big_sigma1 :: "32 word \<Rightarrow> 32 word" where
  "big_sigma1 x = word_rotr 6 x XOR word_rotr 11 x XOR word_rotr 25 x"

text \<open>The message schedule: \<open>k\<close> further words appended to the block's sixteen.\<close>

fun sha256_schedule :: "nat \<Rightarrow> 32 word list \<Rightarrow> 32 word list" where
  "sha256_schedule 0 w = w"
| "sha256_schedule (Suc k) w =
     (let n = length w
      in sha256_schedule k
           (w @ [small_sigma1 (w ! (n - 2)) + w ! (n - 7) + small_sigma0 (w ! (n - 15)) + w ! (n - 16)]))"

type_synonym sha256_state =
  "32 word \<times> 32 word \<times> 32 word \<times> 32 word \<times> 32 word \<times> 32 word \<times> 32 word \<times> 32 word"

definition sha256_round :: "sha256_state \<Rightarrow> 32 word \<times> 32 word \<Rightarrow> sha256_state" where
  "sha256_round st kw =
     (case st of (a, b, c, d, e, f, g, h) \<Rightarrow>
        let t1 = h + big_sigma1 e + ((e AND f) XOR (NOT e AND g)) + fst kw + snd kw;
            t2 = big_sigma0 a + ((a AND b) XOR (a AND c) XOR (b AND c))
        in (t1 + t2, a, b, c, d + t1, e, f, g))"

definition sha256_block :: "sha256_state \<Rightarrow> 32 word list \<Rightarrow> sha256_state" where
  "sha256_block st block =
     (case st of (a, b, c, d, e, f, g, h) \<Rightarrow>
      case foldl sha256_round st (zip sha256_k (sha256_schedule 48 block)) of
        (a', b', c', d', e', f', g', h') \<Rightarrow>
          (a + a', b + b', c + c', d + d', e + e', f + f', g + g', h + h'))"

fun sha256_blocks :: "nat \<Rightarrow> 32 word list \<Rightarrow> sha256_state \<Rightarrow> sha256_state" where
  "sha256_blocks 0 ws st = st"
| "sha256_blocks (Suc n) ws st = sha256_blocks n (drop 16 ws) (sha256_block st (take 16 ws))"

definition sha256_words :: "int list \<Rightarrow> 32 word list" where
  "sha256_words bs =
     (let ws = be_words (sha256_pad bs)
      in case sha256_blocks (length ws div 16) ws sha256_h of
           (a, b, c, d, e, f, g, h) \<Rightarrow> [a, b, c, d, e, f, g, h])"

definition sha256_hexdigest :: "str \<Rightarrow> str" where
  "sha256_hexdigest s =
     concat (map (\<lambda>w. concat (map hex_byte (be_bytes 4 (uint w)))) (sha256_words (utf8_encode s)))"

section \<open>The shape of a digest\<close>

lemma length_be_bytes [simp]: "length (be_bytes k n) = k"
  by (induction k) auto

lemma sha256_words_length [simp]: "length (sha256_words bs) = 8"
  by (simp add: sha256_words_def Let_def split: prod.split)

definition is_hex :: "char \<Rightarrow> bool" where
  "is_hex c \<longleftrightarrow> c \<in> set hex_digits"

lemma hex_byte_shape: "length (hex_byte b) = 2" "list_all is_hex (hex_byte b)"
proof -
  have "nat (n mod 16) < length hex_digits" for n :: int
    by (simp add: hex_digits_def nat_less_iff)
  then show "list_all is_hex (hex_byte b)"
    unfolding hex_byte_def is_hex_def by (simp del: nth_Cons_numeral)
qed (simp add: hex_byte_def)

lemma hex_bytes_length: "length (concat (map hex_byte bs)) = 2 * length bs"
  by (induction bs) (auto simp: hex_byte_shape)

lemma hex_bytes_hex: "list_all is_hex (concat (map hex_byte bs))"
  by (induction bs) (auto simp: hex_byte_shape)

lemma sha256_hexdigest_length: "length (sha256_hexdigest s) = 64"
proof -
  have "length (concat (map (\<lambda>w. concat (map hex_byte (be_bytes 4 (uint w)))) ws)) = 8 * length ws"
    for ws :: "32 word list"
    by (induction ws) (auto simp: hex_bytes_length)
  then show ?thesis by (simp add: sha256_hexdigest_def)
qed

lemma sha256_hexdigest_hex: "list_all is_hex (sha256_hexdigest s)"
proof -
  have "list_all is_hex (concat (map (\<lambda>w. concat (map hex_byte (be_bytes 4 (uint w)))) ws))"
    for ws :: "32 word list"
    by (induction ws) (auto simp: hex_bytes_hex)
  then show ?thesis by (simp add: sha256_hexdigest_def)
qed

lemma hex_value_bounds: "is_hex c \<Longrightarrow> 0 \<le> hex_value c \<and> hex_value c < 16"
  by (auto simp: is_hex_def hex_digits_def hex_value_def Let_def)

lemma int_base16_bounds:
  assumes "list_all is_hex s"
  shows "0 \<le> int_base16 s \<and> int_base16 s < 16 ^ length s"
proof -
  have "0 \<le> foldl (\<lambda>acc c. 16 * acc + hex_value c) a s \<and>
      foldl (\<lambda>acc c. 16 * acc + hex_value c) a s < (a + 1) * 16 ^ length s"
    if "0 \<le> a" "list_all is_hex s" for a s
    using that
  proof (induction s arbitrary: a)
    case Nil
    then show ?case by simp
  next
    case (Cons c s)
    let ?b = "16 * a + hex_value c"
    have h: "0 \<le> hex_value c" "hex_value c < 16" using hex_value_bounds[of c] Cons.prems by auto
    have "0 \<le> foldl (\<lambda>acc c. 16 * acc + hex_value c) ?b s \<and>
        foldl (\<lambda>acc c. 16 * acc + hex_value c) ?b s < (?b + 1) * 16 ^ length s"
      using Cons.prems h by (intro Cons.IH) auto
    moreover have "(?b + 1) * 16 ^ length s \<le> (a + 1) * 16 * 16 ^ length s"
      using h by (intro mult_right_mono) auto
    ultimately have "0 \<le> foldl (\<lambda>acc c. 16 * acc + hex_value c) ?b s"
      "foldl (\<lambda>acc c. 16 * acc + hex_value c) ?b s < (a + 1) * 16 * 16 ^ length s"
      by (blast, blast intro: less_le_trans)
    then show ?case by (simp only: foldl.simps list.size power_Suc mult.assoc add_0_right add_Suc_right)
  qed
  from this[of 0 s] show ?thesis using assms by (simp add: int_base16_def)
qed

lemma digest_prefix_bounds:
  "0 \<le> int_base16 (take 8 (sha256_hexdigest s)) \<and> int_base16 (take 8 (sha256_hexdigest s)) < 2 ^ 32"
proof -
  have "list_all is_hex (take 8 (sha256_hexdigest s))"
    using sha256_hexdigest_hex[of s] by (auto simp: list_all_iff dest: in_set_takeD)
  moreover have "length (take 8 (sha256_hexdigest s)) = 8" by (simp add: sha256_hexdigest_length)
  ultimately show ?thesis using int_base16_bounds[of "take 8 (sha256_hexdigest s)"] by simp
qed

end
