(* ===== verification/Py_Float.thy ===== *)
theory Py_Float
  imports Complex_Main "HOL-Library.Log_Nat"
begin

text \<open>
  Python's \<open>float\<close> (IEEE 754 binary64) arithmetic on the range the code uses: the exact rational
  result rounded to 53 significant bits, ties to even.  \<open>float_round\<close> is that rounding with an
  unbounded exponent; the values that occur (shares of a weight below \<open>2 ^ 20\<close>, elapsed seconds
  and milliseconds) are far from the overflow and subnormal ranges, where the two differ.
\<close>

definition round_even :: "rat \<Rightarrow> int" where
  "round_even x =
     (let q = \<lfloor>x\<rfloor>; r = x - of_int q
      in if r < 1 / 2 then q else if 1 / 2 < r then q + 1 else if even q then q else q + 1)"

text \<open>The exponent \<open>k\<close> with \<open>2 ^ k \<le> x < 2 ^ (k + 1)\<close>, from the bit lengths of the fraction.\<close>

definition log2_floor :: "rat \<Rightarrow> int" where
  "log2_floor x =
     (case quotient_of x of (n, d) \<Rightarrow>
        let k = int (floorlog 2 (nat n)) - int (floorlog 2 (nat d))
        in if 2 powi k \<le> x then k else k - 1)"

definition float_round :: "rat \<Rightarrow> rat" where
  "float_round x =
     (if x = 0 then 0
      else let ulp = 2 powi (log2_floor \<bar>x\<bar> - 52) in of_int (round_even (x / ulp)) * ulp)"

text \<open>\<open>int(x)\<close> of a float: truncation towards zero.\<close>

definition int_trunc :: "rat \<Rightarrow> int" where
  "int_trunc x = (if x < 0 then - \<lfloor>- x\<rfloor> else \<lfloor>x\<rfloor>)"

lemma round_even_error: "\<bar>of_int (round_even x) - x\<bar> \<le> 1 / 2"
proof -
  define r where "r = x - of_int \<lfloor>x\<rfloor>"
  have r: "0 \<le> r" "r < 1" unfolding r_def by linarith+
  have "\<bar>- r\<bar> \<le> 1 / 2" if "\<not> 1 / 2 < r" using that r by linarith
  moreover have "\<bar>1 - r\<bar> \<le> 1 / 2" if "\<not> r < 1 / 2" using that r by linarith
  moreover have "of_int \<lfloor>x\<rfloor> - x = - r" "of_int (\<lfloor>x\<rfloor> + 1) - x = 1 - r" by (simp_all add: r_def)
  ultimately show ?thesis by (simp add: round_even_def Let_def r_def[symmetric] del: of_int_add)
qed

lemma round_even_of_int [simp]: "round_even (of_int n) = n"
  by (simp add: round_even_def)

lemma log2_floor_bounds:
  assumes "0 < x"
  shows "2 powi (log2_floor x) \<le> x \<and> x < 2 powi (log2_floor x + 1)"
proof -
  obtain n d where q: "quotient_of x = (n, d)" by (cases "quotient_of x")
  then have d: "0 < d" and x: "x = of_int n / of_int d"
    using quotient_of_denom_pos quotient_of_div by auto
  with assms have n: "0 < n" by (simp add: zero_less_divide_iff)
  define a b where "a = floorlog 2 (nat n)" and "b = floorlog 2 (nat d)"
  have bounds: "1 \<le> floorlog 2 (nat m) \<and> (2::rat) ^ (floorlog 2 (nat m) - 1) \<le> of_int m \<and>
      of_int m < (2::rat) ^ floorlog 2 (nat m)" if "0 < m" for m :: int
  proof -
    have f: "2 ^ (floorlog 2 (nat m) - 1) \<le> nat m \<and> nat m < 2 ^ floorlog 2 (nat m)"
      using floorlog_bounds[of "nat m" 2] that by simp
    then have "of_nat (2 ^ (floorlog 2 (nat m) - 1)) \<le> (of_nat (nat m) :: rat)"
      "(of_nat (nat m) :: rat) < of_nat (2 ^ floorlog 2 (nat m))"
      by (simp_all only: of_nat_le_iff of_nat_less_iff)
    moreover have "floorlog 2 (nat m) \<noteq> 0" using f that by (intro notI) simp
    ultimately show ?thesis using that by simp
  qed
  have na: "1 \<le> a" "(2::rat) ^ (a - 1) \<le> of_int n" "of_int n < (2::rat) ^ a"
    using bounds[OF n] by (simp_all add: a_def)
  have db: "1 \<le> b" "(2::rat) ^ (b - 1) \<le> of_int d" "of_int d < (2::rat) ^ b"
    using bounds[OF d] by (simp_all add: b_def)
  have pw: "(2::rat) powi (int i - int j) = 2 ^ i / 2 ^ j" for i j
    by (simp add: power_int_diff)
  have upper: "x < 2 powi (int a - int b + 1)"
  proof -
    have "x \<le> of_int n / 2 ^ (b - 1)"
      unfolding x using db n d by (intro divide_left_mono) auto
    also have "\<dots> < 2 ^ a / 2 ^ (b - 1)" using na by (intro divide_strict_right_mono) auto
    also have "\<dots> = 2 powi (int a - int (b - 1))" by (simp add: pw)
    also have "int a - int (b - 1) = int a - int b + 1" using db(1) by simp
    finally show ?thesis .
  qed
  have lower: "2 powi (int a - int b - 1) < x"
  proof -
    have "int a - int b - 1 = int (a - 1) - int b" using na(1) by simp
    then have "(2::rat) powi (int a - int b - 1) = 2 powi (int (a - 1) - int b)" by (simp only:)
    also have "\<dots> = 2 ^ (a - 1) / 2 ^ b" by (simp add: pw)
    also have "\<dots> \<le> of_int n / 2 ^ b" using na by (intro divide_right_mono) auto
    also have "\<dots> < of_int n / of_int d" using db n d by (intro divide_strict_left_mono) auto
    finally show ?thesis by (simp add: x)
  qed
  show ?thesis
    using upper lower by (simp add: log2_floor_def q Let_def a_def[symmetric] b_def[symmetric])
qed

lemma float_round_0 [simp]: "float_round 0 = 0"
  by (simp add: float_round_def)

lemma float_round_error: "\<bar>float_round x - x\<bar> \<le> \<bar>x\<bar> / 2 ^ 53"
proof (cases "x = 0")
  case False
  define k where "k = log2_floor \<bar>x\<bar>"
  define u :: rat where "u = 2 powi (k - 52)"
  have u: "0 < u" by (simp add: u_def)
  have "2 powi k \<le> \<bar>x\<bar>" using log2_floor_bounds[of "\<bar>x\<bar>"] False by (simp add: k_def)
  then have le: "u \<le> \<bar>x\<bar> / 2 ^ 52" by (simp add: u_def power_int_diff)
  have "float_round x - x = (of_int (round_even (x / u)) - x / u) * u"
    using False u by (simp add: float_round_def k_def[symmetric] u_def[symmetric] left_diff_distrib)
  then have "\<bar>float_round x - x\<bar> = \<bar>of_int (round_even (x / u)) - x / u\<bar> * u"
    using u by (simp add: abs_mult)
  also have "\<dots> \<le> 1 / 2 * u" using u by (intro mult_right_mono round_even_error) auto
  finally show ?thesis using le by simp
qed simp

lemma float_round_of_int:
  assumes "\<bar>n\<bar> < 2 ^ 53"
  shows "float_round (of_int n) = of_int n"
proof (cases "n = 0")
  case False
  define k where "k = log2_floor \<bar>of_int n\<bar>"
  have b: "2 powi k \<le> \<bar>of_int n :: rat\<bar>" using log2_floor_bounds[of "\<bar>of_int n\<bar>"] False by (simp add: k_def)
  have "\<bar>of_int n :: rat\<bar> = of_int \<bar>n\<bar>" by simp
  also have "\<dots> < of_int (2 ^ 53)" using assms by (simp only: of_int_less_iff)
  finally have "(2::rat) powi k < 2 powi 53" using b by simp
  then have k: "k < 53"
    using power_int_increasing[of 53 k "2::rat"] by (intro not_le_imp_less notI) auto
  have pw: "(2::rat) powi (52 - k) = 2 ^ nat (52 - k)" using k by (simp add: power_int_def)
  have "of_int n / (2::rat) powi (k - 52) = of_int n * 2 powi (52 - k)"
    by (simp add: power_int_diff)
  also have "\<dots> = of_int (n * 2 ^ nat (52 - k))" by (simp add: pw)
  finally have "of_int n / (2::rat) powi (k - 52) = of_int (n * 2 ^ nat (52 - k))" .
  then have "round_even (of_int n / (2::rat) powi (k - 52)) = n * 2 ^ nat (52 - k)"
    by (simp only: round_even_of_int)
  moreover have "(2::rat) ^ nat (52 - k) * 2 powi (k - 52) = 1"
    unfolding pw[symmetric] by (simp add: power_int_add[symmetric])
  ultimately show ?thesis
    using False by (simp add: float_round_def k_def[symmetric] mult.assoc)
qed simp

lemma float_round_nonneg: "0 \<le> x \<Longrightarrow> 0 \<le> float_round x"
proof -
  assume "0 \<le> x"
  moreover have "\<bar>x\<bar> / 2 ^ 53 \<le> \<bar>x\<bar>" by simp
  ultimately show ?thesis using float_round_error[of x] by (simp add: abs_if split: if_splits)
qed

lemma int_trunc_nonneg: "0 \<le> x \<Longrightarrow> 0 \<le> int_trunc x"
  by (simp add: int_trunc_def)

section \<open>Order\<close>

lemma round_even_mono:
  assumes "x \<le> y"
  shows "round_even x \<le> round_even y"
proof (cases "\<lfloor>x\<rfloor> = \<lfloor>y\<rfloor>")
  case True
  then show ?thesis using assms by (auto simp: round_even_def Let_def)
next
  case False
  then have "\<lfloor>x\<rfloor> + 1 \<le> \<lfloor>y\<rfloor>" using floor_mono[OF assms] by simp
  moreover have "round_even x \<le> \<lfloor>x\<rfloor> + 1" "\<lfloor>y\<rfloor> \<le> round_even y" by (auto simp: round_even_def Let_def)
  ultimately show ?thesis by simp
qed

lemma log2_floor_unique:
  assumes "2 powi k \<le> x" and "x < 2 powi (k + 1)"
  shows "log2_floor x = k"
proof -
  have x: "0 < x" by (rule less_le_trans[OF _ assms(1)]) simp
  note b = log2_floor_bounds[OF x]
  have "(2::rat) powi k < 2 powi (log2_floor x + 1)" "(2::rat) powi (log2_floor x) < 2 powi (k + 1)"
    using assms b by linarith+
  moreover have "i < j" if "(2::rat) powi i < 2 powi j" for i j
  proof (rule ccontr)
    assume "\<not> i < j"
    then have "(2::rat) powi j \<le> 2 powi i" by (intro power_int_increasing) simp_all
    then show False using that by simp
  qed
  ultimately have "k < log2_floor x + 1" "log2_floor x < k + 1" by blast+
  then show ?thesis by simp
qed

lemma float_round_pos: "0 < x \<Longrightarrow>
  float_round x = of_int (round_even (x / 2 powi (log2_floor x - 52))) * 2 powi (log2_floor x - 52)"
  by (simp add: float_round_def Let_def)

lemma float_round_binade:
  assumes "0 < x"
  shows "2 powi (log2_floor x) \<le> float_round x \<and> float_round x \<le> 2 powi (log2_floor x + 1)"
proof -
  let ?k = "log2_floor x" and ?u = "2 powi (log2_floor x - 52) :: rat"
  have u: "0 < ?u" by simp
  have e: "(2::rat) powi ?k = of_int (2 ^ 52) * ?u" "(2::rat) powi (?k + 1) = of_int (2 ^ 53) * ?u"
    by (simp_all add: power_int_diff power_int_add)
  have "of_int (2 ^ 52) \<le> x / ?u" "x / ?u \<le> of_int (2 ^ 53)"
    using log2_floor_bounds[OF assms] u unfolding e by (simp_all add: pos_le_divide_eq pos_divide_le_eq)
  then have "2 ^ 52 \<le> round_even (x / ?u)" "round_even (x / ?u) \<le> 2 ^ 53"
    using round_even_mono[of "of_int (2 ^ 52)" "x / ?u"] round_even_mono[of "x / ?u" "of_int (2 ^ 53)"]
    by (simp_all only: round_even_of_int)
  then show ?thesis
    unfolding e float_round_pos[OF assms] using u
    by (simp_all only: mult_le_cancel_right_pos of_int_le_iff simp_thms)
qed

lemma float_round_mono:
  assumes "0 \<le> x" and "x \<le> y"
  shows "float_round x \<le> float_round y"
proof (cases "x = 0")
  case True
  then show ?thesis using assms float_round_nonneg[of y] by simp
next
  case False
  then have x: "0 < x" and y: "0 < y" using assms by simp_all
  have "log2_floor x \<le> log2_floor y"
  proof (rule ccontr)
    assume "\<not> log2_floor x \<le> log2_floor y"
    then have "(2::rat) powi (log2_floor y + 1) \<le> 2 powi (log2_floor x)" by (intro power_int_increasing) simp_all
    then show False using log2_floor_bounds[OF x] log2_floor_bounds[OF y] assms(2) by linarith
  qed
  then consider "log2_floor x = log2_floor y" | "log2_floor x + 1 \<le> log2_floor y" by linarith
  then show ?thesis
  proof cases
    case 1
    have "round_even (x / 2 powi (log2_floor y - 52)) \<le> round_even (y / 2 powi (log2_floor y - 52))"
      using assms by (intro round_even_mono divide_right_mono) simp_all
    then show ?thesis unfolding float_round_pos[OF x] float_round_pos[OF y] 1 by simp
  next
    case 2
    then have "(2::rat) powi (log2_floor x + 1) \<le> 2 powi (log2_floor y)" by (intro power_int_increasing) simp_all
    then show ?thesis using float_round_binade[OF x] float_round_binade[OF y] by linarith
  qed
qed

lemma float_round_scale:
  assumes "0 \<le> x"
  shows "float_round (x * 2 ^ n) = float_round x * 2 ^ n"
proof (cases "x = 0")
  case False
  then have x: "0 < x" using assms by simp
  have "log2_floor (x * 2 ^ n) = log2_floor x + int n"
    using log2_floor_bounds[OF x] by (intro log2_floor_unique) (simp_all add: power_int_add add.commute add.left_commute)
  moreover have "(2::rat) powi (log2_floor x + int n - 52) = 2 powi (log2_floor x - 52) * 2 ^ n"
    by (simp add: power_int_diff power_int_add)
  ultimately show ?thesis using x by (simp add: float_round_pos)
qed simp

end
