(* ===== verification/Experiment.thy ===== *)
theory Experiment
  imports Shipped_Config Sha256 Py_Float
begin

text \<open>
  \<open>src/domain/experiment.py\<close>: assignment of a subject to an experiment arm by hashing.  The
  theorems: the assignment is total and always an arm of the experiment, and over the space of
  hash values every arm gets its weight's share to within one hash value, in spite of the two
  floating-point roundings.
\<close>

definition hash_space :: int where
  "hash_space = 0xFFFFFFFF"

definition build_experiment_subject_key :: "experiment_policy \<Rightarrow> str \<Rightarrow> str option \<Rightarrow> str" where
  "build_experiment_subject_key x application_id conversation_id =
     (let parts = [exp_experiment_id x];
          source = exp_subject_key_source x;
          parts =
            (if source \<in> {Subject_APPLICATION_ID, Subject_APPLICATION_AND_CONVERSATION}
             then parts @ [application_id] else parts);
          parts =
            (case conversation_id of
               Some c \<Rightarrow>
                 if source \<in> {Subject_CONVERSATION_ID, Subject_APPLICATION_AND_CONVERSATION}
                 then parts @ [c] else parts
             | None \<Rightarrow> parts)
      in str_join ''|'' parts)"

text \<open>
  The \<open>for\<close> loop over the arms: the first whose cumulative weight exceeds the threshold.
\<close>

fun cohort_loop :: "rat \<Rightarrow> int \<Rightarrow> experiment_arm list \<Rightarrow> str option" where
  "cohort_loop threshold cumulative [] = None"
| "cohort_loop threshold cumulative (arm # arms) =
     (let cumulative = cumulative + arm_weight arm
      in if threshold < of_int cumulative then Some (arm_model_alias arm)
         else cohort_loop threshold cumulative arms)"

definition total_weight :: "experiment_policy \<Rightarrow> int" where
  "total_weight x = sum_list (map arm_weight (exp_arms x))"

text \<open>
  The rest of \<open>assign_experiment_cohort\<close>, from the integer read off the digest.  Python divides
  integers with one rounding; \<open>bucket * total_weight\<close> converts the weight to \<open>float\<close> and rounds
  the product; comparing a \<open>float\<close> with an \<open>int\<close> is exact.
\<close>

definition cohort_of_hash :: "int \<Rightarrow> experiment_policy \<Rightarrow> str result" where
  "cohort_of_hash h x =
     (let bucket = float_round (of_int h / of_int hash_space);
          threshold = float_round (bucket * float_round (of_int (total_weight x)))
      in case cohort_loop threshold 0 (exp_arms x) of
           Some a \<Rightarrow> Inr a
         | None \<Rightarrow> if exp_arms x = [] then Inl Index_Error else Inr (arm_model_alias (last (exp_arms x))))"

definition assign_experiment_cohort :: "str \<Rightarrow> experiment_policy \<Rightarrow> str result" where
  "assign_experiment_cohort subject_key x =
     cohort_of_hash (int_base16 (take 8 (sha256_hexdigest subject_key))) x"

section \<open>The loop\<close>

lemma cohort_loop_pick:
  assumes "\<forall>a\<in>set pre. 0 < arm_weight a"
    and "of_int (c + sum_list (map arm_weight pre)) \<le> t"
    and "t < of_int (c + sum_list (map arm_weight pre) + arm_weight arm)"
  shows "cohort_loop t c (pre @ arm # post) = Some (arm_model_alias arm)"
  using assms
proof (induction pre arbitrary: c)
  case Nil
  then show ?case by simp
next
  case (Cons a pre)
  have "0 \<le> sum_list (map arm_weight pre)"
    using Cons.prems(1) by (intro sum_list_nonneg) auto
  then have "of_int (c + arm_weight a) \<le> (of_int (c + sum_list (map arm_weight (a # pre))) :: rat)"
    by (simp only: of_int_le_iff) simp
  then have "\<not> t < of_int (c + arm_weight a)" using Cons.prems(2) by linarith
  moreover have "cohort_loop t (c + arm_weight a) (pre @ arm # post) = Some (arm_model_alias arm)"
    using Cons.prems by (intro Cons.IH) (simp_all add: add.assoc)
  ultimately show ?case by (simp add: Let_def)
qed

lemma cohort_loop_SomeD:
  assumes "cohort_loop t c arms = Some a" and "of_int c \<le> t"
  shows "\<exists>pre arm post. arms = pre @ arm # post \<and> a = arm_model_alias arm \<and>
     of_int (c + sum_list (map arm_weight pre)) \<le> t \<and>
     t < of_int (c + sum_list (map arm_weight pre) + arm_weight arm)"
  using assms
proof (induction arms arbitrary: c)
  case (Cons b arms)
  show ?case
  proof (cases "t < of_int (c + arm_weight b)")
    case True
    then have "b # arms = [] @ b # arms \<and> a = arm_model_alias b \<and>
        of_int (c + sum_list (map arm_weight [])) \<le> t \<and>
        t < of_int (c + sum_list (map arm_weight []) + arm_weight b)"
      using Cons.prems by simp
    then show ?thesis by blast
  next
    case False
    then obtain pre arm post where "arms = pre @ arm # post" "a = arm_model_alias arm"
      "of_int (c + arm_weight b + sum_list (map arm_weight pre)) \<le> t"
      "t < of_int (c + arm_weight b + sum_list (map arm_weight pre) + arm_weight arm)"
      using Cons.IH[of "c + arm_weight b"] Cons.prems by (auto simp: Let_def)
    then have "b # arms = (b # pre) @ arm # post \<and> a = arm_model_alias arm \<and>
        of_int (c + sum_list (map arm_weight (b # pre))) \<le> t \<and>
        t < of_int (c + sum_list (map arm_weight (b # pre)) + arm_weight arm)"
      by (simp add: add.assoc)
    then show ?thesis by blast
  qed
qed simp

lemma cohort_loop_NoneD:
  "cohort_loop t c arms = None \<Longrightarrow> of_int c \<le> t \<Longrightarrow> of_int (c + sum_list (map arm_weight arms)) \<le> t"
proof (induction arms arbitrary: c)
  case (Cons a arms)
  then show ?case
    using Cons.IH[of "c + arm_weight a"] by (simp add: Let_def add.assoc split: if_splits)
qed simp

lemma cohort_of_hash_arm:
  assumes "exp_arms x \<noteq> []"
  shows "\<exists>arm\<in>set (exp_arms x). cohort_of_hash h x = Inr (arm_model_alias arm)"
proof -
  have "\<exists>arm\<in>set arms. a = arm_model_alias arm" if "cohort_loop t c arms = Some a" for t c arms a
    using that by (induction arms arbitrary: c) (auto simp: Let_def split: if_splits)
  then show ?thesis
    using assms by (auto simp: cohort_of_hash_def Let_def split: option.split)
qed

section \<open>The roundings\<close>

text \<open>The exact threshold, and how far the computed one may be from it.\<close>

definition exact_threshold :: "int \<Rightarrow> int \<Rightarrow> rat" where
  "exact_threshold h w = of_int (h * w) / of_int hash_space"

definition threshold_of :: "int \<Rightarrow> int \<Rightarrow> rat" where
  "threshold_of h w =
     float_round (float_round (of_int h / of_int hash_space) * float_round (of_int w))"

lemma threshold_error:
  assumes "0 \<le> h" "h \<le> hash_space" "0 < w" "w \<le> 2 ^ 19"
  shows "\<bar>threshold_of h w - exact_threshold h w\<bar> < 1 / of_int hash_space"
proof -
  define y :: rat where "y = of_int h / of_int hash_space"
  define b where "b = float_round y"
  define W :: rat where "W = of_int w"
  have y: "0 \<le> y" "y \<le> 1" using assms by (simp_all add: y_def hash_space_def field_simps)
  have "W \<le> of_int (2 ^ 19)" unfolding W_def using assms(4) by (simp only: of_int_le_iff)
  then have W: "0 < W" "W \<le> 524288" using assms(3) by (simp_all add: W_def)
  have fW: "float_round W = W" unfolding W_def using assms by (intro float_round_of_int) auto
  have e1: "\<bar>b - y\<bar> \<le> y / 2 ^ 53" using float_round_error[of y] y by (simp add: b_def)
  have b: "0 \<le> b" "b \<le> 2" using e1 y float_round_nonneg[OF y(1)] by (simp_all add: b_def abs_if split: if_splits)
  have "\<bar>float_round (b * W) - b * W\<bar> \<le> \<bar>b * W\<bar> / 2 ^ 53" by (rule float_round_error)
  also have "\<bar>b * W\<bar> = b * W" using b W by simp
  also have "b * W / 2 ^ 53 \<le> 2 * 524288 / 2 ^ 53"
    using b W by (intro divide_right_mono mult_mono) auto
  finally have e2: "\<bar>float_round (b * W) - b * W\<bar> \<le> 1048576 / 2 ^ 53" by simp
  have "\<bar>b * W - y * W\<bar> = \<bar>b - y\<bar> * W" using W by (simp add: abs_mult left_diff_distrib[symmetric])
  also have "\<dots> \<le> (1 / 2 ^ 53) * 524288" using e1 y W by (intro mult_mono) (auto simp: field_simps)
  finally have e3: "\<bar>b * W - y * W\<bar> \<le> 524288 / 2 ^ 53" by simp
  have "threshold_of h w = float_round (b * W)"
    by (simp add: threshold_of_def y_def[symmetric] b_def[symmetric] W_def[symmetric] fW)
  moreover have "exact_threshold h w = y * W" by (simp add: exact_threshold_def y_def W_def)
  ultimately have "\<bar>threshold_of h w - exact_threshold h w\<bar> \<le> 1048576 / 2 ^ 53 + 524288 / 2 ^ 53"
    using e2 e3 by linarith
  then show ?thesis by (simp add: hash_space_def)
qed

lemma exact_threshold_gap:
  assumes "exact_threshold h w < of_int c"
  shows "exact_threshold h w \<le> of_int c - 1 / of_int hash_space"
proof -
  have "of_int (h * w) < (of_int (c * hash_space) :: rat)"
    using assms by (simp add: exact_threshold_def hash_space_def field_simps)
  then have "h * w + 1 \<le> c * hash_space" by (simp only: of_int_less_iff)
  then have "of_int (h * w + 1) \<le> (of_int (c * hash_space) :: rat)" by (simp only: of_int_le_iff)
  then show ?thesis by (simp add: exact_threshold_def hash_space_def field_simps)
qed

lemma exact_threshold_gap':
  assumes "of_int c < exact_threshold h w"
  shows "of_int c + 1 / of_int hash_space \<le> exact_threshold h w"
proof -
  have "(of_int (c * hash_space) :: rat) < of_int (h * w)"
    using assms by (simp add: exact_threshold_def hash_space_def field_simps)
  then have "c * hash_space + 1 \<le> h * w" by (simp only: of_int_less_iff)
  then have "(of_int (c * hash_space + 1) :: rat) \<le> of_int (h * w)" by (simp only: of_int_le_iff)
  then show ?thesis by (simp add: exact_threshold_def hash_space_def field_simps)
qed

text \<open>So the rounded comparison can differ from the exact one only when they tie.\<close>

lemma threshold_compare:
  assumes "0 \<le> h" "h \<le> hash_space" "0 < w" "w \<le> 2 ^ 19"
  shows "exact_threshold h w < of_int c \<Longrightarrow> threshold_of h w < of_int c"
    and "of_int c < exact_threshold h w \<Longrightarrow> of_int c < threshold_of h w"
  using threshold_error[OF assms] exact_threshold_gap[of h w c] exact_threshold_gap'[of c h w]
  by linarith+

section \<open>Shares\<close>

lemma cohort_of_hash_threshold:
  "cohort_of_hash h x =
     (case cohort_loop (threshold_of h (total_weight x)) 0 (exp_arms x) of
        Some a \<Rightarrow> Inr a
      | None \<Rightarrow> if exp_arms x = [] then Inl Index_Error else Inr (arm_model_alias (last (exp_arms x))))"
  by (simp add: cohort_of_hash_def threshold_of_def Let_def)

lemma threshold_nonneg: "0 \<le> h \<Longrightarrow> 0 \<le> w \<Longrightarrow> 0 \<le> threshold_of h w"
  by (simp add: threshold_of_def float_round_nonneg hash_space_def)

lemma arm_split_unique:
  assumes "distinct (map arm_model_alias (pre @ arm # post))"
    and "pre @ arm # post = pre' @ arm' # post'" and "arm_model_alias arm' = arm_model_alias arm"
  shows "pre' = pre \<and> arm' = arm"
proof -
  have n: "(pre @ arm # post) ! length pre' = arm'" "length pre' < length (pre @ arm # post)"
    unfolding assms(2) by simp_all
  have m: "(pre @ arm # post) ! length pre = arm" "length pre < length (pre @ arm # post)" by simp_all
  have "map arm_model_alias (pre @ arm # post) ! length pre' =
      map arm_model_alias (pre @ arm # post) ! length pre"
    unfolding nth_map[OF n(2)] nth_map[OF m(2)] n(1) m(1) by (rule assms(3))
  then have "length pre' = length pre"
    using assms(1) n(2) m(2) by (simp only: nth_eq_iff_index_eq length_map)
  then show ?thesis using assms(2) by auto
qed

lemma arm_weights:
  assumes "experiment_policy_ok x" and "exp_arms x = pre @ arm # post"
  shows "0 \<le> sum_list (map arm_weight pre)" and "0 < arm_weight arm"
    and "sum_list (map arm_weight pre) + arm_weight arm \<le> total_weight x"
    and "0 < total_weight x" and "\<forall>a\<in>set pre. 0 < arm_weight a"
proof -
  have pos: "\<forall>a\<in>set (pre @ arm # post). 0 < arm_weight a"
    using assms by (auto simp: experiment_policy_ok_def)
  then have "0 \<le> sum_list (map arm_weight pre)" "0 \<le> sum_list (map arm_weight post)"
    by (auto intro!: sum_list_nonneg simp: less_imp_le)
  with pos show "0 \<le> sum_list (map arm_weight pre)" "0 < arm_weight arm"
    "sum_list (map arm_weight pre) + arm_weight arm \<le> total_weight x" "0 < total_weight x"
    "\<forall>a\<in>set pre. 0 < arm_weight a"
    by (simp_all add: total_weight_def assms(2))
qed

lemma cohort_threshold_range:
  assumes ok: "experiment_policy_ok x" and arms: "exp_arms x = pre @ arm # post"
    and t: "0 \<le> threshold_of h (total_weight x)"
    and c: "cohort_of_hash h x = Inr (arm_model_alias arm)"
  shows "of_int (sum_list (map arm_weight pre)) \<le> threshold_of h (total_weight x) \<and>
    (threshold_of h (total_weight x) < of_int (sum_list (map arm_weight pre) + arm_weight arm) \<or>
     sum_list (map arm_weight pre) + arm_weight arm = total_weight x)"
proof (cases "cohort_loop (threshold_of h (total_weight x)) 0 (exp_arms x)")
  case None
  have dist: "distinct (map arm_model_alias (exp_arms x))" using ok by (simp add: experiment_policy_ok_def)
  have w: "of_int (total_weight x) \<le> threshold_of h (total_weight x)"
    using cohort_loop_NoneD[OF None] t by (simp add: total_weight_def)
  have "post = []"
  proof (rule ccontr)
    assume "post \<noteq> []"
    then have "last (exp_arms x) \<in> set post" using arms by simp
    moreover have "arm_model_alias (last (exp_arms x)) = arm_model_alias arm"
      using c None arms by (simp add: cohort_of_hash_threshold)
    ultimately have "arm_model_alias arm \<in> arm_model_alias ` set post" by (metis imageI)
    then show False using dist unfolding arms by simp
  qed
  then have eq: "sum_list (map arm_weight pre) + arm_weight arm = total_weight x"
    by (simp add: arms total_weight_def)
  then have "sum_list (map arm_weight pre) \<le> total_weight x"
    using arm_weights(2)[OF ok arms] by linarith
  then have "of_int (sum_list (map arm_weight pre)) \<le> (of_int (total_weight x) :: rat)"
    by (simp only: of_int_le_iff)
  then show ?thesis using w eq by linarith
next
  case (Some a)
  with c have "a = arm_model_alias arm" by (simp add: cohort_of_hash_threshold)
  then obtain pre' arm' post' where s: "exp_arms x = pre' @ arm' # post'"
    "arm_model_alias arm' = arm_model_alias arm"
    "of_int (sum_list (map arm_weight pre')) \<le> threshold_of h (total_weight x)"
    "threshold_of h (total_weight x) < of_int (sum_list (map arm_weight pre') + arm_weight arm')"
    using cohort_loop_SomeD[OF Some] t by auto
  have "pre' = pre \<and> arm' = arm"
  proof (rule arm_split_unique[OF _ _ s(2)])
    show "distinct (map arm_model_alias (pre @ arm # post))"
      using ok unfolding experiment_policy_ok_def arms by blast
    show "pre @ arm # post = pre' @ arm' # post'" using s(1) unfolding arms .
  qed
  with s show ?thesis by simp
qed

text \<open>Strictly inside an arm's interval the arm is chosen, and it is chosen only within the closed one.\<close>

lemma cohort_interval:
  assumes ok: "experiment_policy_ok x" and W: "total_weight x \<le> 2 ^ 19"
    and h: "0 \<le> h" "h \<le> hash_space"
    and arms: "exp_arms x = pre @ arm # post"
  defines "lo \<equiv> sum_list (map arm_weight pre)"
  shows "of_int lo < exact_threshold h (total_weight x) \<Longrightarrow>
      exact_threshold h (total_weight x) < of_int (lo + arm_weight arm) \<Longrightarrow>
      cohort_of_hash h x = Inr (arm_model_alias arm)"
    and "cohort_of_hash h x = Inr (arm_model_alias arm) \<Longrightarrow>
      of_int lo \<le> exact_threshold h (total_weight x) \<and>
      exact_threshold h (total_weight x) \<le> of_int (lo + arm_weight arm)"
proof -
  let ?w = "total_weight x" and ?t = "threshold_of h (total_weight x)"
  note w = arm_weights[OF ok arms]
  note cmp = threshold_compare[OF h w(4) W]
  {
    assume "of_int lo < exact_threshold h ?w" "exact_threshold h ?w < of_int (lo + arm_weight arm)"
    then have "of_int (0 + lo) \<le> ?t" "?t < of_int (0 + lo + arm_weight arm)"
      using cmp(1)[of "lo + arm_weight arm"] cmp(2)[of lo] by simp_all
    then have "cohort_loop ?t 0 (pre @ arm # post) = Some (arm_model_alias arm)"
      using w(5) unfolding lo_def by (intro cohort_loop_pick)
    then show "cohort_of_hash h x = Inr (arm_model_alias arm)"
      by (simp add: cohort_of_hash_threshold arms)
  next
    assume "cohort_of_hash h x = Inr (arm_model_alias arm)"
    then have r: "of_int lo \<le> ?t" "?t < of_int (lo + arm_weight arm) \<or> lo + arm_weight arm = ?w"
      using cohort_threshold_range[OF ok arms] threshold_nonneg[OF h(1), of ?w] w(4) by (auto simp: lo_def)
    have "exact_threshold h ?w \<le> of_int ?w"
      using h w(4) by (simp add: exact_threshold_def hash_space_def field_simps)
    then have "exact_threshold h ?w \<le> of_int (lo + arm_weight arm)"
      using r(2) cmp(2)[of "lo + arm_weight arm"] by (cases "lo + arm_weight arm = ?w") force+
    moreover have "of_int lo \<le> exact_threshold h ?w"
      using r(1) cmp(1)[of lo] by linarith
    ultimately show "of_int lo \<le> exact_threshold h ?w \<and>
        exact_threshold h ?w \<le> of_int (lo + arm_weight arm)" by blast
  }
qed

lemma card_between:
  fixes a b :: rat
  assumes "{i::int. a < of_int i \<and> of_int i < b} \<subseteq> S" and "S \<subseteq> {i. a \<le> of_int i \<and> of_int i \<le> b}"
    and "a \<le> b"
  shows "\<bar>of_nat (card S) - (b - a)\<bar> \<le> 1"
proof -
  have lower: "{i::int. a < of_int i \<and> of_int i < b} = {\<lfloor>a\<rfloor> + 1..\<lceil>b\<rceil> - 1}"
    by (auto simp: floor_less_iff less_ceiling_iff) (linarith+)
  have upper: "{i::int. a \<le> of_int i \<and> of_int i \<le> b} = {\<lceil>a\<rceil>..\<lfloor>b\<rfloor>}"
    by (auto simp: ceiling_le_iff le_floor_iff)
  have "card {\<lfloor>a\<rfloor> + 1..\<lceil>b\<rceil> - 1} \<le> card S"
    using assms(1,2) unfolding lower upper by (intro card_mono) (auto intro: finite_subset)
  then have l: "\<lceil>b\<rceil> - \<lfloor>a\<rfloor> - 1 \<le> int (card S)" by simp
  have "card S \<le> card {\<lceil>a\<rceil>..\<lfloor>b\<rfloor>}"
    using assms(2) unfolding upper by (intro card_mono) auto
  then have u: "int (card S) \<le> max 0 (\<lfloor>b\<rfloor> + 1 - \<lceil>a\<rceil>)" by simp
  have "of_int (\<lceil>b\<rceil> - \<lfloor>a\<rfloor> - 1) \<le> (of_int (int (card S)) :: rat)" using l by (simp only: of_int_le_iff)
  moreover have "(of_int (int (card S)) :: rat) \<le> of_int (max 0 (\<lfloor>b\<rfloor> + 1 - \<lceil>a\<rceil>))"
    using u by (simp only: of_int_le_iff)
  ultimately show ?thesis
    using assms(3) by (simp add: max_def split: if_splits) linarith+
qed

text \<open>
  C31. Fair shares.  For a valid experiment of total weight at most \<open>2 ^ 19\<close>, the number of
  hash values (of the \<open>2 ^ 32\<close> the digest's first eight digits can take) assigned to an arm
  differs from its weight's exact share of the hash space by at most one, floating-point
  rounding included.
\<close>

theorem experiment_shares_proportional:
  assumes "experiment_policy_ok x" and "total_weight x \<le> 2 ^ 19" and "arm \<in> set (exp_arms x)"
  shows "\<bar>of_nat (card {h. 0 \<le> h \<and> h < 2 ^ 32 \<and> cohort_of_hash h x = Inr (arm_model_alias arm)}) -
      (2 ^ 32 - 1) * (of_int (arm_weight arm) / of_int (total_weight x) :: rat)\<bar> \<le> 1"
proof -
  obtain pre post where arms: "exp_arms x = pre @ arm # post"
    using assms(3) by (meson split_list)
  define lo W where "lo = sum_list (map arm_weight pre)" and "W = total_weight x"
  have b: "0 \<le> lo" "lo + arm_weight arm \<le> W" "0 < W" and pos: "0 < arm_weight arm"
    using arm_weights[OF assms(1) arms] by (simp_all add: lo_def W_def)
  define A B :: rat where "A = of_int lo * (2 ^ 32 - 1) / of_int W"
    and "B = of_int (lo + arm_weight arm) * (2 ^ 32 - 1) / of_int W"
  have exact: "of_int c < exact_threshold h W \<longleftrightarrow> of_int c * (2 ^ 32 - 1) / of_int W < (of_int h :: rat)"
    "exact_threshold h W < of_int c \<longleftrightarrow> of_int h < (of_int c * (2 ^ 32 - 1) / of_int W :: rat)" for c h
    using b(3) by (simp_all add: exact_threshold_def hash_space_def field_simps)
  have AB: "0 \<le> A" "A \<le> B" "B \<le> 2 ^ 32 - 1"
    using b pos of_int_le_iff[of "lo + arm_weight arm" W, where 'a = rat]
    by (simp_all add: A_def B_def field_simps)
  let ?S = "{h. 0 \<le> h \<and> h < 2 ^ 32 \<and> cohort_of_hash h x = Inr (arm_model_alias arm)}"
  have range: "0 \<le> h \<and> h \<le> hash_space" if "A \<le> of_int h" "of_int h \<le> B" for h
  proof -
    have "(0::rat) \<le> of_int h" "of_int h \<le> (of_int (2 ^ 32 - 1) :: rat)" using that AB by simp_all
    then show ?thesis by (simp only: of_int_le_iff of_int_0_le_iff) (simp add: hash_space_def)
  qed
  note iv = cohort_interval[OF assms(1,2) _ _ arms, folded lo_def W_def]
  have "{h. A < of_int h \<and> of_int h < B} \<subseteq> ?S"
  proof
    fix h assume "h \<in> {h. A < of_int h \<and> of_int h < B}"
    then have h: "A < of_int h" "of_int h < B" by auto
    then have r: "0 \<le> h" "h \<le> hash_space" using range[of h] by simp_all
    moreover have "cohort_of_hash h x = Inr (arm_model_alias arm)"
      using h by (intro iv(1)[OF r]) (simp_all only: exact A_def B_def)
    ultimately show "h \<in> ?S" by (simp add: hash_space_def)
  qed
  moreover have "?S \<subseteq> {h. A \<le> of_int h \<and> of_int h \<le> B}"
  proof
    fix h assume "h \<in> ?S"
    then have h: "0 \<le> h" "h \<le> hash_space" "cohort_of_hash h x = Inr (arm_model_alias arm)"
      by (auto simp: hash_space_def)
    then have "\<not> exact_threshold h W < of_int lo" "\<not> of_int (lo + arm_weight arm) < exact_threshold h W"
      using iv(2)[OF h(1,2)] by auto
    then show "h \<in> {h. A \<le> of_int h \<and> of_int h \<le> B}"
      unfolding exact A_def B_def by simp
  qed
  ultimately have "\<bar>of_nat (card ?S) - (B - A)\<bar> \<le> 1" using AB(2) by (rule card_between)
  moreover have "B - A = (2 ^ 32 - 1) * (of_int (arm_weight arm) / of_int W)"
    using b(3) by (simp add: A_def B_def field_simps)
  ultimately show ?thesis by (simp add: W_def)
qed

theorem experiment_shares_proportional_witness:
  "\<bar>of_nat (card {h. 0 \<le> h \<and> h < 2 ^ 32 \<and>
       cohort_of_hash h balanced_text_experiment = Inr ''balanced-text-primary''}) -
     (2 ^ 32 - 1) * (70 / 100 :: rat)\<bar> \<le> 1"
  using experiment_shares_proportional[of balanced_text_experiment
      "\<lparr>arm_model_alias = ''balanced-text-primary'', arm_weight = 70\<rparr>"]
  by (simp add: balanced_text_experiment_ok) (simp add: balanced_text_experiment_def total_weight_def)

text \<open>
  Assignment is total and sticky: for a valid experiment every subject gets one of the
  experiment's arms, and where the subject is the application alone the conversation does not
  matter.
\<close>

theorem experiment_assignment_total:
  assumes "experiment_policy_ok x"
  shows "(\<exists>arm\<in>set (exp_arms x). assign_experiment_cohort key x = Inr (arm_model_alias arm)) \<and>
    (exp_subject_key_source x = Subject_APPLICATION_ID \<longrightarrow>
       build_experiment_subject_key x app c = build_experiment_subject_key x app c')"
proof
  have "exp_arms x \<noteq> []" using assms by (auto simp: experiment_policy_ok_def)
  then show "\<exists>arm\<in>set (exp_arms x). assign_experiment_cohort key x = Inr (arm_model_alias arm)"
    unfolding assign_experiment_cohort_def by (rule cohort_of_hash_arm)
  show "exp_subject_key_source x = Subject_APPLICATION_ID \<longrightarrow>
       build_experiment_subject_key x app c = build_experiment_subject_key x app c'"
    by (auto simp: build_experiment_subject_key_def Let_def split: option.splits)
qed

theorem experiment_assignment_total_witness:
  "assign_experiment_cohort
     (build_experiment_subject_key balanced_text_experiment ''experimental-app'' (Some ''c1'')) balanced_text_experiment
     \<in> {Inr ''balanced-text-primary'', Inr ''balanced-text-secondary''}"
  using experiment_assignment_total[of balanced_text_experiment, OF balanced_text_experiment_ok]
  by (auto simp: balanced_text_experiment_def)

end
