(* ===== verification/Strategy.thy ===== *)
theory Strategy
  imports Filtering Experiment "HOL-Library.Multiset"
begin

text \<open>
  \<open>src/domain/strategy.py\<close>: the four routing strategies.  The contract of the
  \<open>RoutingStrategy\<close> protocol is a locale, interpreted for every strategy type; the theorems give
  what each strategy selects and that the order of the candidates never matters.
\<close>

record routing_context =
  ctx_application_id :: str
  ctx_conversation_id :: "str option"

record route_selection =
  sel_selected :: "route_candidate option"
  sel_additional_reason_codes :: "routing_reason_code list"

definition no_selection :: route_selection where
  "no_selection = \<lparr>sel_selected = None, sel_additional_reason_codes = []\<rparr>"

type_synonym select_function =
  "route_candidate list \<Rightarrow> routing_policy \<Rightarrow> effective_requirements \<Rightarrow> routing_context \<Rightarrow>
   route_selection result"

definition preferred_model_select :: select_function where
  "preferred_model_select eligible policy requirements context =
     (case first_such (\<lambda>c. Some (rc_model_alias c) = pol_preferred_model_alias policy) eligible of
        Some c \<Rightarrow> Inr \<lparr>sel_selected = Some c, sel_additional_reason_codes = []\<rparr>
      | None \<Rightarrow> Inr no_selection)"

definition cost_key :: "route_candidate \<Rightarrow> rat \<times> str" where
  "cost_key c = (dec_val (ec_amount_usd (rc_estimated_cost c)), rc_model_alias c)"

definition lowest_cost_select :: select_function where
  "lowest_cost_select eligible policy requirements context =
     (case eligible of
        [] \<Rightarrow> Inr no_selection
      | c # cs \<Rightarrow> Inr \<lparr>sel_selected = Some (min_key cost_key c cs),
                    sel_additional_reason_codes = [LOWEST_ESTIMATED_COST]\<rparr>)"

definition quality_tier_select :: select_function where
  "quality_tier_select eligible policy requirements context =
     (case eligible of
        [] \<Rightarrow> Inr no_selection
      | c # cs \<Rightarrow> Inr \<lparr>sel_selected = Some (min_key rc_model_alias c cs),
                    sel_additional_reason_codes = []\<rparr>)"

definition experiment_select :: select_function where
  "experiment_select eligible policy requirements context =
     (case pol_experiment_policy policy of
        None \<Rightarrow> Inr no_selection
      | Some x \<Rightarrow>
          let subject_key =
                build_experiment_subject_key x (ctx_application_id context) (ctx_conversation_id context)
          in bind_r (assign_experiment_cohort subject_key x) (\<lambda>assigned_alias.
               case first_such (\<lambda>c. rc_model_alias c = assigned_alias) eligible of
                 Some c \<Rightarrow> Inr \<lparr>sel_selected = Some c,
                               sel_additional_reason_codes = [EXPERIMENT_ROUTE_SELECTED]\<rparr>
               | None \<Rightarrow> Inr no_selection))"

fun get_strategy :: "routing_strategy_type \<Rightarrow> select_function" where
  "get_strategy Strategy_PREFERRED_MODEL = preferred_model_select"
| "get_strategy Strategy_LOWEST_COST = lowest_cost_select"
| "get_strategy Strategy_QUALITY_TIER = quality_tier_select"
| "get_strategy Strategy_EXPERIMENT = experiment_select"

section \<open>The contract of a strategy\<close>

text \<open>
  What the callers rely on: the selection is one of the eligible candidates, it does not depend on
  the order they are listed in, and under a valid policy a strategy does not raise.
\<close>

locale routing_strategy =
  fixes select :: select_function
  assumes selects_eligible: "select el p r ctx = Inr s \<Longrightarrow> sel_selected s = Some c \<Longrightarrow> c \<in> set el"
    and order_irrelevant: "distinct (map rc_model_alias el) \<Longrightarrow> mset el' = mset el \<Longrightarrow>
      select el' p r ctx = select el p r ctx"
    and total_on_valid: "policy_ok p \<Longrightarrow> \<exists>s. select el p r ctx = Inr s"
begin

lemma selected_satisfies:
  assumes "select (filter Q cs) p r ctx = Inr s" and "sel_selected s = Some c"
  shows "c \<in> set cs \<and> Q c"
  using selects_eligible[OF assms] by simp

lemma nothing_from_nothing: "select [] p r ctx = Inr s \<Longrightarrow> sel_selected s = None"
  using selects_eligible[of "[]" p r ctx s] by (cases "sel_selected s") auto

end

section \<open>Lemmas on the selections\<close>

lemma candidates_inj:
  "distinct (map f xs) \<Longrightarrow> inj_on f (set xs)"
  by (simp add: distinct_map)

lemma first_such_perm:
  assumes "distinct (map f xs)" and "mset ys = mset xs"
  shows "first_such (\<lambda>c. f c = a) ys = first_such (\<lambda>c. f c = a) xs"
proof -
  have s: "set ys = set xs" using assms(2) by (rule mset_eq_setD)
  show ?thesis
  proof (cases "first_such (\<lambda>c. f c = a) xs")
    case None
    then have "first_such (\<lambda>c. f c = a) ys = None" using s by (simp add: first_such_None_iff)
    with None show ?thesis by simp
  next
    case (Some x)
    then have x: "x \<in> set xs" "f x = a" by (auto dest: first_such_SomeD)
    then have "first_such (\<lambda>c. f c = a) ys \<noteq> None" using s by (auto simp: first_such_None_iff)
    then obtain y where y: "first_such (\<lambda>c. f c = a) ys = Some y" by blast
    then have "y \<in> set xs" "f y = a" using s by (auto dest: first_such_SomeD)
    then have "y = x" using inj_onD[OF candidates_inj[OF assms(1)], of y x] x by simp
    with Some y show ?thesis by simp
  qed
qed

lemma min_key_perm:
  assumes "inj_on f (set (x # xs))" and "set (y # ys) = set (x # xs)"
  shows "min_key f y ys = min_key f x xs"
proof (rule min_key_unique)
  show "inj_on f (set (y # ys))" using assms by simp
  show "min_key f x xs \<in> set (y # ys)" unfolding assms(2) by (rule min_key_in)
  show "f (min_key f x xs) \<le> f z" if "z \<in> set (y # ys)" for z
    using that unfolding assms(2) by (rule min_key_le)
qed

lemma cost_key_inj: "distinct (map rc_model_alias el) \<Longrightarrow> inj_on cost_key (set el)"
  using candidates_inj[of rc_model_alias el] by (auto simp: inj_on_def cost_key_def)

lemma min_key_select_perm:
  assumes "inj_on f (set el)" and "mset el' = mset el"
  shows "(case el' of [] \<Rightarrow> a | c # cs \<Rightarrow> g (min_key f c cs)) =
         (case el of [] \<Rightarrow> a | c # cs \<Rightarrow> g (min_key f c cs))"
proof (cases el)
  case Nil
  then show ?thesis using assms(2) by simp
next
  case (Cons x xs)
  moreover obtain y ys where y: "el' = y # ys"
    using assms(2) Cons by (cases el') auto
  moreover have "min_key f y ys = min_key f x xs"
    using assms(1) mset_eq_setD[OF assms(2)] unfolding Cons y by (intro min_key_perm)
  ultimately show ?thesis by simp
qed

lemma strategy_selects_eligible:
  assumes "get_strategy t el p r ctx = Inr s" and "sel_selected s = Some c"
  shows "c \<in> set el"
proof (cases t)
  case Strategy_LOWEST_COST
  with assms obtain x xs where "el = x # xs" "c = min_key cost_key x xs"
    by (auto simp: lowest_cost_select_def no_selection_def split: list.splits)
  then show ?thesis by (simp only: min_key_in)
next
  case Strategy_QUALITY_TIER
  with assms obtain x xs where "el = x # xs" "c = min_key rc_model_alias x xs"
    by (auto simp: quality_tier_select_def no_selection_def split: list.splits)
  then show ?thesis by (simp only: min_key_in)
next
  case Strategy_PREFERRED_MODEL
  with assms show ?thesis
    using first_such_SomeD[of _ el c]
    by (auto simp: preferred_model_select_def no_selection_def split: option.splits)
next
  case Strategy_EXPERIMENT
  with assms show ?thesis
    using first_such_SomeD[of _ el c]
    by (auto simp: experiment_select_def no_selection_def Let_def split: option.splits)
qed

lemma strategy_order_irrelevant:
  assumes d: "distinct (map rc_model_alias el)" and m: "mset el' = mset el"
  shows "get_strategy t el' p r ctx = get_strategy t el p r ctx"
proof (cases t)
  case Strategy_PREFERRED_MODEL
  have "first_such (\<lambda>c. Some (rc_model_alias c) = pol_preferred_model_alias p) el' =
      first_such (\<lambda>c. Some (rc_model_alias c) = pol_preferred_model_alias p) el"
    using first_such_perm[OF d m] by (cases "pol_preferred_model_alias p") auto
  then show ?thesis using Strategy_PREFERRED_MODEL by (simp add: preferred_model_select_def)
next
  case Strategy_LOWEST_COST
  have "lowest_cost_select el' p r ctx = lowest_cost_select el p r ctx"
    unfolding lowest_cost_select_def by (rule min_key_select_perm[OF cost_key_inj[OF d] m])
  then show ?thesis using Strategy_LOWEST_COST by simp
next
  case Strategy_QUALITY_TIER
  have "quality_tier_select el' p r ctx = quality_tier_select el p r ctx"
    unfolding quality_tier_select_def by (rule min_key_select_perm[OF candidates_inj[OF d] m])
  then show ?thesis using Strategy_QUALITY_TIER by simp
next
  case Strategy_EXPERIMENT
  have "experiment_select el' p r ctx = experiment_select el p r ctx"
    unfolding experiment_select_def first_such_perm[OF d m] by (rule refl)
  then show ?thesis using Strategy_EXPERIMENT by simp
qed

lemma experiment_select_total:
  assumes "policy_ok p"
  shows "\<exists>s. experiment_select el p r ctx = Inr s"
proof (cases "pol_experiment_policy p")
  case (Some x)
  let ?key = "build_experiment_subject_key x (ctx_application_id ctx) (ctx_conversation_id ctx)"
  have "exp_arms x \<noteq> []"
    using assms Some by (auto simp: policy_ok_iff routing_policy_fields_ok_def experiment_policy_ok_def)
  then obtain a where "assign_experiment_cohort ?key x = Inr a"
    using cohort_of_hash_arm unfolding assign_experiment_cohort_def by blast
  then show ?thesis
    by (simp add: experiment_select_def Some Let_def split: option.split)
qed (simp add: experiment_select_def)

lemma strategy_total: "policy_ok p \<Longrightarrow> \<exists>s. get_strategy t el p r ctx = Inr s"
  by (cases t) (auto simp: preferred_model_select_def lowest_cost_select_def quality_tier_select_def
      experiment_select_total split: option.splits list.splits)

interpretation strategies: routing_strategy "get_strategy t" for t
proof
  show "get_strategy t el p r ctx = Inr s \<Longrightarrow> sel_selected s = Some c \<Longrightarrow> c \<in> set el" for el p r ctx s c
    by (rule strategy_selects_eligible)
  show "distinct (map rc_model_alias el) \<Longrightarrow> mset el' = mset el \<Longrightarrow>
      get_strategy t el' p r ctx = get_strategy t el p r ctx" for el el' p r ctx
    by (rule strategy_order_irrelevant)
  show "policy_ok p \<Longrightarrow> \<exists>s. get_strategy t el p r ctx = Inr s" for p el r ctx
    by (rule strategy_total)
qed

lemma strategy_additional_codes:
  "get_strategy t el p r ctx = Inr s \<Longrightarrow>
   set (sel_additional_reason_codes s) \<subseteq> {LOWEST_ESTIMATED_COST, EXPERIMENT_ROUTE_SELECTED}"
  by (cases t) (auto simp: preferred_model_select_def lowest_cost_select_def quality_tier_select_def
      experiment_select_def no_selection_def Let_def split: option.splits list.splits)

section \<open>What the strategies select\<close>

text \<open>
  The specification of a selection, over the set of eligible candidates: the model with a given
  alias if there is one, or the candidate with the least key.
\<close>

definition the_model :: "route_candidate set \<Rightarrow> str \<Rightarrow> route_candidate option \<Rightarrow> bool" where
  "the_model E a w \<longleftrightarrow>
     (case w of Some c \<Rightarrow> c \<in> E \<and> rc_model_alias c = a | None \<Rightarrow> \<forall>c\<in>E. rc_model_alias c \<noteq> a)"

definition the_least :: "route_candidate set \<Rightarrow> (route_candidate \<Rightarrow> 'k::linorder) \<Rightarrow> route_candidate option \<Rightarrow> bool" where
  "the_least E f w \<longleftrightarrow>
     (case w of Some c \<Rightarrow> c \<in> E \<and> (\<forall>d\<in>E. f c \<le> f d) | None \<Rightarrow> E = {})"

fun selection_spec ::
  "routing_strategy_type \<Rightarrow> route_candidate set \<Rightarrow> routing_policy \<Rightarrow> routing_context \<Rightarrow>
   route_candidate option \<Rightarrow> bool" where
  "selection_spec Strategy_PREFERRED_MODEL E p ctx w =
     (case pol_preferred_model_alias p of None \<Rightarrow> w = None | Some a \<Rightarrow> the_model E a w)"
| "selection_spec Strategy_LOWEST_COST E p ctx w = the_least E cost_key w"
| "selection_spec Strategy_QUALITY_TIER E p ctx w = the_least E rc_model_alias w"
| "selection_spec Strategy_EXPERIMENT E p ctx w =
     (case pol_experiment_policy p of
        None \<Rightarrow> w = None
      | Some x \<Rightarrow>
          (case assign_experiment_cohort (build_experiment_subject_key x (ctx_application_id ctx)
                  (ctx_conversation_id ctx)) x of
             Inl e \<Rightarrow> False
           | Inr a \<Rightarrow> the_model E a w))"

lemma the_model_unique:
  "inj_on rc_model_alias E \<Longrightarrow> the_model E a v \<Longrightarrow> the_model E a w \<Longrightarrow> v = w"
  by (auto simp: the_model_def inj_on_def split: option.splits)

lemma the_least_unique:
  assumes "inj_on f E" and "the_least E f v" and "the_least E f w"
  shows "v = w"
proof (cases v)
  case None
  then show ?thesis using assms(2,3) by (cases w) (auto simp: the_least_def)
next
  case v: (Some a)
  then obtain b where w: "w = Some b" using assms(2,3) by (cases w) (auto simp: the_least_def)
  have ab: "a \<in> E" "b \<in> E" using assms(2,3) v w by (simp_all add: the_least_def)
  have "f a = f b" using assms(2,3) ab unfolding v w the_least_def by (intro antisym) simp_all
  then show ?thesis using inj_onD[OF assms(1)] ab v w by simp
qed

lemma the_model_first_such: "the_model (set el) a (first_such (\<lambda>c. rc_model_alias c = a) el)"
proof (cases "first_such (\<lambda>c. rc_model_alias c = a) el")
  case None
  then have "\<forall>c\<in>set el. rc_model_alias c \<noteq> a" by (simp only: first_such_None_iff) 
  then show ?thesis by (simp add: the_model_def None)
next
  case (Some c)
  then show ?thesis using first_such_SomeD[OF Some] by (simp add: the_model_def)
qed

lemma the_least_min_key: "the_least (set (c # cs)) f (Some (min_key f c cs))"
  unfolding the_least_def option.case by (intro conjI ballI min_key_in min_key_le)

lemma strategy_meets_spec:
  assumes "get_strategy t el p r ctx = Inr s"
  shows "selection_spec t (set el) p ctx (sel_selected s)"
proof (cases t)
  case Strategy_PREFERRED_MODEL
  have "the_model (set el) a (sel_selected s)" if "pol_preferred_model_alias p = Some a" for a
    using the_model_first_such[of el a] assms that Strategy_PREFERRED_MODEL
    by (auto simp: preferred_model_select_def no_selection_def split: option.splits)
  then show ?thesis
    using assms Strategy_PREFERRED_MODEL
    by (auto simp: preferred_model_select_def no_selection_def split: option.splits)
next
  case Strategy_LOWEST_COST
  with assms show ?thesis
    using the_least_min_key[where f = cost_key]
    by (cases el) (auto simp: lowest_cost_select_def no_selection_def the_least_def[of "{}"])
next
  case Strategy_QUALITY_TIER
  with assms show ?thesis
    using the_least_min_key[where f = rc_model_alias]
    by (cases el) (auto simp: quality_tier_select_def no_selection_def the_least_def[of "{}"])
next
  case Strategy_EXPERIMENT
  have "the_model (set el) a (sel_selected s)"
    if "pol_experiment_policy p = Some x" "assign_experiment_cohort (build_experiment_subject_key x
        (ctx_application_id ctx) (ctx_conversation_id ctx)) x = Inr a" for x a
    using the_model_first_such[of el a] assms that Strategy_EXPERIMENT
    by (auto simp: experiment_select_def no_selection_def Let_def split: option.splits)
  then show ?thesis
    using assms Strategy_EXPERIMENT
    by (auto simp: experiment_select_def no_selection_def Let_def split: option.splits sum.splits)
qed

lemma selection_spec_unique:
  assumes "inj_on rc_model_alias E" and "selection_spec t E p ctx v" and "selection_spec t E p ctx w"
  shows "v = w"
proof -
  have "inj_on cost_key E" using assms(1) by (auto simp: inj_on_def cost_key_def)
  then show ?thesis
    using assms by (cases t) (auto dest: the_model_unique the_least_unique split: option.splits sum.splits)
qed

text \<open>
  C6. Every strategy, under a valid policy, returns exactly what its specification says: the
  cheapest eligible candidate (ties by alias), the alphabetically first one, the preferred model or
  the model of the assigned experiment arm, and nothing when there is none.  The specification is
  over the set of candidates and determines the selection, so neither their order nor anything
  else can influence it.
\<close>

theorem strategy_selection_exact:
  assumes "policy_ok p" and "distinct (map rc_model_alias el)"
  shows "\<exists>s. get_strategy t el p r ctx = Inr s \<and>
     (\<forall>w. selection_spec t (set el) p ctx w \<longleftrightarrow> w = sel_selected s)"
proof -
  obtain s where s: "get_strategy t el p r ctx = Inr s"
    using strategies.total_on_valid[OF assms(1)] by blast
  have "inj_on rc_model_alias (set el)" using assms(2) by (rule candidates_inj)
  then show ?thesis using s strategy_meets_spec[OF s] selection_spec_unique by blast
qed

theorem strategy_selection_exact_witness:
  "\<exists>s. get_strategy Strategy_LOWEST_COST [sample_secondary, sample_primary] support_assistant_policy
         sample_effective \<lparr>ctx_application_id = ''support-assistant'', ctx_conversation_id = None\<rparr> = Inr s \<and>
     sel_selected s = Some sample_primary"
proof -
  let ?ctx = "\<lparr>ctx_application_id = ''support-assistant'', ctx_conversation_id = None\<rparr> :: routing_context"
  have d: "distinct (map rc_model_alias [sample_secondary, sample_primary])"
    by (simp add: sample_candidate_def)
  have le: "cost_key sample_primary \<le> cost_key sample_secondary"
    by (simp add: cost_key_def sample_candidate_def less_eq_prod_def)
  have "selection_spec Strategy_LOWEST_COST (set [sample_secondary, sample_primary])
      support_assistant_policy ?ctx (Some sample_primary)"
    using le by (simp add: the_least_def)
  with strategy_selection_exact[OF shipped_policies_ok(4) d, of Strategy_LOWEST_COST sample_effective ?ctx]
  show ?thesis by (metis (no_types, lifting))
qed

end
