(* ===== verification/Local_Config.thy ===== *)
theory Local_Config
  imports Ports Shipped_Config
begin

text \<open>
  \<open>src/adapters/config/\<close>: the file-backed model catalogue and policy repository.  The file
  system, the YAML and JSON parsers and pydantic's coercion of raw values into field types are
  parameters (\<open>config_environment\<close>); what the code does with them is modelled: extensions,
  error translation, the catalogue's checks and indexes, and the repository's caches.
\<close>

section \<open>The environment\<close>

datatype raw = Raw_Map "(str \<times> raw) list" | Raw_List "raw list" | Raw_Str str | Raw_Int int | Raw_Other

text \<open>
  \<open>env_read\<close>: a file's text (\<open>None\<close>: \<open>OSError\<close>).  The parsers return \<open>None\<close> for malformed
  text.  \<open>env_int\<close> is \<open>int(raw)\<close> (\<open>None\<close>: \<open>TypeError\<close> or \<open>ValueError\<close>).  \<open>env_model\<close> and
  \<open>env_policy\<close> build the fields of the class from raw values (\<open>None\<close>: \<open>ValidationError\<close>); the
  field constraints and validators of the classes are applied by the model afterwards.
\<close>

record config_environment =
  env_exists :: "str \<Rightarrow> bool"
  env_read :: "str \<Rightarrow> str option"
  env_yaml :: "str \<Rightarrow> raw option"
  env_json :: "str \<Rightarrow> raw option"
  env_int :: "raw \<Rightarrow> int option"
  env_items :: "raw \<Rightarrow> raw list option"
  env_model :: "raw \<Rightarrow> model_definition option"
  env_policy :: "raw \<Rightarrow> routing_policy option"

text \<open>\<open>pathlib\<close>'s suffix: from the last dot of the name, unless the dot starts or ends it.\<close>

definition path_name :: "str \<Rightarrow> str" where
  "path_name path = rev (takeWhile (\<lambda>c. c \<noteq> CHR ''/'') (rev path))"

definition path_suffix :: "str \<Rightarrow> str" where
  "path_suffix path =
     (let n = path_name path;
          ext = rev (takeWhile (\<lambda>c. c \<noteq> CHR ''.'') (rev n))
      in if ext = [] \<or> length ext + 1 \<ge> length n then [] else CHR ''.'' # ext)"

definition load_structured_file :: "config_environment \<Rightarrow> str \<Rightarrow> raw result" where
  "load_structured_file env path =
     (case env_read env path of
        None \<Rightarrow> Inl ConfigurationError
      | Some content \<Rightarrow>
          let parsed =
                (if path_suffix path = ''.yaml'' \<or> path_suffix path = ''.yml'' then env_yaml env content
                 else if path_suffix path = ''.json'' then env_json env content
                 else None)
          in case parsed of
               Some (Raw_Map m) \<Rightarrow> Inr (Raw_Map m)
             | _ \<Rightarrow> Inl ConfigurationError)"

definition raw_get :: "str \<Rightarrow> raw \<Rightarrow> raw option" where
  "raw_get k r = (case r of Raw_Map m \<Rightarrow> map_of m k | _ \<Rightarrow> None)"

section \<open>The catalogue\<close>

definition duplicate_aliases :: "model_definition list \<Rightarrow> bool" where
  "duplicate_aliases models \<longleftrightarrow> \<not> distinct (map md_model_alias models)"

definition models_by_alias :: "model_definition list \<Rightarrow> str \<Rightarrow> model_definition option" where
  "models_by_alias models a = map_of (map (\<lambda>m. (md_model_alias m, m)) models) a"

text \<open>A router alias may only name a model of its own provider; an unknown target passes.\<close>

definition router_alias_crosses_provider :: "model_definition list \<Rightarrow> model_definition \<Rightarrow> bool" where
  "router_alias_crosses_provider models m \<longleftrightarrow>
     mr_type (md_resolution m) = Resolution_ROUTER_ALIAS \<and>
     (case models_by_alias models (mr_value (md_resolution m)) of
        None \<Rightarrow> False | Some t \<Rightarrow> md_provider t \<noteq> md_provider m)"

text \<open>One entry per tag of the model, so a model that repeats a tag is listed twice.\<close>

definition models_by_capability :: "model_definition list \<Rightarrow> str \<Rightarrow> model_definition list" where
  "models_by_capability models tag =
     concat (map (\<lambda>m. map (\<lambda>t. m) (filter (\<lambda>t. t = tag) (cap_capability_tags (md_capabilities m)))) models)"

definition build_catalogue :: "int \<Rightarrow> model_definition list \<Rightarrow> model_catalogue result" where
  "build_catalogue version models =
     (if duplicate_aliases models then Inl ConfigurationError
      else if list_ex (router_alias_crosses_provider models) models then Inl ConfigurationError
      else Inr \<lparr>mc_catalogue_version = version,
                mc_find_by_capability = models_by_capability models,
                mc_get_by_alias = models_by_alias models,
                mc_all_models = models\<rparr>)"

text \<open>\<open>ModelDefinition.model_validate\<close> on every item, any failure becoming a configuration error.\<close>

definition load_model :: "config_environment \<Rightarrow> raw \<Rightarrow> model_definition result" where
  "load_model env item =
     (case env_model env item of
        None \<Rightarrow> Inl ConfigurationError
      | Some m \<Rightarrow> (case validate_model_definition m of Inl e \<Rightarrow> Inl ConfigurationError | Inr m \<Rightarrow> Inr m))"

definition local_file_model_catalogue :: "config_environment \<Rightarrow> str \<Rightarrow> model_catalogue result" where
  "local_file_model_catalogue env catalogue_path =
     bind_r (load_structured_file env catalogue_path) (\<lambda>data.
       case (raw_get ''catalogue_version'' data, raw_get ''models'' data) of
         (Some v, Some items) \<Rightarrow>
           (case env_int env v of
              None \<Rightarrow> Inl ConfigurationError
            | Some version \<Rightarrow>
                (case env_items env items of
                   None \<Rightarrow> Inl ConfigurationError
                 | Some xs \<Rightarrow> bind_r (map_r (load_model env) xs) (build_catalogue version)))
       | _ \<Rightarrow> Inl ConfigurationError)"

section \<open>The policy repository\<close>

record policy_repository_state =
  prs_cache :: "str \<rightharpoonup> routing_policy"
  prs_default_policy :: "routing_policy option"
  prs_default_policy_loaded :: bool

definition new_policy_repository :: policy_repository_state where
  "new_policy_repository =
     \<lparr>prs_cache = Map.empty, prs_default_policy = None, prs_default_policy_loaded = False\<rparr>"

definition policy_extensions :: "str list" where
  "policy_extensions = [''.yaml'', ''.yml'', ''.json'']"

definition find_application_policy_file :: "config_environment \<Rightarrow> str \<Rightarrow> str \<Rightarrow> str option" where
  "find_application_policy_file env applications_dir application_id =
     first_such (env_exists env)
       (map (\<lambda>e. applications_dir @ ''/'' @ application_id @ e) policy_extensions)"

definition load_policy :: "config_environment \<Rightarrow> str \<Rightarrow> routing_policy result" where
  "load_policy env path =
     bind_r (load_structured_file env path) (\<lambda>data.
       case env_policy env data of
         None \<Rightarrow> Inl ConfigurationError
       | Some p \<Rightarrow> (case validate_routing_policy p of Inl e \<Rightarrow> Inl ConfigurationError | Inr q \<Rightarrow> Inr q))"

text \<open>The flag is set before the file is read, so a file that fails to load is not read again.\<close>

definition load_default_policy ::
  "config_environment \<Rightarrow> str \<Rightarrow> (policy_repository_state, routing_policy option) op" where
  "load_default_policy env default_policy_path = (\<lambda>st.
     if prs_default_policy_loaded st then (Inr (prs_default_policy st), st)
     else
       let st = st\<lparr>prs_default_policy_loaded := True\<rparr>
       in if env_exists env default_policy_path
          then case load_policy env default_policy_path of
                 Inl e \<Rightarrow> (Inl e, st)
               | Inr p \<Rightarrow> (Inr (Some p), st\<lparr>prs_default_policy := Some p\<rparr>)
          else (Inr (prs_default_policy st), st))"

definition local_policy_resolve ::
  "config_environment \<Rightarrow> str \<Rightarrow> str \<Rightarrow> str \<Rightarrow> (policy_repository_state, routing_policy) op" where
  "local_policy_resolve env applications_dir default_policy_path application_id = (\<lambda>st.
     case prs_cache st application_id of
       Some p \<Rightarrow> (Inr p, st)
     | None \<Rightarrow>
         (case find_application_policy_file env applications_dir application_id of
            Some app_path \<Rightarrow>
              (case load_policy env app_path of
                 Inl e \<Rightarrow> (Inl e, st)
               | Inr p \<Rightarrow> (Inr p, st\<lparr>prs_cache := (prs_cache st)(application_id \<mapsto> p)\<rparr>))
          | None \<Rightarrow>
              (case load_default_policy env default_policy_path st of
                 (Inl e, st') \<Rightarrow> (Inl e, st')
               | (Inr None, st') \<Rightarrow> (Inl RoutingPolicyNotFoundError, st')
               | (Inr (Some p), st') \<Rightarrow> (Inr p, st'))))"

section \<open>The contract of a catalogue\<close>

locale catalogue_contract =
  fixes cat :: model_catalogue
  assumes get_iff: "mc_get_by_alias cat a = Some m \<longleftrightarrow> m \<in> set (mc_all_models cat) \<and> md_model_alias m = a"
    and find_iff: "m \<in> set (mc_find_by_capability cat cap) \<longleftrightarrow>
      m \<in> set (mc_all_models cat) \<and> cap \<in> set (cap_capability_tags (md_capabilities m))"
begin

lemma found_is_known: "m \<in> set (mc_find_by_capability cat cap) \<Longrightarrow> mc_get_by_alias cat (md_model_alias m) = Some m"
  by (simp add: get_iff find_iff)

lemma alias_unique:
  "m \<in> set (mc_all_models cat) \<Longrightarrow> n \<in> set (mc_all_models cat) \<Longrightarrow>
   md_model_alias m = md_model_alias n \<Longrightarrow> m = n"
  using get_iff by (metis option.inject)

end

lemma build_catalogue_Inr:
  "build_catalogue v ms = Inr c \<longleftrightarrow>
     distinct (map md_model_alias ms) \<and> \<not> list_ex (router_alias_crosses_provider ms) ms \<and>
     c = \<lparr>mc_catalogue_version = v, mc_find_by_capability = models_by_capability ms,
          mc_get_by_alias = models_by_alias ms, mc_all_models = ms\<rparr>"
  by (auto simp: build_catalogue_def duplicate_aliases_def)

lemma models_by_alias_iff:
  assumes "distinct (map md_model_alias ms)"
  shows "models_by_alias ms a = Some m \<longleftrightarrow> m \<in> set ms \<and> md_model_alias m = a"
proof -
  have "distinct (map fst (map (\<lambda>m. (md_model_alias m, m)) ms))"
    using assms by (simp add: comp_def)
  then show ?thesis
    unfolding models_by_alias_def by (auto simp: map_of_eq_Some_iff)
qed

lemma models_by_capability_iff:
  "m \<in> set (models_by_capability ms cap) \<longleftrightarrow> m \<in> set ms \<and> cap \<in> set (cap_capability_tags (md_capabilities m))"
  by (auto simp: models_by_capability_def)

lemma build_catalogue_contract: "build_catalogue v ms = Inr c \<Longrightarrow> catalogue_contract c"
  by unfold_locales (auto simp: build_catalogue_Inr models_by_alias_iff models_by_capability_iff)

definition shipped_catalogue :: model_catalogue where
  "shipped_catalogue =
     \<lparr>mc_catalogue_version = 1, mc_find_by_capability = models_by_capability shipped_models,
      mc_get_by_alias = models_by_alias shipped_models, mc_all_models = shipped_models\<rparr>"

lemma shipped_catalogue_builds: "build_catalogue 1 shipped_models = Inr shipped_catalogue"
  by (simp add: build_catalogue_Inr shipped_catalogue_def shipped_models_def shipped_model_defs
      router_alias_crosses_provider_def)

interpretation shipped_cat: catalogue_contract shipped_catalogue
  using shipped_catalogue_builds by (rule build_catalogue_contract)

text \<open>
  The indexes of a catalogue that loads answer exactly: an alias finds the one model with that
  alias, a capability finds exactly the models tagged with it, no two models share an alias, and a
  router alias never leads to a model of another provider.
\<close>

theorem catalogue_lookups_exact:
  assumes "build_catalogue v ms = Inr c"
  shows "(mc_get_by_alias c a = Some m \<longleftrightarrow> m \<in> set ms \<and> md_model_alias m = a) \<and>
    (m \<in> set (mc_find_by_capability c cap) \<longleftrightarrow>
       m \<in> set ms \<and> cap \<in> set (cap_capability_tags (md_capabilities m))) \<and>
    (m \<in> set ms \<longrightarrow> mr_type (md_resolution m) = Resolution_ROUTER_ALIAS \<longrightarrow>
       mc_get_by_alias c (mr_value (md_resolution m)) = Some t \<longrightarrow> md_provider t = md_provider m)"
proof -
  note contract = build_catalogue_contract[OF assms]
  note get_iff = catalogue_contract.get_iff[OF contract] and find_iff = catalogue_contract.find_iff[OF contract]
  have all: "mc_all_models c = ms" "mc_get_by_alias c = models_by_alias ms"
    and no_cross: "\<not> list_ex (router_alias_crosses_provider ms) ms"
    using assms by (simp_all add: build_catalogue_Inr)
  then show ?thesis
    using get_iff[of a m] find_iff[of m cap]
    by (auto simp: list_ex_iff router_alias_crosses_provider_def)
qed

theorem catalogue_lookups_exact_witness:
  "mc_get_by_alias shipped_catalogue ''balanced-text-openai'' = Some balanced_text_openai \<and>
   balanced_text_openai \<in> set (mc_find_by_capability shipped_catalogue ''balanced-text'')"
  using catalogue_lookups_exact[OF shipped_catalogue_builds, of "''balanced-text-openai''" balanced_text_openai
      "''balanced-text''"]
  by (simp add: shipped_models_def) (simp add: balanced_text_openai_def)

section \<open>The policy repository's invariant\<close>

definition policy_repository_inv :: "policy_repository_state \<Rightarrow> bool" where
  "policy_repository_inv st \<longleftrightarrow>
     (\<forall>a p. prs_cache st a = Some p \<longrightarrow> policy_ok p) \<and>
     (\<forall>p. prs_default_policy st = Some p \<longrightarrow> policy_ok p)"

lemma new_policy_repository_inv [simp]: "policy_repository_inv new_policy_repository"
  by (simp add: policy_repository_inv_def new_policy_repository_def)

lemma load_policy_ok:
  assumes "load_policy env path = Inr p"
  shows "policy_ok p"
proof -
  obtain d where "load_structured_file env path = Inr d" using assms by (auto simp: load_policy_def)
  then obtain q where "validate_routing_policy q = Inr p"
    using assms by (simp add: load_policy_def split: option.splits sum.splits)
  then show ?thesis using validate_routing_policy_Inr by blast
qed

lemma load_structured_file_error: "load_structured_file env path = Inl e \<Longrightarrow> e = ConfigurationError"
  by (auto simp: load_structured_file_def Let_def split: option.splits raw.splits if_splits)

lemma load_policy_error:
  assumes "load_policy env path = Inl e"
  shows "e = ConfigurationError"
  using assms load_structured_file_error[of env path]
  by (cases "load_structured_file env path") (auto simp: load_policy_def split: option.splits sum.splits)

lemma load_default_policy_inv:
  assumes "policy_repository_inv st" and "load_default_policy env path st = (r, st')"
  shows "policy_repository_inv st' \<and> prs_cache st' = prs_cache st \<and>
    (case r of Inl e \<Rightarrow> e = ConfigurationError | Inr None \<Rightarrow> True | Inr (Some p) \<Rightarrow> policy_ok p)"
  using assms load_policy_error[of env path] load_policy_ok[of env path]
  by (auto simp: load_default_policy_def policy_repository_inv_def Let_def
      split: if_splits sum.splits option.splits)


text \<open>The repository over the shipped files, parsed.\<close>

definition shipped_environment :: config_environment where
  "shipped_environment =
     \<lparr>env_exists = (\<lambda>path. path \<in> {''policies/applications/support-assistant.yaml'', ''policies/default_policy.yaml''}),
      env_read = (\<lambda>path. Some path),
      env_yaml = (\<lambda>content. Some (Raw_Map [(''policy_id'', Raw_Str content)])),
      env_json = (\<lambda>content. None),
      env_int = (\<lambda>r. case r of Raw_Int n \<Rightarrow> Some n | _ \<Rightarrow> None),
      env_items = (\<lambda>r. case r of Raw_List xs \<Rightarrow> Some xs | _ \<Rightarrow> None),
      env_model = (\<lambda>r. None),
      env_policy = (\<lambda>r. case raw_get ''policy_id'' r of
         Some (Raw_Str f) \<Rightarrow> Some (if f = ''policies/default_policy.yaml'' then default_policy else support_assistant_policy)
       | _ \<Rightarrow> None)\<rparr>"

lemma shipped_resolution:
  "\<exists>st'. local_policy_resolve shipped_environment ''policies/applications'' ''policies/default_policy.yaml''
     ''support-assistant'' new_policy_repository = (Inr support_assistant_policy, st')"
  by (simp add: local_policy_resolve_def new_policy_repository_def find_application_policy_file_def
      policy_extensions_def shipped_environment_def load_policy_def load_structured_file_def
      path_suffix_def path_name_def raw_get_def Let_def policy_ok_def[symmetric]
      iffD1[OF policy_ok_def])


text \<open>
  A broken default policy is reported once only: when the default policy file exists but does
  not load, the first request without a policy of its own gets the configuration error and every
  later one is told that no policy exists.
\<close>

theorem default_policy_error_reported_once:
  assumes "prs_cache st app = None" and "find_application_policy_file env dir app = None"
    and "prs_cache st app' = None" and "find_application_policy_file env dir app' = None"
    and "\<not> prs_default_policy_loaded st" and "prs_default_policy st = None"
    and "env_exists env dflt" and "load_policy env dflt = Inl e"
  shows "\<exists>st'. local_policy_resolve env dir dflt app st = (Inl ConfigurationError, st') \<and>
     local_policy_resolve env dir dflt app' st' = (Inl RoutingPolicyNotFoundError, st')"
  using assms load_policy_error[OF assms(8)]
  by (simp add: local_policy_resolve_def load_default_policy_def Let_def)

theorem default_policy_error_reported_once_witness:
  "\<exists>st'. local_policy_resolve (shipped_environment\<lparr>env_read := \<lambda>path. None\<rparr>) ''policies/applications''
       ''policies/default_policy.yaml'' ''other-app'' new_policy_repository = (Inl ConfigurationError, st') \<and>
     local_policy_resolve (shipped_environment\<lparr>env_read := \<lambda>path. None\<rparr>) ''policies/applications''
       ''policies/default_policy.yaml'' ''other-app'' st' = (Inl RoutingPolicyNotFoundError, st')"
  by (rule default_policy_error_reported_once[where e = ConfigurationError])
    (simp_all add: new_policy_repository_def find_application_policy_file_def policy_extensions_def
      shipped_environment_def load_policy_def load_structured_file_def)

end
