(* ===== verification/Route_Evaluation.thy ===== *)
theory Route_Evaluation
  imports Strategy Local_Config
begin

text \<open>
  \<open>src/application/route_evaluation_service.py\<close>: the routing use case.  The service's
  collaborators are the ports; the tracing spans are added in \<open>Spans\<close>.
  The theorems state that a selected model is always one the policy allows, within the policy's
  limits and the model's own, and that every decision explains itself.
\<close>

record 's route_evaluation_service =
  svc_policy_repository :: "'s routing_policy_repository"
  svc_model_catalogue :: model_catalogue
  svc_token_estimator :: token_estimator
  svc_cost_estimator :: cost_estimator
  svc_clock :: "'s clock"
  svc_identifier_generator :: "'s identifier_generator"
  svc_model_health_repository :: "'s model_health_repository option"

definition build_decision ::
  "'s route_evaluation_service \<Rightarrow> inference_request \<Rightarrow> routing_policy \<Rightarrow> str \<Rightarrow> route_selection \<Rightarrow>
   route_candidate list \<Rightarrow> routing_reason_code list \<Rightarrow> ('s, routing_decision) op" where
  "build_decision svc request policy capability selection candidates reason_codes =
     (let selected = sel_selected selection
      in bind_io (ig_new_id (svc_identifier_generator svc) ''dec'') (\<lambda>decision_id.
         bind_io (ck_now (svc_clock svc)) (\<lambda>created_at.
         return_io
           \<lparr>dec_decision_id = decision_id,
            dec_application_id = ir_application_id request,
            dec_created_at = created_at,
            dec_policy_id = pol_policy_id policy,
            dec_policy_version = pol_policy_version policy,
            dec_capability = capability,
            dec_selected_model_alias = map_option rc_model_alias selected,
            dec_provider = map_option rc_provider selected,
            dec_fallback_used = False,
            dec_reason_codes = reason_codes,
            dec_considered_candidates = candidates,
            dec_estimated_usage = map_option rc_estimated_usage selected,
            dec_estimated_cost = map_option rc_estimated_cost selected\<rparr>)))"

definition selection_codes :: "route_selection \<Rightarrow> routing_reason_code list" where
  "selection_codes selection =
     (case sel_selected selection of
        None \<Rightarrow> [NO_ELIGIBLE_MODEL]
      | Some c \<Rightarrow> sort_reason_codes (rc_reason_codes c @ sel_additional_reason_codes selection))"

definition evaluate_route ::
  "'s route_evaluation_service \<Rightarrow> inference_request \<Rightarrow> ('s, routing_decision) op" where
  "evaluate_route svc request =
     bind_io (rp_resolve (svc_policy_repository svc) (ir_application_id request)) (\<lambda>policy.
       let capability = req_capability (ir_requirements request)
       in if capability \<notin> set (pol_allowed_capabilities policy)
          then build_decision svc request policy capability no_selection []
                 [REQUIRED_CAPABILITY_UNAVAILABLE]
          else
            let effective = resolve_effective_requirements (ir_requirements request) policy;
                models = mc_find_by_capability (svc_model_catalogue svc) (eff_capability effective)
            in if models = []
               then build_decision svc request policy capability no_selection []
                      [REQUIRED_CAPABILITY_UNAVAILABLE]
               else
                 bind_io (build_route_candidates models effective policy (svc_token_estimator svc)
                            (svc_cost_estimator svc) (ir_messages request)
                            (svc_model_health_repository svc)) (\<lambda>candidates.
                 bind_io (lift_r (get_strategy (pol_routing_strategy policy)
                            (filter rc_eligible candidates) policy effective
                            \<lparr>ctx_application_id = ir_application_id request,
                             ctx_conversation_id = ir_conversation_id request\<rparr>)) (\<lambda>selection.
                 build_decision svc request policy capability selection candidates
                   (selection_codes selection))))"

section \<open>Inversion\<close>

lemma build_decision_Inr:
  assumes "build_decision svc request p cap sel cs codes s = (Inr d, s')"
  shows "dec_application_id d = ir_application_id request"
    and "dec_policy_id d = pol_policy_id p" and "dec_policy_version d = pol_policy_version p"
    and "dec_capability d = cap"
    and "dec_selected_model_alias d = map_option rc_model_alias (sel_selected sel)"
    and "dec_provider d = map_option rc_provider (sel_selected sel)"
    and "\<not> dec_fallback_used d"
    and "dec_reason_codes d = codes"
    and "dec_considered_candidates d = cs"
    and "dec_estimated_usage d = map_option rc_estimated_usage (sel_selected sel)"
    and "dec_estimated_cost d = map_option rc_estimated_cost (sel_selected sel)"
  using assms by (auto simp: build_decision_def Let_def io_inv)

lemma evaluate_route_cases [consumes 1, case_names unavailable routed]:
  assumes "evaluate_route svc request s = (Inr d, s')"
  obtains
    (unavailable) p s1 where
      "rp_resolve (svc_policy_repository svc) (ir_application_id request) s = (Inr p, s1)"
      "req_capability (ir_requirements request) \<notin> set (pol_allowed_capabilities p) \<or>
       mc_find_by_capability (svc_model_catalogue svc) (req_capability (ir_requirements request)) = []"
      "build_decision svc request p (req_capability (ir_requirements request)) no_selection []
         [REQUIRED_CAPABILITY_UNAVAILABLE] s1 = (Inr d, s')"
  | (routed) p s1 cs s2 sel where
      "rp_resolve (svc_policy_repository svc) (ir_application_id request) s = (Inr p, s1)"
      "req_capability (ir_requirements request) \<in> set (pol_allowed_capabilities p)"
      "mc_find_by_capability (svc_model_catalogue svc) (req_capability (ir_requirements request)) \<noteq> []"
      "build_route_candidates
         (mc_find_by_capability (svc_model_catalogue svc) (req_capability (ir_requirements request)))
         (resolve_effective_requirements (ir_requirements request) p) p (svc_token_estimator svc)
         (svc_cost_estimator svc) (ir_messages request) (svc_model_health_repository svc) s1
         = (Inr cs, s2)"
      "get_strategy (pol_routing_strategy p) (filter rc_eligible cs) p
         (resolve_effective_requirements (ir_requirements request) p)
         \<lparr>ctx_application_id = ir_application_id request,
          ctx_conversation_id = ir_conversation_id request\<rparr> = Inr sel"
      "build_decision svc request p (req_capability (ir_requirements request)) sel cs
         (selection_codes sel) s2 = (Inr d, s')"
proof -
  obtain p s1 where p: "rp_resolve (svc_policy_repository svc) (ir_application_id request) s = (Inr p, s1)"
    using assms by (auto simp: evaluate_route_def io_inv)
  let ?cap = "req_capability (ir_requirements request)"
  show ?thesis
  proof (cases "?cap \<notin> set (pol_allowed_capabilities p) \<or>
      mc_find_by_capability (svc_model_catalogue svc) ?cap = []")
    case True
    have "build_decision svc request p ?cap no_selection [] [REQUIRED_CAPABILITY_UNAVAILABLE] s1
        = (Inr d, s')"
      using assms p True by (cases "?cap \<in> set (pol_allowed_capabilities p)")
        (simp_all add: evaluate_route_def io_run Let_def)
    with p True show ?thesis by (rule unavailable)
  next
    case False
    with assms p show ?thesis
      by (auto simp: evaluate_route_def io_run Let_def lift_r_def io_inv intro!: routed
          split: prod.splits sum.splits)
  qed
qed

lemma selection_codes_None [simp]:
  "sel_selected sel = None \<Longrightarrow> selection_codes sel = [NO_ELIGIBLE_MODEL]"
  by (simp add: selection_codes_def)

lemma selection_codes_Some:
  "sel_selected sel = Some c \<Longrightarrow>
   set (selection_codes sel) = set (rc_reason_codes c) \<union> set (sel_additional_reason_codes sel)"
  by (simp add: selection_codes_def)

text \<open>The selected candidate of a decision: a considered candidate that is eligible.\<close>

lemma routed_selected:
  assumes "get_strategy t (filter rc_eligible cs) p r ctx = Inr sel" and "sel_selected sel = Some c"
  shows "c \<in> set cs \<and> rc_eligible c"
  using strategies.selected_satisfies[OF assms] .

section \<open>A service over the shipped configuration\<close>

record sample_world =
  sw_policies :: policy_repository_state
  sw_counter :: nat

definition sample_policies :: "'m sample_world_scheme routing_policy_repository" where
  "sample_policies =
     \<lparr>rp_resolve = (\<lambda>app. on_part sw_policies (\<lambda>p w. w\<lparr>sw_policies := p\<rparr>)
        (local_policy_resolve shipped_environment ''policies/applications''
           ''policies/default_policy.yaml'' app))\<rparr>"

definition sample_clock :: "'m sample_world_scheme clock" where
  "sample_clock = \<lparr>ck_now = (\<lambda>w. (Inr (int (sw_counter w)), w))\<rparr>"

definition sample_identifiers :: "'m sample_world_scheme identifier_generator" where
  "sample_identifiers =
     \<lparr>ig_new_id = (\<lambda>prefix w. (Inr (prefix @ ''_'' @ replicate (sw_counter w) (CHR ''x'')),
                               w\<lparr>sw_counter := Suc (sw_counter w)\<rparr>))\<rparr>"

definition sample_service :: "'m sample_world_scheme route_evaluation_service" where
  "sample_service =
     \<lparr>svc_policy_repository = sample_policies, svc_model_catalogue = shipped_catalogue,
      svc_token_estimator = default_token_estimator 4, svc_cost_estimator = default_cost_estimator,
      svc_clock = sample_clock, svc_identifier_generator = sample_identifiers,
      svc_model_health_repository = None\<rparr>"

definition sample_start :: sample_world where
  "sample_start = \<lparr>sw_policies = new_policy_repository, sw_counter = 0\<rparr>"

definition sample_candidates :: "route_candidate list" where
  "sample_candidates = [sample_primary, sample_secondary, sample_openai]"

definition sample_decision :: "str \<Rightarrow> int \<Rightarrow> routing_decision" where
  "sample_decision decision_id created_at =
     \<lparr>dec_decision_id = decision_id, dec_application_id = ''support-assistant'', dec_created_at = created_at,
      dec_policy_id = ''support-assistant-default'', dec_policy_version = 3,
      dec_capability = ''balanced-text'', dec_selected_model_alias = Some ''balanced-text-primary'',
      dec_provider = Some Provider_BEDROCK, dec_fallback_used = False,
      dec_reason_codes = sort_reason_codes (eligible_codes @ [LOWEST_ESTIMATED_COST]),
      dec_considered_candidates = sample_candidates,
      dec_estimated_usage = Some \<lparr>us_input_tokens = 5, us_output_tokens = 200\<rparr>,
      dec_estimated_cost = Some \<lparr>ec_amount_usd = Dec 3015 (- 6)\<rparr>\<rparr>"

definition sample_resolved :: sample_world where
  "sample_resolved =
     \<lparr>sw_policies = new_policy_repository\<lparr>prs_cache := [''support-assistant'' \<mapsto> support_assistant_policy]\<rparr>,
      sw_counter = 0\<rparr>"

lemma support_policy_validates: "validate_routing_policy support_assistant_policy = Inr support_assistant_policy"
  using shipped_policies_ok(4) by (simp add: policy_ok_def)

lemma sample_resolve_from:
  "sw_policies w = new_policy_repository \<Longrightarrow>
   rp_resolve sample_policies ''support-assistant'' w =
     (Inr support_assistant_policy, w\<lparr>sw_policies := new_policy_repository
        \<lparr>prs_cache := [''support-assistant'' \<mapsto> support_assistant_policy]\<rparr>\<rparr>)"
  by (simp add: sample_policies_def io_run local_policy_resolve_def
      new_policy_repository_def find_application_policy_file_def policy_extensions_def
      shipped_environment_def load_policy_def load_structured_file_def
      path_suffix_def path_name_def raw_get_def support_policy_validates)

lemma sample_resolve:
  "rp_resolve sample_policies ''support-assistant'' sample_start = (Inr support_assistant_policy, sample_resolved)"
  using sample_resolve_from[of sample_start] by (simp add: sample_start_def sample_resolved_def)

lemma sample_resolve_cached:
  assumes "prs_cache (sw_policies w) ''support-assistant'' = Some p"
  shows "rp_resolve sample_policies ''support-assistant'' w = (Inr p, w)"
  using assms by (simp add: sample_policies_def io_run local_policy_resolve_def)

lemma sample_candidate_simps [simp]:
  "rc_model_alias (sample_candidate a pr el codes k) = a"
  "rc_provider (sample_candidate a pr el codes k) = pr"
  "rc_eligible (sample_candidate a pr el codes k) = el"
  "rc_reason_codes (sample_candidate a pr el codes k) = codes"
  "rc_estimated_usage (sample_candidate a pr el codes k) = \<lparr>us_input_tokens = 5, us_output_tokens = 200\<rparr>"
  "rc_estimated_cost (sample_candidate a pr el codes k) = \<lparr>ec_amount_usd = Dec k (- 6)\<rparr>"
  by (simp_all add: sample_candidate_def)

lemma sample_models:
  "mc_find_by_capability shipped_catalogue ''balanced-text'' =
     [balanced_text_primary, balanced_text_secondary, balanced_text_openai]"
  by (simp add: shipped_catalogue_def models_by_capability_def shipped_models_def)
    (simp add: shipped_model_defs)

lemma sample_build:
  "build_route_candidates [balanced_text_primary, balanced_text_secondary, balanced_text_openai]
     sample_effective support_assistant_policy (default_token_estimator 4) default_cost_estimator
     (ir_messages (sample_request app key)) None s = (Inr sample_candidates, s)"
  by (simp add: build_route_candidates_def candidate_health_def io_run sample_evaluations sample_candidates_def)

lemma sample_select:
  "lowest_cost_select [sample_primary, sample_secondary] p r ctx =
     Inr \<lparr>sel_selected = Some sample_primary, sel_additional_reason_codes = [LOWEST_ESTIMATED_COST]\<rparr>"
  by (simp add: lowest_cost_select_def cost_key_def less_prod_def)

lemma sample_eligible: "filter rc_eligible sample_candidates = [sample_primary, sample_secondary]"
  by (simp add: sample_candidates_def)

lemma sample_request_simps [simp]:
  "ir_application_id (sample_request app key) = app"
  "ir_requirements (sample_request app key) = balanced_requirements"
  "ir_idempotency_key (sample_request app key) = key"
  "ir_conversation_id (sample_request app key) = Some ''conv-1''"
  "req_capability balanced_requirements = ''balanced-text''"
  by (simp_all add: sample_request_def balanced_requirements_def)

lemma support_policy_simps [simp]:
  "pol_allowed_capabilities support_assistant_policy = [''economical-text'', ''balanced-text'']"
  "pol_routing_strategy support_assistant_policy = Strategy_LOWEST_COST"
  "pol_policy_id support_assistant_policy = ''support-assistant-default''"
  "pol_policy_version support_assistant_policy = 3"
  "pol_fallback_policy support_assistant_policy =
     \<lparr>fb_fallback_model_aliases = [''balanced-text-secondary''], fb_maximum_attempts = 2\<rparr>"
  by (simp_all add: support_assistant_policy_def)

lemma sample_evaluate_from:
  assumes "rp_resolve sample_policies ''support-assistant'' w = (Inr support_assistant_policy, w1)"
  shows "evaluate_route sample_service (sample_request ''support-assistant'' key) w =
    (Inr (sample_decision (''dec_'' @ replicate (sw_counter w1) (CHR ''x'')) (int (Suc (sw_counter w1)))),
     w1\<lparr>sw_counter := Suc (sw_counter w1)\<rparr>)"
  by (simp add: evaluate_route_def sample_service_def io_run assms sample_models
      sample_build sample_select sample_eligible Let_def build_decision_def sample_clock_def
      sample_identifiers_def selection_codes_def sample_decision_def sample_effective_def[symmetric])

lemmas sample_evaluate = sample_evaluate_from[OF sample_resolve]

section \<open>Properties of a decision\<close>

lemma eligible_within:
  assumes "evaluate_candidate m (resolve_effective_requirements r p) p te ce msgs h = Inr c" and "rc_eligible c"
  shows "rc_model_alias c = md_model_alias m" and "md_model_alias m \<in> set (pol_allowed_model_aliases p)"
    and "req_capability r \<in> set (cap_capability_tags (md_capabilities m))"
    and "dec_val (ec_amount_usd (rc_estimated_cost c)) \<le> dec_val (pol_maximum_estimated_cost_usd p)"
    and "policy_ok p \<Longrightarrow> cap_quality_tier (md_capabilities m) \<in> set (pol_allowed_quality_tiers p)"
    and "us_input_tokens (rc_estimated_usage c) \<le> cap_max_input_tokens (md_capabilities m)"
    and "us_output_tokens (rc_estimated_usage c) \<le> cap_max_output_tokens (md_capabilities m)"
proof -
  note e = evaluate_candidate_Inr(5)[OF assms(1), THEN iffD1, OF assms(2)]
  show "rc_model_alias c = md_model_alias m" using evaluate_candidate_Inr(1)[OF assms(1)] .
  show "md_model_alias m \<in> set (pol_allowed_model_aliases p)"
    "req_capability r \<in> set (cap_capability_tags (md_capabilities m))"
    using e by (auto simp: capability_matched_def)
  show "dec_val (ec_amount_usd (rc_estimated_cost c)) \<le> dec_val (pol_maximum_estimated_cost_usd p)"
    using e resolve_cost_le[of r p] by (auto simp: within_cost_limit_def)
  show "policy_ok p \<Longrightarrow> cap_quality_tier (md_capabilities m) \<in> set (pol_allowed_quality_tiers p)"
    using e resolve_tier_allowed[of p r] by simp
  show "us_input_tokens (rc_estimated_usage c) \<le> cap_max_input_tokens (md_capabilities m)"
    "us_output_tokens (rc_estimated_usage c) \<le> cap_max_output_tokens (md_capabilities m)"
    using e by (auto simp: token_limit_exceeded_def)
qed

text \<open>
  C1. A model is selected only if the resolved policy allows the capability, the model and its
  quality tier, the catalogue offers it for that capability, its estimated cost is within the
  policy's limit, and the estimated tokens are within the model's own limits; and the decision
  carries that model's provider, usage and cost.
\<close>

theorem selected_model_within_policy:
  assumes "evaluate_route svc request s = (Inr d, s')"
    and "rp_resolve (svc_policy_repository svc) (ir_application_id request) s = (Inr p, s1)"
    and "policy_ok p" and "dec_selected_model_alias d = Some a"
  shows "req_capability (ir_requirements request) \<in> set (pol_allowed_capabilities p) \<and>
    a \<in> set (pol_allowed_model_aliases p) \<and>
    (\<exists>m cost u. m \<in> set (mc_find_by_capability (svc_model_catalogue svc) (req_capability (ir_requirements request))) \<and>
       md_model_alias m = a \<and> dec_provider d = Some (md_provider m) \<and>
       cap_quality_tier (md_capabilities m) \<in> set (pol_allowed_quality_tiers p) \<and>
       dec_estimated_cost d = Some cost \<and> dec_estimated_usage d = Some u \<and>
       dec_val (ec_amount_usd cost) \<le> dec_val (pol_maximum_estimated_cost_usd p) \<and>
       us_input_tokens u \<le> cap_max_input_tokens (md_capabilities m) \<and>
       us_output_tokens u \<le> cap_max_output_tokens (md_capabilities m))"
  using assms(1)
proof (cases rule: evaluate_route_cases)
  case (unavailable q s2)
  then show ?thesis using assms(4) build_decision_Inr(5)[OF unavailable(3)] by (simp add: no_selection_def)
next
  case (routed q s2 cs s3 sel)
  note dec = build_decision_Inr[OF routed(6)]
  have q: "q = p" using routed(1) assms(2) by simp
  obtain c where c: "sel_selected sel = Some c" "rc_model_alias c = a" using dec(5) assms(4)
    by (cases "sel_selected sel") simp_all
  have el: "c \<in> set cs" "rc_eligible c" using routed_selected[OF routed(5) c(1)] by auto
  obtain m h where m: "m \<in> set (mc_find_by_capability (svc_model_catalogue svc) (req_capability (ir_requirements request)))"
    "evaluate_candidate m (resolve_effective_requirements (ir_requirements request) q) q
       (svc_token_estimator svc) (svc_cost_estimator svc) (ir_messages request) h = Inr c"
    using build_route_candidates_member[OF routed(4) el(1)] by blast
  note w = eligible_within[OF m(2) el(2)]
  show ?thesis
    using m(1) w assms(3) routed(2) c dec(6,10,11) evaluate_candidate_Inr(2)[OF m(2)] unfolding q by auto
qed

text \<open>
  C8. Every decision explains itself: it lists every catalogue model for the capability, in the
  catalogue's order; with no model selected its one reason code is
  \<open>REQUIRED_CAPABILITY_UNAVAILABLE\<close> exactly when the policy or the catalogue lacks the
  capability, and \<open>NO_ELIGIBLE_MODEL\<close> otherwise; with a model selected the codes state the
  match, the permission and the cost check and neither of those two.
\<close>

theorem decision_explains_itself:
  assumes "evaluate_route svc request s = (Inr d, s')"
    and "rp_resolve (svc_policy_repository svc) (ir_application_id request) s = (Inr p, s1)"
  defines "cap \<equiv> req_capability (ir_requirements request)"
  defines "models \<equiv> mc_find_by_capability (svc_model_catalogue svc) cap"
  shows "(dec_reason_codes d = [REQUIRED_CAPABILITY_UNAVAILABLE] \<longleftrightarrow>
       cap \<notin> set (pol_allowed_capabilities p) \<or> models = []) \<and>
    (if cap \<notin> set (pol_allowed_capabilities p) \<or> models = []
     then dec_selected_model_alias d = None \<and> dec_considered_candidates d = []
     else map rc_model_alias (dec_considered_candidates d) = map md_model_alias models \<and>
       (case dec_selected_model_alias d of
          None \<Rightarrow> dec_reason_codes d = [NO_ELIGIBLE_MODEL]
        | Some a \<Rightarrow> {CAPABILITY_MATCH, MODEL_ALLOWED, QUALITY_TIER_MATCH, WITHIN_COST_LIMIT}
                      \<subseteq> set (dec_reason_codes d) \<and>
            {NO_ELIGIBLE_MODEL, REQUIRED_CAPABILITY_UNAVAILABLE} \<inter> set (dec_reason_codes d) = {}))"
  using assms(1)
proof (cases rule: evaluate_route_cases)
  case (unavailable q s2)
  then show ?thesis
    using assms(2) build_decision_Inr(5,8,9)[OF unavailable(3)]
    by (auto simp: no_selection_def cap_def models_def)
next
  case (routed q s2 cs s3 sel)
  note dec = build_decision_Inr[OF routed(6)]
  have q: "q = p" using routed(1) assms(2) by simp
  have cs: "map rc_model_alias cs = map md_model_alias models"
    unfolding models_def cap_def by (rule build_route_candidates_aliases[OF routed(4)])
  show ?thesis
  proof (cases "sel_selected sel")
    case None
    then show ?thesis
      using dec(5,8,9) cs routed(2,3) by (simp add: q cap_def models_def)
  next
    case (Some c)
    have el: "c \<in> set cs" "rc_eligible c" using routed_selected[OF routed(5) Some] by auto
    obtain m h where m: "evaluate_candidate m (resolve_effective_requirements (ir_requirements request) q) q
       (svc_token_estimator svc) (svc_cost_estimator svc) (ir_messages request) h = Inr c"
      using build_route_candidates_member[OF routed(4) el(1)] by blast
    have codes: "set (dec_reason_codes d) = set (rc_reason_codes c) \<union> set (sel_additional_reason_codes sel)"
      using dec(8) selection_codes_Some[OF Some] by simp
    have extra: "set (sel_additional_reason_codes sel) \<subseteq> {LOWEST_ESTIMATED_COST, EXPERIMENT_ROUTE_SELECTED}"
      using strategy_additional_codes[OF routed(5)] .
    have "{CAPABILITY_MATCH, MODEL_ALLOWED, QUALITY_TIER_MATCH, WITHIN_COST_LIMIT} \<subseteq> set (dec_reason_codes d)"
      "{NO_ELIGIBLE_MODEL, REQUIRED_CAPABILITY_UNAVAILABLE} \<inter> set (dec_reason_codes d) = {}"
      using evaluate_candidate_Inr(5)[OF m] el(2) extra unfolding codes evaluate_candidate_codes[OF m]
      by (auto split: if_splits)
    then show ?thesis
      using Some dec(5,9) cs routed(2,3) by (auto simp: q cap_def models_def)
  qed
qed

theorem selected_model_within_policy_witness:
  "\<exists>d s'. evaluate_route sample_service (sample_request ''support-assistant'' None) sample_start = (Inr d, s') \<and>
     dec_selected_model_alias d = Some ''balanced-text-primary'' \<and>
     ''balanced-text-primary'' \<in> set (pol_allowed_model_aliases support_assistant_policy)"
proof -
  let ?d = "sample_decision (''dec_'' @ replicate (sw_counter sample_resolved) (CHR ''x''))
    (int (Suc (sw_counter sample_resolved)))"
  have sel: "dec_selected_model_alias ?d = Some ''balanced-text-primary''" by (simp add: sample_decision_def)
  have r: "rp_resolve (svc_policy_repository sample_service)
      (ir_application_id (sample_request ''support-assistant'' None)) sample_start
      = (Inr support_assistant_policy, sample_resolved)"
    by (simp add: sample_service_def sample_resolve)
  from selected_model_within_policy[OF sample_evaluate r shipped_policies_ok(4) sel]
  have "''balanced-text-primary'' \<in> set (pol_allowed_model_aliases support_assistant_policy)" by blast
  with sample_evaluate sel show ?thesis by blast
qed

theorem decision_explains_itself_witness:
  "\<exists>d s'. evaluate_route sample_service (sample_request ''support-assistant'' None) sample_start = (Inr d, s') \<and>
     map rc_model_alias (dec_considered_candidates d) =
       map md_model_alias [balanced_text_primary, balanced_text_secondary, balanced_text_openai] \<and>
     WITHIN_COST_LIMIT \<in> set (dec_reason_codes d)"
proof -
  obtain d s' where d: "evaluate_route sample_service (sample_request ''support-assistant'' None) sample_start = (Inr d, s')"
    "dec_selected_model_alias d = Some ''balanced-text-primary''"
    using sample_evaluate[of None] by (simp add: sample_decision_def)
  have r: "rp_resolve (svc_policy_repository sample_service)
      (ir_application_id (sample_request ''support-assistant'' None)) sample_start
      = (Inr support_assistant_policy, sample_resolved)"
    by (simp add: sample_service_def sample_resolve)
  have m: "mc_find_by_capability (svc_model_catalogue sample_service) ''balanced-text'' =
      [balanced_text_primary, balanced_text_secondary, balanced_text_openai]"
    by (simp add: sample_service_def sample_models)
  show ?thesis
    using decision_explains_itself[OF d(1) r] d by (simp add: m del: list.map)
qed

end
