(* ===== verification/Request_Hash.thy ===== *)
theory Request_Hash
  imports Shipped_Config Sha256
begin

text \<open>
  \<open>compute_request_hash\<close> of \<open>src/domain/idempotency.py\<close>: the canonical JSON text of the
  meaningful part of a request, hashed.  \<open>json.dumps(..., sort_keys=True, separators=(",", ":"))\<close>
  escapes everything outside printable ASCII; a \<open>Decimal\<close> is dumped by pydantic as its text.
  That the text identifies the content it was made from is shown in \<open>Json_Text\<close>.
\<close>

section \<open>Numbers as text\<close>

fun nat_str :: "nat \<Rightarrow> str" where
  "nat_str n =
     (if n < 10 then [char_of (48 + n)] else nat_str (n div 10) @ [char_of (48 + n mod 10)])"

declare nat_str.simps [simp del]

definition int_str :: "int \<Rightarrow> str" where
  "int_str i = (if i < 0 then CHR ''-'' # nat_str (nat (- i)) else nat_str (nat i))"

text \<open>\<open>str(Decimal)\<close>: plain notation where the exponent allows, scientific otherwise.\<close>

definition decimal_str :: "decimal \<Rightarrow> str" where
  "decimal_str d =
     (let digits = nat_str (nat \<bar>coeff d\<bar>);
          sign = (if coeff d < 0 then ''-'' else []);
          left = expo d + int (length digits);
          dot = (if expo d \<le> 0 \<and> - 6 < left then left else 1);
          whole = (if dot \<le> 0 then ''0''
                   else if int (length digits) \<le> dot
                   then digits @ replicate (nat (dot - int (length digits))) (CHR ''0'')
                   else take (nat dot) digits);
          frac = (if dot \<le> 0 then CHR ''.'' # replicate (nat (- dot)) (CHR ''0'') @ digits
                  else if int (length digits) \<le> dot then []
                  else CHR ''.'' # drop (nat dot) digits);
          power = (if left = dot then []
                   else ''E'' @ (if 0 \<le> left - dot then ''+'' else []) @ int_str (left - dot))
      in sign @ whole @ frac @ power)"

text \<open>
  \<open>!r\<close>: Python's \<open>repr\<close> of a string, in the quotes that need no escape where possible.
\<close>

definition repr_char :: "char \<Rightarrow> char \<Rightarrow> str" where
  "repr_char quote c =
     (let n = (of_char c :: int)
      in if c = quote \<or> n = 92 then [CHR 0x5C, c]
         else if n = 9 then [CHR 0x5C, CHR ''t'']
         else if n = 10 then [CHR 0x5C, CHR ''n'']
         else if n = 13 then [CHR 0x5C, CHR ''r'']
         else if n < 32 \<or> 127 \<le> n \<and> n \<le> 160 \<or> n = 173 then [CHR 0x5C, CHR ''x''] @ hex_byte n
         else [c])"

definition py_repr :: "str \<Rightarrow> str" where
  "py_repr s =
     (let quote = (if CHR 0x27 \<in> set s \<and> CHR 0x22 \<notin> set s then CHR 0x22 else CHR 0x27)
      in [quote] @ concat (map (repr_char quote) s) @ [quote])"

section \<open>JSON\<close>

datatype json =
  J_Null | J_Bool bool | J_Int int | J_Str str | J_Arr "json list" | J_Obj "(str \<times> json) list"

definition escape_char :: "char \<Rightarrow> str" where
  "escape_char c =
     (let n = (of_char c :: int)
      in if n = 34 then [CHR 0x5C, CHR 0x22]
         else if n = 92 then [CHR 0x5C, CHR 0x5C]
         else if n = 10 then [CHR 0x5C, CHR ''n'']
         else if n = 13 then [CHR 0x5C, CHR ''r'']
         else if n = 9 then [CHR 0x5C, CHR ''t'']
         else if n = 12 then [CHR 0x5C, CHR ''f'']
         else if n = 8 then [CHR 0x5C, CHR ''b'']
         else if 32 \<le> n \<and> n \<le> 126 then [c]
         else [CHR 0x5C, CHR ''u'', CHR ''0'', CHR ''0''] @ hex_byte n)"

definition json_string :: "str \<Rightarrow> str" where
  "json_string s = [CHR 0x22] @ concat (map escape_char s) @ [CHR 0x22]"

fun json_dumps :: "json \<Rightarrow> str" where
  "json_dumps J_Null = ''null''"
| "json_dumps (J_Bool b) = (if b then ''true'' else ''false'')"
| "json_dumps (J_Int i) = int_str i"
| "json_dumps (J_Str s) = json_string s"
| "json_dumps (J_Arr xs) = ''['' @ str_join '','' (map json_dumps xs) @ '']''"
| "json_dumps (J_Obj kvs) =
     ''{'' @ str_join '','' (map (\<lambda>kv. json_string (fst kv) @ '':'' @ snd kv)
       (sort_key fst (map (\<lambda>kv. (fst kv, json_dumps (snd kv))) kvs))) @ ''}''"

section \<open>The payload\<close>

definition opt_json :: "('a \<Rightarrow> json) \<Rightarrow> 'a option \<Rightarrow> json" where
  "opt_json f x = (case x of None \<Rightarrow> J_Null | Some a \<Rightarrow> f a)"

definition requirements_json :: "routing_requirements \<Rightarrow> json" where
  "requirements_json r = J_Obj
     [(''capability'', J_Str (req_capability r)),
      (''quality_tier'', opt_json (\<lambda>t. J_Str (quality_tier_value t)) (req_quality_tier r)),
      (''maximum_estimated_cost_usd'',
         opt_json (\<lambda>d. J_Str (decimal_str d)) (req_maximum_estimated_cost_usd r)),
      (''maximum_output_tokens'', opt_json J_Int (req_maximum_output_tokens r)),
      (''latency_preference'',
         opt_json (\<lambda>l. J_Str (latency_preference_value l)) (req_latency_preference r)),
      (''requires_tool_use'', J_Bool (req_requires_tool_use r)),
      (''requires_structured_output'', J_Bool (req_requires_structured_output r))]"

definition message_json :: "message \<Rightarrow> json" where
  "message_json m =
     J_Obj [(''role'', J_Str (role_value (msg_role m))), (''content'', J_Str (msg_content m))]"

definition request_payload :: "inference_request \<Rightarrow> json" where
  "request_payload request = J_Obj
     [(''application_id'', J_Str (ir_application_id request)),
      (''messages'', J_Arr (map message_json (ir_messages request))),
      (''requirements'', requirements_json (ir_requirements request))]"

definition canonical_text :: "inference_request \<Rightarrow> str" where
  "canonical_text request = json_dumps (request_payload request)"

definition compute_request_hash :: "inference_request \<Rightarrow> str" where
  "compute_request_hash request = sha256_hexdigest (canonical_text request)"

end
