(* ===== verification/Model_Health.thy ===== *)
theory Model_Health
  imports Ports
begin

text \<open>
  \<open>src/adapters/memory/in_memory_model_health_repository.py\<close>: health from a per-model counter
  of consecutive failures.  The counter refines the history of outcomes: a model's health is a
  function of the outcomes since its last success.  Every method holds the repository's lock, so
  each is one atomic step.
\<close>

record health_repository =
  hr_degraded_after :: int
  hr_unavailable_after :: int

type_synonym health_state = "str \<rightharpoonup> int"

definition new_health_repository :: "int \<Rightarrow> int \<Rightarrow> (health_repository \<times> health_state) result" where
  "new_health_repository degraded_after unavailable_after =
     (if degraded_after < 1 \<or> unavailable_after \<le> degraded_after then Inl Value_Error
      else Inr (\<lparr>hr_degraded_after = degraded_after, hr_unavailable_after = unavailable_after\<rparr>, Map.empty))"

definition health_affecting_statuses :: "invocation_attempt_status list" where
  "health_affecting_statuses = [Attempt_THROTTLED, Attempt_TRANSIENT_ERROR, Attempt_TIMEOUT]"

definition consecutive_failures :: "health_state \<Rightarrow> str \<Rightarrow> int" where
  "consecutive_failures st alias = (case st alias of None \<Rightarrow> 0 | Some n \<Rightarrow> n)"

definition health_of_count :: "health_repository \<Rightarrow> int \<Rightarrow> model_health_status" where
  "health_of_count cfg failures =
     (if hr_unavailable_after cfg \<le> failures then Health_UNAVAILABLE
      else if hr_degraded_after cfg \<le> failures then Health_DEGRADED
      else Health_HEALTHY)"

definition get_health :: "health_repository \<Rightarrow> str \<Rightarrow> (health_state, model_health_status) op" where
  "get_health cfg model_alias = (\<lambda>st. (Inr (health_of_count cfg (consecutive_failures st model_alias)), st))"

definition record_outcome :: "str \<Rightarrow> invocation_attempt_status \<Rightarrow> (health_state, unit) op" where
  "record_outcome model_alias status = (\<lambda>st.
     if status = Attempt_SUCCEEDED then (Inr (), st(model_alias \<mapsto> 0))
     else if status \<in> set health_affecting_statuses
     then (Inr (), st(model_alias \<mapsto> consecutive_failures st model_alias + 1))
     else (Inr (), st))"

definition in_memory_model_health :: "health_repository \<Rightarrow> health_state model_health_repository" where
  "in_memory_model_health cfg = \<lparr>mh_get_health = get_health cfg, mh_record_outcome = record_outcome\<rparr>"

section \<open>The contract of a health repository\<close>

text \<open>
  What routing relies on: looking never changes anything, a success heals, a permanent failure of
  one request says nothing about the model, and models do not affect each other.
\<close>

locale health_contract =
  fixes get :: "str \<Rightarrow> ('s, model_health_status) op"
    and rec :: "str \<Rightarrow> invocation_attempt_status \<Rightarrow> ('s, unit) op"
    and status_of :: "'s \<Rightarrow> str \<Rightarrow> model_health_status"
  assumes get_reads: "get a s = (Inr (status_of s a), s)"
    and rec_total: "\<exists>s'. rec a st s = (Inr (), s')"
    and rec_success: "rec a Attempt_SUCCEEDED s = (r, s') \<Longrightarrow> status_of s' a = Health_HEALTHY"
    and rec_permanent: "rec a Attempt_NON_RETRYABLE_ERROR s = (r, s') \<Longrightarrow> status_of s' = status_of s"
    and rec_other: "rec a st s = (r, s') \<Longrightarrow> b \<noteq> a \<Longrightarrow> status_of s' b = status_of s b"
begin

fun rec_all :: "(str \<times> invocation_attempt_status) list \<Rightarrow> 's \<Rightarrow> 's" where
  "rec_all [] s = s"
| "rec_all ((a, st) # hs) s = rec_all hs (snd (rec a st s))"

lemma rec_all_other: "a \<notin> fst ` set hs \<Longrightarrow> status_of (rec_all hs s) a = status_of s a"
proof (induction hs s rule: rec_all.induct)
  case (2 b st hs s)
  obtain r s' where "rec b st s = (r, s')" by fastforce
  then show ?case using 2 rec_other[of b st s r s' a] by simp
qed simp

lemma rec_all_append: "rec_all (hs @ hs') s = rec_all hs' (rec_all hs s)"
  by (induction hs s rule: rec_all.induct) auto

lemma healed_by_last_success:
  assumes "a \<notin> fst ` set hs'"
  shows "status_of (rec_all (hs @ (a, Attempt_SUCCEEDED) # hs') s) a = Health_HEALTHY"
proof -
  let ?t = "rec_all hs s"
  obtain r s' where r: "rec a Attempt_SUCCEEDED ?t = (r, s')" by fastforce
  then show ?thesis
    using rec_success[OF r] rec_all_other[OF assms, of s'] by (simp add: rec_all_append)
qed

end

section \<open>The counter refines the history\<close>

text \<open>The specification: failures that affect health, among a model's outcomes since its last success.\<close>

definition trailing_failures :: "(str \<times> invocation_attempt_status) list \<Rightarrow> str \<Rightarrow> int" where
  "trailing_failures history alias =
     int (length (filter (\<lambda>st. st \<in> set health_affecting_statuses)
       (takeWhile (\<lambda>st. st \<noteq> Attempt_SUCCEEDED)
         (rev (map snd (filter (\<lambda>h. fst h = alias) history))))))"

definition record_all :: "(str \<times> invocation_attempt_status) list \<Rightarrow> health_state \<Rightarrow> health_state" where
  "record_all history st = foldl (\<lambda>st h. snd (record_outcome (fst h) (snd h) st)) st history"

lemma consecutive_failures_upd [simp]:
  "consecutive_failures (st(a \<mapsto> n)) b = (if b = a then n else consecutive_failures st b)"
  by (simp add: consecutive_failures_def)

lemma consecutive_failures_record:
  "consecutive_failures (snd (record_outcome a status st)) b =
     (if b \<noteq> a then consecutive_failures st b
      else if status = Attempt_SUCCEEDED then 0
      else if status \<in> set health_affecting_statuses then consecutive_failures st b + 1
      else consecutive_failures st b)"
  by (auto simp: record_outcome_def)

lemma trailing_failures_snoc:
  "trailing_failures (hs @ [(a, status)]) b =
     (if b \<noteq> a then trailing_failures hs b
      else if status = Attempt_SUCCEEDED then 0
      else if status \<in> set health_affecting_statuses then trailing_failures hs b + 1
      else trailing_failures hs b)"
  by (simp add: trailing_failures_def)

lemma record_all_refines: "consecutive_failures (record_all hs Map.empty) a = trailing_failures hs a"
proof (induction hs rule: rev_induct)
  case Nil
  then show ?case by (simp add: record_all_def trailing_failures_def consecutive_failures_def)
next
  case (snoc h hs)
  obtain b st where h: "h = (b, st)" by fastforce
  have "record_all (hs @ [h]) Map.empty = snd (record_outcome b st (record_all hs Map.empty))"
    by (simp add: record_all_def h)
  then show ?case
    by (simp only: consecutive_failures_record trailing_failures_snoc h snoc.IH)
qed

lemma memory_health_contract:
  assumes "0 < hr_degraded_after cfg" and "hr_degraded_after cfg < hr_unavailable_after cfg"
  shows "health_contract (get_health cfg) record_outcome
    (\<lambda>st a. health_of_count cfg (consecutive_failures st a))"
  using assms
  by unfold_locales (auto simp: get_health_def record_outcome_def health_of_count_def
      health_affecting_statuses_def split: if_splits)

text \<open>The thresholds the class defaults to.\<close>

definition default_health :: health_repository where
  "default_health = \<lparr>hr_degraded_after = 3, hr_unavailable_after = 5\<rparr>"

interpretation memory_health: health_contract "get_health default_health" record_outcome
  "\<lambda>st a. health_of_count default_health (consecutive_failures st a)"
  by (rule memory_health_contract) (simp_all add: default_health_def)

text \<open>
  C33. The health a model is reported with is a function of its own outcomes since its last
  success: unavailable from \<open>unavailable_after\<close> throttled, transient or timed-out attempts on,
  degraded from \<open>degraded_after\<close> on, and healthy otherwise; permanent errors and other models'
  outcomes do not count.
\<close>

theorem health_reflects_history:
  assumes "new_health_repository d u = Inr (cfg, st0)"
  shows "get_health cfg a (record_all hs st0) =
    (Inr (if u \<le> trailing_failures hs a then Health_UNAVAILABLE
          else if d \<le> trailing_failures hs a then Health_DEGRADED else Health_HEALTHY),
     record_all hs st0)"
proof -
  have "st0 = Map.empty" "cfg = \<lparr>hr_degraded_after = d, hr_unavailable_after = u\<rparr>"
    using assms by (auto simp: new_health_repository_def split: if_splits)
  then show ?thesis by (simp add: get_health_def health_of_count_def record_all_refines)
qed

theorem health_reflects_history_witness:
  "\<exists>cfg st0. new_health_repository 3 5 = Inr (cfg, st0) \<and>
     fst (get_health cfg ''m'' (record_all
       [(''m'', Attempt_SUCCEEDED), (''m'', Attempt_THROTTLED), (''n'', Attempt_SUCCEEDED),
        (''m'', Attempt_NON_RETRYABLE_ERROR), (''m'', Attempt_TIMEOUT), (''m'', Attempt_THROTTLED)] st0))
     = Inr Health_DEGRADED"
proof -
  obtain cfg st0 where n: "new_health_repository 3 5 = Inr (cfg, st0)"
    by (simp add: new_health_repository_def)
  show ?thesis
    using n health_reflects_history[OF n, of "''m''"]
    by (auto simp: trailing_failures_def health_affecting_statuses_def)
qed

text \<open>
  Recovery: whatever happened before, once a model's attempt succeeds and until its next
  outcome it is healthy, whatever other models do in between.
\<close>

theorem health_recovers:
  assumes "new_health_repository d u = Inr (cfg, st0)" and "a \<notin> fst ` set hs'"
  shows "fst (get_health cfg a (record_all (hs @ (a, Attempt_SUCCEEDED) # hs') st)) = Inr Health_HEALTHY"
proof -
  have cfg: "0 < hr_degraded_after cfg" "hr_degraded_after cfg < hr_unavailable_after cfg"
    using assms(1) by (auto simp: new_health_repository_def split: if_splits)
  have "health_contract.rec_all record_outcome hs s = record_all hs s" for hs s
    by (induction hs arbitrary: s)
      (auto simp: record_all_def health_contract.rec_all.simps[OF memory_health_contract[OF cfg]])
  then show ?thesis
    using health_contract.healed_by_last_success[OF memory_health_contract[OF cfg] assms(2), of hs st]
    by (simp add: get_health_def)
qed

theorem health_recovers_witness:
  "\<exists>cfg st0. new_health_repository 3 5 = Inr (cfg, st0) \<and>
     fst (get_health cfg ''m'' (record_all (replicate 9 (''m'', Attempt_TIMEOUT) @
       (''m'', Attempt_SUCCEEDED) # [(''n'', Attempt_TIMEOUT)]) st0)) = Inr Health_HEALTHY"
proof -
  obtain cfg st0 where n: "new_health_repository 3 5 = Inr (cfg, st0)"
    by (simp add: new_health_repository_def)
  then show ?thesis using health_recovers[OF n, of "''m''" "[(''n'', Attempt_TIMEOUT)]"] by auto
qed

end
