(* ===== verification/Orchestrator.thy ===== *)
theory Orchestrator
  imports Route_Evaluation Request_Hash Model_Health
begin

text \<open>
  \<open>src/application/invocation_orchestrator.py\<close>, the non-streaming path: candidate chain,
  attempts with fallback, aggregation of the final decision, persistence, metrics and events, and
  idempotency around all of it.  Tracing spans are added in \<open>Spans\<close>.
\<close>

record 's orchestrator =
  orc_route_evaluation_service :: "'s route_evaluation_service"
  orc_policy_repository :: "'s routing_policy_repository"
  orc_model_provider :: "'s model_provider"
  orc_idempotency_store :: "'s idempotency_store option"
  orc_decision_repository :: "'s routing_decision_repository option"
  orc_model_health_repository :: "'s model_health_repository option"
  orc_metrics_publisher :: "'s metrics_publisher option"
  orc_decision_event_publisher :: "'s decision_event_publisher option"
  orc_monotonic :: "('s, rat) op"

section \<open>The candidate chain\<close>

definition eligible_aliases :: "routing_decision \<Rightarrow> str list" where
  "eligible_aliases decision =
     map rc_model_alias (filter rc_eligible (dec_considered_candidates decision))"

fun extend_chain :: "int \<Rightarrow> str list \<Rightarrow> str list \<Rightarrow> str list \<Rightarrow> str list" where
  "extend_chain maximum_attempts eligible chain [] = chain"
| "extend_chain maximum_attempts eligible chain (alias # aliases) =
     (if maximum_attempts \<le> int (length chain) then chain
      else if alias \<in> set eligible \<and> alias \<notin> set chain
      then extend_chain maximum_attempts eligible (chain @ [alias]) aliases
      else extend_chain maximum_attempts eligible chain aliases)"

definition build_candidate_chain :: "routing_decision \<Rightarrow> fallback_policy \<Rightarrow> str list" where
  "build_candidate_chain decision fallback =
     extend_chain (fb_maximum_attempts fallback) (eligible_aliases decision)
       (case dec_selected_model_alias decision of None \<Rightarrow> [] | Some a \<Rightarrow> [a])
       (fb_fallback_model_aliases fallback)"

section \<open>Aggregation\<close>

text \<open>\<open>next(...)\<close> raises \<open>StopIteration\<close> when no candidate has the alias.\<close>

definition aggregate_decision ::
  "routing_decision \<Rightarrow> str option \<Rightarrow> routing_reason_code list \<Rightarrow> routing_decision result" where
  "aggregate_decision original succeeded_alias extra_reason_codes =
     (let fallback_used = (succeeded_alias \<noteq> None \<and> succeeded_alias \<noteq> dec_selected_model_alias original);
          original_codes = filter (\<lambda>c. c \<noteq> NO_ELIGIBLE_MODEL) (dec_reason_codes original);
          combined_codes = sort_reason_codes (original_codes @ extra_reason_codes);
          update = (\<lambda>selected. original
            \<lparr>dec_selected_model_alias := succeeded_alias,
             dec_provider := map_option rc_provider selected,
             dec_fallback_used := fallback_used,
             dec_reason_codes := combined_codes,
             dec_estimated_usage := map_option rc_estimated_usage selected,
             dec_estimated_cost := map_option rc_estimated_cost selected\<rparr>)
      in case succeeded_alias of
           None \<Rightarrow> Inr (update None)
         | Some a \<Rightarrow>
             (case first_such (\<lambda>c. rc_model_alias c = a) (dec_considered_candidates original) of
                None \<Rightarrow> Inl Stop_Iteration
              | Some c \<Rightarrow> Inr (update (Some c))))"

section \<open>Side effects\<close>

definition record_health_outcome ::
  "'s orchestrator \<Rightarrow> str \<Rightarrow> invocation_attempt_status \<Rightarrow> ('s, unit) op" where
  "record_health_outcome orc model_alias status =
     when_some (orc_model_health_repository orc) (\<lambda>r. mh_record_outcome r model_alias status)"

definition persist :: "'s orchestrator \<Rightarrow> inference_result \<Rightarrow> ('s, unit) op" where
  "persist orc result =
     when_some (orc_decision_repository orc) (\<lambda>r. rd_save r
       \<lparr>aud_decision = res_decision result,
        aud_invocation_attempts = res_invocation_attempts result\<rparr>)"

definition publish_metrics :: "'s orchestrator \<Rightarrow> inference_result \<Rightarrow> ('s, unit) op" where
  "publish_metrics orc result = when_some (orc_metrics_publisher orc) (\<lambda>m. mx_publish m result)"

definition publish_decision_event :: "'s orchestrator \<Rightarrow> inference_result \<Rightarrow> ('s, unit) op" where
  "publish_decision_event orc result =
     when_some (orc_decision_event_publisher orc) (\<lambda>e. dp_publish e result)"

text \<open>The four lines that end every path: persist, metrics, event, return.\<close>

definition finish :: "'s orchestrator \<Rightarrow> inference_result \<Rightarrow> ('s, inference_result) op" where
  "finish orc result =
     bind_io (persist orc result) (\<lambda>_.
     bind_io (publish_metrics orc result) (\<lambda>_.
     bind_io (publish_decision_event orc result) (\<lambda>_.
     return_io result)))"

section \<open>The attempts\<close>

text \<open>\<open>int((self._monotonic() - started_at) * 1000)\<close> in floating point.\<close>

definition elapsed_ms :: "rat \<Rightarrow> rat \<Rightarrow> int" where
  "elapsed_ms started_at ended_at = int_trunc (float_round (float_round (ended_at - started_at) * 1000))"

definition make_provider_request ::
  "inference_request \<Rightarrow> effective_requirements \<Rightarrow> str \<Rightarrow> provider_request result" where
  "make_provider_request request effective candidate_alias =
     validate_provider_request
       \<lparr>pr_model_alias = candidate_alias,
        pr_messages = ir_messages request,
        pr_system_prompt = None,
        pr_max_output_tokens = eff_maximum_output_tokens effective,
        pr_temperature = None,
        pr_top_p = None,
        pr_requires_tool_use = eff_requires_tool_use effective,
        pr_requires_structured_output = eff_requires_structured_output effective\<rparr>"

record progress =
  prg_attempts :: "invocation_attempt list"
  prg_reason_codes :: "routing_reason_code list"
  prg_response :: "provider_response option"
  prg_succeeded_alias :: "str option"

text \<open>Closing an attempt: stop the clock, note the attempt, tell the health repository.\<close>

definition close_attempt ::
  "'s orchestrator \<Rightarrow> str \<Rightarrow> invocation_attempt_status \<Rightarrow> rat \<Rightarrow> ('s, invocation_attempt) op" where
  "close_attempt orc candidate_alias status started_at =
     bind_io (orc_monotonic orc) (\<lambda>ended_at.
     bind_io (lift_r (mk_invocation_attempt candidate_alias status (elapsed_ms started_at ended_at))) (\<lambda>att.
     bind_io (record_health_outcome orc candidate_alias status) (\<lambda>_.
     return_io att)))"

definition error_codes :: "provider_error_category \<Rightarrow> routing_reason_code list" where
  "error_codes category =
     (case reason_code_for_provider_error_category category of None \<Rightarrow> [] | Some c \<Rightarrow> [c])"

text \<open>One turn of the loop: how it ends, and whether the loop goes on.\<close>

datatype attempt_step =
  Attempt_Continue invocation_attempt "routing_reason_code list"
| Attempt_Break invocation_attempt "routing_reason_code list" "provider_response option"

definition invoke_attempt ::
  "'s orchestrator \<Rightarrow> inference_request \<Rightarrow> routing_decision \<Rightarrow> effective_requirements \<Rightarrow> str \<Rightarrow>
   ('s, attempt_step) op" where
  "invoke_attempt orc request decision effective candidate =
     bind_io (lift_r (make_provider_request request effective candidate)) (\<lambda>provider_request.
     bind_io (orc_monotonic orc) (\<lambda>started_at.
     bind_io (attempt_io (mp_invoke (orc_model_provider orc) provider_request)) (\<lambda>outcome.
       case outcome of
         Inr response \<Rightarrow>
           bind_io (close_attempt orc candidate Attempt_SUCCEEDED started_at) (\<lambda>att.
           return_io (Attempt_Break att
             (if Some candidate \<noteq> dec_selected_model_alias decision then [FALLBACK_SELECTED] else [])
             (Some response)))
       | Inl e \<Rightarrow>
           (case provider_error_category_of e of
              None \<Rightarrow> raise_io e
            | Some category \<Rightarrow>
                bind_io (close_attempt orc candidate (status_for_provider_error_category category)
                           started_at) (\<lambda>att.
                return_io
                  (if category = Category_PERMANENT
                   then Attempt_Break att (error_codes category) None
                   else Attempt_Continue att (error_codes category)))))))"

fun attempt_chain ::
  "'s orchestrator \<Rightarrow> inference_request \<Rightarrow> routing_decision \<Rightarrow> effective_requirements \<Rightarrow> str list \<Rightarrow>
   invocation_attempt list \<Rightarrow> routing_reason_code list \<Rightarrow> ('s, progress) op" where
  "attempt_chain orc request decision effective [] attempts codes =
     return_io \<lparr>prg_attempts = attempts, prg_reason_codes = codes, prg_response = None,
                prg_succeeded_alias = None\<rparr>"
| "attempt_chain orc request decision effective (candidate # chain) attempts codes =
     bind_io (invoke_attempt orc request decision effective candidate) (\<lambda>step.
       case step of
         Attempt_Continue att extra \<Rightarrow>
           attempt_chain orc request decision effective chain (attempts @ [att]) (codes @ extra)
       | Attempt_Break att extra response \<Rightarrow>
           return_io
             \<lparr>prg_attempts = attempts @ [att], prg_reason_codes = codes @ extra,
              prg_response = response,
              prg_succeeded_alias = (if response = None then None else Some candidate)\<rparr>)"

section \<open>The use case\<close>

definition invoke_uncached :: "'s orchestrator \<Rightarrow> inference_request \<Rightarrow> ('s, inference_result) op" where
  "invoke_uncached orc request =
     bind_io (evaluate_route (orc_route_evaluation_service orc) request) (\<lambda>decision.
     bind_io (rp_resolve (orc_policy_repository orc) (ir_application_id request)) (\<lambda>policy.
       let chain = build_candidate_chain decision (pol_fallback_policy policy)
       in if chain = []
          then finish orc \<lparr>res_decision = decision, res_response = None, res_invocation_attempts = []\<rparr>
          else
            let effective = resolve_effective_requirements (ir_requirements request) policy
            in bind_io (attempt_chain orc request decision effective chain [] []) (\<lambda>p.
               bind_io (lift_r (aggregate_decision decision (prg_succeeded_alias p) (prg_reason_codes p)))
                 (\<lambda>final_decision.
                   finish orc
                     \<lparr>res_decision = final_decision,
                      res_response = (if prg_succeeded_alias p \<noteq> None then prg_response p else None),
                      res_invocation_attempts = prg_attempts p\<rparr>))))"

definition conflict_message :: "str \<Rightarrow> str" where
  "conflict_message quoted_key =
     ''idempotency_key '' @ quoted_key @ '' was already used for a different request''"

definition in_progress_message :: "str \<Rightarrow> str" where
  "in_progress_message quoted_key =
     ''a request with idempotency_key '' @ quoted_key @ '' is already in progress''"

text \<open>After a new reservation: invoke, release on any exception, complete on a result.\<close>

definition run_reserved ::
  "'s orchestrator \<Rightarrow> inference_request \<Rightarrow> str \<Rightarrow> 's idempotency_store \<Rightarrow> ('s, inference_result) op" where
  "run_reserved orc request key store =
     (let request_hash = compute_request_hash request; app = ir_application_id request
      in bind_io (attempt_io (invoke_uncached orc request)) (\<lambda>outcome.
           case outcome of
             Inl e \<Rightarrow> bind_io (ids_release store app key) (\<lambda>_. raise_io e)
           | Inr result \<Rightarrow>
               bind_io (rp_resolve (orc_policy_repository orc) app) (\<lambda>policy.
               bind_io (ids_complete store app key request_hash result
                          (idp_allow_response_caching (pol_idempotency_policy policy))
                          (idp_retention_seconds (pol_idempotency_policy policy))) (\<lambda>_.
               return_io result))))"

definition invoke_with_idempotency ::
  "'s orchestrator \<Rightarrow> inference_request \<Rightarrow> str \<Rightarrow> 's idempotency_store \<Rightarrow> ('s, inference_result) op" where
  "invoke_with_idempotency orc request key store =
     bind_io (ids_reserve store (ir_application_id request) key (compute_request_hash request)) (\<lambda>reservation.
       case rsv_outcome reservation of
         Outcome_CONFLICT \<Rightarrow> raise_io (IdempotencyConflictError (conflict_message (py_repr key)))
       | Outcome_IN_PROGRESS \<Rightarrow> raise_io (IdempotencyInProgressError (in_progress_message (py_repr key)))
       | Outcome_COMPLETED \<Rightarrow>
           (case rsv_cached_result reservation of
              None \<Rightarrow> raise_io Assertion_Error
            | Some result \<Rightarrow> return_io result)
       | Outcome_NEW \<Rightarrow> run_reserved orc request key store)"

definition invoke :: "'s orchestrator \<Rightarrow> inference_request \<Rightarrow> ('s, inference_result) op" where
  "invoke orc request =
     (case (ir_idempotency_key request, orc_idempotency_store orc) of
        (Some key, Some store) \<Rightarrow> invoke_with_idempotency orc request key store
      | _ \<Rightarrow> invoke_uncached orc request)"

section \<open>Lemmas on the chain\<close>

lemma extend_chain_distinct: "distinct chain \<Longrightarrow> distinct (extend_chain n el chain as)"
  by (induction n el chain as rule: extend_chain.induct) auto

lemma extend_chain_set: "set (extend_chain n el chain as) \<subseteq> set chain \<union> (set el \<inter> set as)"
  by (induction n el chain as rule: extend_chain.induct) auto

lemma extend_chain_prefix: "\<exists>rest. extend_chain n el chain as = chain @ rest"
  by (induction n el chain as rule: extend_chain.induct) auto

lemma extend_chain_length: "int (length (extend_chain n el chain as)) \<le> max n (int (length chain))"
  by (induction n el chain as rule: extend_chain.induct) auto

lemma extend_chain_complete:
  "int (length (extend_chain n el chain as)) < n \<Longrightarrow> set el \<inter> set as \<subseteq> set (extend_chain n el chain as)"
proof (induction n el chain as rule: extend_chain.induct)
  case (2 n el chain a as)
  then show ?case
    using extend_chain_prefix[of n el "chain @ [a]" as] extend_chain_prefix[of n el chain as]
    by (auto split: if_splits)
qed simp

text \<open>Decisions as route evaluation builds them: the selected model is an eligible candidate.\<close>

definition decision_wf :: "routing_decision \<Rightarrow> bool" where
  "decision_wf d \<longleftrightarrow> (\<forall>a. dec_selected_model_alias d = Some a \<longrightarrow> a \<in> set (eligible_aliases d))"

lemma chain_subset_eligible:
  assumes "decision_wf d"
  shows "set (build_candidate_chain d fb) \<subseteq> set (eligible_aliases d)"
proof -
  have "set (case dec_selected_model_alias d of None \<Rightarrow> [] | Some a \<Rightarrow> [a]) \<subseteq> set (eligible_aliases d)"
    using assms by (auto simp: decision_wf_def split: option.splits)
  then show ?thesis
    unfolding build_candidate_chain_def using extend_chain_set by fastforce
qed

lemma chain_starts_selected:
  "dec_selected_model_alias d = Some a \<Longrightarrow> \<exists>rest. build_candidate_chain d fb = a # rest"
  using extend_chain_prefix[of _ _ "[a]"] by (simp add: build_candidate_chain_def)

lemma chain_distinct: "distinct (build_candidate_chain d fb)"
  unfolding build_candidate_chain_def by (intro extend_chain_distinct) (simp split: option.split)

lemma chain_length:
  assumes "1 \<le> fb_maximum_attempts fb"
  shows "int (length (build_candidate_chain d fb)) \<le> fb_maximum_attempts fb"
  using assms extend_chain_length[of "fb_maximum_attempts fb" "eligible_aliases d"
      "case dec_selected_model_alias d of None \<Rightarrow> [] | Some a \<Rightarrow> [a]" "fb_fallback_model_aliases fb"]
  by (auto simp: build_candidate_chain_def split: option.splits)

lemma evaluate_route_wf:
  assumes "evaluate_route svc request s = (Inr d, s')"
  shows "decision_wf d"
  using assms
proof (cases rule: evaluate_route_cases)
  case (unavailable p s1)
  then show ?thesis
    using build_decision_Inr(5)[OF unavailable(3)] by (simp add: decision_wf_def no_selection_def)
next
  case (routed p s1 cs s2 sel)
  note dec = build_decision_Inr[OF routed(6)]
  have "c \<in> set cs \<and> rc_eligible c" if "sel_selected sel = Some c" for c
    using routed_selected[OF routed(5) that] .
  then show ?thesis
    using dec(5,9) by (cases "sel_selected sel") (auto simp: decision_wf_def eligible_aliases_def)
qed

lemma evaluate_route_eligible_allowed:
  assumes "evaluate_route svc request s = (Inr d, s')"
    and "rp_resolve (svc_policy_repository svc) (ir_application_id request) s = (Inr p, s1)"
  shows "set (eligible_aliases d) \<subseteq> set (pol_allowed_model_aliases p)"
  using assms(1)
proof (cases rule: evaluate_route_cases)
  case (unavailable q s2)
  then show ?thesis
    using build_decision_Inr(9)[OF unavailable(3)] by (simp add: eligible_aliases_def)
next
  case (routed q s2 cs s3 sel)
  have q: "q = p" using routed(1) assms(2) by simp
  have "rc_model_alias c \<in> set (pol_allowed_model_aliases p)" if c: "c \<in> set cs" "rc_eligible c" for c
  proof -
    obtain m h where "evaluate_candidate m (resolve_effective_requirements (ir_requirements request) q) q
       (svc_token_estimator svc) (svc_cost_estimator svc) (ir_messages request) h = Inr c"
      using build_route_candidates_member[OF routed(4) c(1)] by blast
    from eligible_within(1,2)[OF this c(2)] show ?thesis by (simp add: q)
  qed
  then show ?thesis
    using build_decision_Inr(9)[OF routed(6)] by (auto simp: eligible_aliases_def)
qed

text \<open>
  The candidate chain: for a decision of route evaluation and a valid policy the chain never
  repeats a model, never exceeds the policy's attempt budget, holds only eligible candidates,
  starts with the selected model if there is one, and leaves out an eligible configured fallback
  only when the budget is used up.
\<close>

theorem candidate_chain_correct:
  assumes "evaluate_route svc request s = (Inr d, s')" and "policy_ok p"
  defines "chain \<equiv> build_candidate_chain d (pol_fallback_policy p)"
  shows "distinct chain \<and>
    int (length chain) \<le> fb_maximum_attempts (pol_fallback_policy p) \<and>
    set chain \<subseteq> set (eligible_aliases d) \<and>
    (\<forall>a. dec_selected_model_alias d = Some a \<longrightarrow> (\<exists>rest. chain = a # rest)) \<and>
    (int (length chain) < fb_maximum_attempts (pol_fallback_policy p) \<longrightarrow>
       set (eligible_aliases d) \<inter> set (fb_fallback_model_aliases (pol_fallback_policy p)) \<subseteq> set chain)"
proof -
  have "1 \<le> fb_maximum_attempts (pol_fallback_policy p)"
    using assms(2) by (simp add: policy_ok_iff routing_policy_fields_ok_def)
  then have "int (length chain) \<le> fb_maximum_attempts (pol_fallback_policy p)"
    unfolding chain_def by (rule chain_length)
  moreover have "distinct chain" unfolding chain_def by (rule chain_distinct)
  moreover have "int (length chain) < fb_maximum_attempts (pol_fallback_policy p) \<Longrightarrow>
      set (eligible_aliases d) \<inter> set (fb_fallback_model_aliases (pol_fallback_policy p)) \<subseteq> set chain"
    unfolding chain_def build_candidate_chain_def by (rule extend_chain_complete)
  ultimately show ?thesis
    using chain_subset_eligible[OF evaluate_route_wf[OF assms(1)]] chain_starts_selected
    by (simp add: chain_def)
qed

theorem candidate_chain_correct_witness:
  "\<exists>d s'. evaluate_route sample_service (sample_request ''support-assistant'' None) sample_start = (Inr d, s') \<and>
     set (build_candidate_chain d (pol_fallback_policy support_assistant_policy)) \<subseteq> set (eligible_aliases d) \<and>
     build_candidate_chain d (pol_fallback_policy support_assistant_policy) =
       [''balanced-text-primary'', ''balanced-text-secondary'']"
proof -
  obtain d s' where d: "evaluate_route sample_service (sample_request ''support-assistant'' None) sample_start = (Inr d, s')"
    "dec_selected_model_alias d = Some ''balanced-text-primary''" "dec_considered_candidates d = sample_candidates"
    using sample_evaluate[of None] by (simp add: sample_decision_def)
  have "build_candidate_chain d (pol_fallback_policy support_assistant_policy) =
       [''balanced-text-primary'', ''balanced-text-secondary'']"
    using d(2,3) by (simp add: build_candidate_chain_def eligible_aliases_def sample_eligible)
  then show ?thesis
    using candidate_chain_correct[OF d(1) shipped_policies_ok(4)] d(1) by blast
qed

section \<open>A fallback on the shipped configuration\<close>

text \<open>
  A provider that throttles the primary model, answers for the secondary, and fails permanently
  on anything else; an orchestrator with that provider and no optional collaborators.
\<close>

definition sample_response :: "str \<Rightarrow> provider_response" where
  "sample_response alias =
     \<lparr>ps_model_alias = alias, ps_provider = Provider_BEDROCK,
      ps_message = \<lparr>msg_role = Role_ASSISTANT, msg_content = ''On its way.''\<rparr>,
      ps_stop_reason = Stop_END_TURN, ps_usage = \<lparr>us_input_tokens = 6, us_output_tokens = 4\<rparr>\<rparr>"

definition sample_provider :: "'m sample_world_scheme model_provider" where
  "sample_provider =
     \<lparr>mp_invoke = (\<lambda>pr w.
        if pr_model_alias pr = ''balanced-text-primary'' then (Inl (ProviderError ''slow down'' Category_THROTTLED), w)
        else if pr_model_alias pr = ''balanced-text-secondary'' then (Inr (sample_response (pr_model_alias pr)), w)
        else (Inl (ProviderError ''no such model'' Category_PERMANENT), w)),
      mp_invoke_stream = None, mp_next = (\<lambda>h w. (Inr None, w))\<rparr>"

definition sample_orchestrator :: "'m sample_world_scheme orchestrator" where
  "sample_orchestrator =
     \<lparr>orc_route_evaluation_service = sample_service, orc_policy_repository = sample_policies,
      orc_model_provider = sample_provider, orc_idempotency_store = None, orc_decision_repository = None,
      orc_model_health_repository = None, orc_metrics_publisher = None,
      orc_decision_event_publisher = None, orc_monotonic = (\<lambda>w. (Inr 1, w))\<rparr>"

section \<open>Only allowed models are invoked\<close>

lemma invoke_attempt_provider:
  assumes "\<And>pr. pr_model_alias pr = a \<Longrightarrow> mp_invoke prov' pr = mp_invoke (orc_model_provider orc) pr"
  shows "invoke_attempt (orc\<lparr>orc_model_provider := prov'\<rparr>) request d eff a = invoke_attempt orc request d eff a"
proof (cases "make_provider_request request eff a")
  case (Inl e)
  then show ?thesis by (simp add: fun_eq_iff invoke_attempt_def io_run)
next
  case (Inr pr)
  have close: "close_attempt (orc\<lparr>orc_model_provider := prov'\<rparr>) = close_attempt orc"
    by (simp add: close_attempt_def record_health_outcome_def fun_eq_iff)
  have same: "mp_invoke prov' pr = mp_invoke (orc_model_provider orc) pr"
    using assms[of pr] Inr by (auto simp: make_provider_request_def)
  have fields: "orc_monotonic (orc\<lparr>orc_model_provider := prov'\<rparr>) = orc_monotonic orc"
    "orc_model_provider (orc\<lparr>orc_model_provider := prov'\<rparr>) = prov'" by simp_all
  show ?thesis
    unfolding invoke_attempt_def Inr bind_lift_Inr close fields same by (rule refl)
qed

lemma attempt_chain_provider:
  assumes "\<And>pr. pr_model_alias pr \<in> set chain \<Longrightarrow> mp_invoke prov' pr = mp_invoke (orc_model_provider orc) pr"
  shows "attempt_chain (orc\<lparr>orc_model_provider := prov'\<rparr>) request d eff chain ats codes =
         attempt_chain orc request d eff chain ats codes"
  using assms
proof (induction chain arbitrary: ats codes)
  case (Cons a chain)
  have ih: "attempt_chain (orc\<lparr>orc_model_provider := prov'\<rparr>) request d eff chain ats' codes' =
      attempt_chain orc request d eff chain ats' codes'" for ats' codes'
    using Cons by simp
  have "invoke_attempt (orc\<lparr>orc_model_provider := prov'\<rparr>) request d eff a = invoke_attempt orc request d eff a"
    using Cons.prems by (intro invoke_attempt_provider) simp
  then show ?case unfolding attempt_chain.simps ih by simp
qed simp

lemma finish_provider: "finish (orc\<lparr>orc_model_provider := prov'\<rparr>) = finish orc"
  by (simp add: finish_def persist_def publish_metrics_def publish_decision_event_def fun_eq_iff)

text \<open>
  C3. A model the policy does not allow is never invoked: exchanging the provider for one that
  behaves differently, in any way, on models outside the allowlist of the policy the request is
  evaluated under changes neither the result nor the state.
\<close>

theorem disallowed_models_never_invoked:
  assumes "rp_resolve (svc_policy_repository (orc_route_evaluation_service orc))
      (ir_application_id request) s = (Inr p, s1)"
    and "\<And>pr. pr_model_alias pr \<in> set (pol_allowed_model_aliases p) \<Longrightarrow>
      mp_invoke prov' pr = mp_invoke (orc_model_provider orc) pr"
  shows "invoke_uncached (orc\<lparr>orc_model_provider := prov'\<rparr>) request s = invoke_uncached orc request s"
proof -
  obtain r s2 where e: "evaluate_route (orc_route_evaluation_service orc) request s = (r, s2)" by fastforce
  show ?thesis
  proof (cases r)
    case (Inl err)
    then show ?thesis using e by (simp add: invoke_uncached_def io_run)
  next
    case (Inr d)
    with e have d: "evaluate_route (orc_route_evaluation_service orc) request s = (Inr d, s2)" by simp
    have "set (build_candidate_chain d fb) \<subseteq> set (pol_allowed_model_aliases p)" for fb
      using chain_subset_eligible[OF evaluate_route_wf[OF d], of fb]
        evaluate_route_eligible_allowed[OF d assms(1)] by blast
    then have "attempt_chain (orc\<lparr>orc_model_provider := prov'\<rparr>) request d eff (build_candidate_chain d fb) [] [] =
        attempt_chain orc request d eff (build_candidate_chain d fb) [] []" for eff fb
      using assms(2) by (intro attempt_chain_provider) blast
    then show ?thesis
      unfolding invoke_uncached_def finish_provider by (simp add: io_run d Let_def cong: if_cong)
  qed
qed

theorem disallowed_models_never_invoked_witness:
  "invoke_uncached (sample_orchestrator\<lparr>orc_model_provider := sample_provider\<lparr>mp_invoke := \<lambda>pr.
       if pr_model_alias pr = ''balanced-text-openai'' then raise_io (Foreign_Error ''invoked'')
       else mp_invoke sample_provider pr\<rparr>\<rparr>) (sample_request ''support-assistant'' None) sample_start =
   invoke_uncached sample_orchestrator (sample_request ''support-assistant'' None) sample_start"
proof (rule disallowed_models_never_invoked)
  show "rp_resolve (svc_policy_repository (orc_route_evaluation_service sample_orchestrator))
      (ir_application_id (sample_request ''support-assistant'' None)) sample_start =
      (Inr support_assistant_policy, sample_resolved)"
    by (simp add: sample_orchestrator_def sample_service_def sample_resolve)
  show "mp_invoke (sample_provider\<lparr>mp_invoke := \<lambda>pr.
       if pr_model_alias pr = ''balanced-text-openai'' then raise_io (Foreign_Error ''invoked'')
       else mp_invoke sample_provider pr\<rparr>) pr = mp_invoke (orc_model_provider sample_orchestrator) pr"
    if "pr_model_alias pr \<in> set (pol_allowed_model_aliases support_assistant_policy)" for pr
    using that by (auto simp: sample_orchestrator_def support_assistant_policy_def)
qed

end
