(* ===== verification/Invocation_Results.thy ===== *)
theory Invocation_Results
  imports Orchestrator
begin

text \<open>
  What an invocation returns: the attempts follow the candidate chain the way the fallback rules
  say, the aggregated decision agrees with the attempts and the response, and the result is what
  was persisted and published.
\<close>

section \<open>The specification of a run\<close>

text \<open>
  The attempts a chain may give rise to: one per model in order, going on only after a retryable
  failure, ending at the first success or permanent failure or with the chain.
\<close>

fun attempts_follow :: "str list \<Rightarrow> invocation_attempt list \<Rightarrow> str option \<Rightarrow> bool" where
  "attempts_follow [] ats succeeded \<longleftrightarrow> ats = [] \<and> succeeded = None"
| "attempts_follow (a # chain) [] succeeded \<longleftrightarrow> False"
| "attempts_follow (a # chain) (t # ts) succeeded \<longleftrightarrow>
     at_model_alias t = a \<and> 0 \<le> at_latency_ms t \<and>
     (case at_status t of
        Attempt_SUCCEEDED \<Rightarrow> ts = [] \<and> succeeded = Some a
      | Attempt_NON_RETRYABLE_ERROR \<Rightarrow> ts = [] \<and> succeeded = None
      | _ \<Rightarrow> attempts_follow chain ts succeeded)"

fun status_codes :: "invocation_attempt_status \<Rightarrow> routing_reason_code set" where
  "status_codes Attempt_THROTTLED = {MODEL_THROTTLED}"
| "status_codes Attempt_TRANSIENT_ERROR = {MODEL_UNAVAILABLE}"
| "status_codes Attempt_TIMEOUT = {MODEL_UNAVAILABLE}"
| "status_codes Attempt_NON_RETRYABLE_ERROR = {}"
| "status_codes Attempt_SUCCEEDED = {}"

definition run_codes :: "invocation_attempt list \<Rightarrow> str option \<Rightarrow> str option \<Rightarrow> routing_reason_code set" where
  "run_codes ats succeeded selected =
     (\<Union>t\<in>set ats. status_codes (at_status t)) \<union>
     (if succeeded \<noteq> None \<and> succeeded \<noteq> selected then {FALLBACK_SELECTED} else {})"

lemma attempts_follow_length: "attempts_follow chain ats s \<Longrightarrow> length ats \<le> length chain"
  by (induction chain ats s rule: attempts_follow.induct) (auto split: invocation_attempt_status.splits)

lemma attempts_follow_prefix:
  "attempts_follow chain ats s \<Longrightarrow> map at_model_alias ats = take (length ats) chain"
  by (induction chain ats s rule: attempts_follow.induct) (auto split: invocation_attempt_status.splits)

lemma attempts_follow_succeeded:
  "attempts_follow chain ats (Some a) \<Longrightarrow>
   a \<in> set chain \<and> ats \<noteq> [] \<and> at_model_alias (last ats) = a \<and> at_status (last ats) = Attempt_SUCCEEDED"
  by (induction chain ats "Some a" rule: attempts_follow.induct)
    (auto split: invocation_attempt_status.splits)

lemma attempts_follow_failed:
  "attempts_follow chain ats None \<Longrightarrow> t \<in> set ats \<Longrightarrow> at_status t \<noteq> Attempt_SUCCEEDED"
  by (induction chain ats "None :: str option" rule: attempts_follow.induct)
    (auto split: invocation_attempt_status.splits)

lemma attempts_follow_butlast:
  "attempts_follow chain ats s \<Longrightarrow> t \<in> set (butlast ats) \<Longrightarrow>
   at_status t \<in> {Attempt_THROTTLED, Attempt_TRANSIENT_ERROR, Attempt_TIMEOUT}"
  by (induction chain ats s rule: attempts_follow.induct)
    (auto split: invocation_attempt_status.splits if_splits)

section \<open>One attempt\<close>

lemma close_attempt_Inr:
  assumes "close_attempt orc a st t s = (Inr att, s')"
  shows "at_model_alias att = a \<and> at_status att = st \<and> 0 \<le> at_latency_ms att"
  using assms by (auto simp: close_attempt_def io_inv)

lemma error_codes_status: "set (error_codes c) = status_codes (status_for_provider_error_category c)"
  by (cases c) (simp_all add: error_codes_def)

lemma invoke_attempt_steps:
  assumes "invoke_attempt orc request d eff a s = (Inr st, s')"
  obtains (answered) pr t s1 response s2 att where
      "mp_invoke (orc_model_provider orc) pr s1 = (Inr response, s2)"
      "close_attempt orc a Attempt_SUCCEEDED t s2 = (Inr att, s')"
      "st = Attempt_Break att
         (if Some a \<noteq> dec_selected_model_alias d then [FALLBACK_SELECTED] else []) (Some response)"
  | (failed) pr t s1 m c s2 att where
      "mp_invoke (orc_model_provider orc) pr s1 = (Inl (ProviderError m c), s2)"
      "close_attempt orc a (status_for_provider_error_category c) t s2 = (Inr att, s')"
      "st = (if c = Category_PERMANENT then Attempt_Break att (error_codes c) None
             else Attempt_Continue att (error_codes c))"
proof -
  obtain pr where pr: "make_provider_request request eff a = Inr pr"
    using assms by (cases "make_provider_request request eff a") (auto simp: invoke_attempt_def io_run)
  obtain t s1 where t: "orc_monotonic orc s = (Inr t, s1)"
    using assms by (auto simp: invoke_attempt_def pr bind_lift_Inr io_inv)
  obtain r s2 where r: "mp_invoke (orc_model_provider orc) pr s1 = (r, s2)" by fastforce
  show thesis
  proof (cases r)
    case (Inl e)
    then have "provider_error_category_of e \<noteq> None"
      using assms by (auto simp: invoke_attempt_def pr bind_lift_Inr t r io_run io_inv split: option.splits)
    then obtain m c where e: "e = ProviderError m c" by (auto simp: provider_error_category_of_iff)
    obtain att where "close_attempt orc a (status_for_provider_error_category c) t s2 = (Inr att, s')"
      "st = (if c = Category_PERMANENT then Attempt_Break att (error_codes c) None
             else Attempt_Continue att (error_codes c))"
      using assms by (auto simp: invoke_attempt_def pr bind_lift_Inr t r Inl e io_run io_inv split: prod.splits sum.splits)
    with r show ?thesis unfolding Inl e by (rule failed)
  next
    case (Inr response)
    then obtain att where "close_attempt orc a Attempt_SUCCEEDED t s2 = (Inr att, s')"
      "st = Attempt_Break att
         (if Some a \<noteq> dec_selected_model_alias d then [FALLBACK_SELECTED] else []) (Some response)"
      using assms by (auto simp: invoke_attempt_def pr bind_lift_Inr t r io_run io_inv split: prod.splits sum.splits)
    with r show ?thesis unfolding Inr by (rule answered)
  qed
qed

lemma invoke_attempt_continue:
  assumes "invoke_attempt orc request d eff a s = (Inr (Attempt_Continue att codes), s')"
  shows "at_model_alias att = a \<and> 0 \<le> at_latency_ms att \<and>
    at_status att \<in> {Attempt_THROTTLED, Attempt_TRANSIENT_ERROR, Attempt_TIMEOUT} \<and>
    set codes = status_codes (at_status att)"
  using assms
proof (cases rule: invoke_attempt_steps)
  case (failed pr t s1 m c s2 att')
  then have "c \<noteq> Category_PERMANENT" "codes = error_codes c" "att' = att" by (auto split: if_splits)
  then show ?thesis
    using close_attempt_Inr[OF failed(2)] by (cases c) (auto simp: error_codes_status)
qed simp

lemma invoke_attempt_break:
  assumes "invoke_attempt orc request d eff a s = (Inr (Attempt_Break att codes response), s')"
  shows "at_model_alias att = a \<and> 0 \<le> at_latency_ms att \<and>
    at_status att = (if response = None then Attempt_NON_RETRYABLE_ERROR else Attempt_SUCCEEDED) \<and>
    set codes = (if response \<noteq> None \<and> Some a \<noteq> dec_selected_model_alias d then {FALLBACK_SELECTED} else {})"
  using assms
proof (cases rule: invoke_attempt_steps)
  case (answered pr t s1 r s2 att')
  then show ?thesis using close_attempt_Inr[OF answered(2)] by simp
next
  case (failed pr t s1 m c s2 att')
  then have "c = Category_PERMANENT" by (simp split: if_splits)
  with failed show ?thesis using close_attempt_Inr[OF failed(2)] by (simp add: error_codes_status)
qed

section \<open>The loop\<close>

lemma attempt_chain_follows:
  assumes "attempt_chain orc request d eff chain ats codes s = (Inr p, s')"
  shows "\<exists>run. prg_attempts p = ats @ run \<and> attempts_follow chain run (prg_succeeded_alias p) \<and>
    (prg_response p = None \<longleftrightarrow> prg_succeeded_alias p = None) \<and>
    set (prg_reason_codes p) =
      set codes \<union> run_codes run (prg_succeeded_alias p) (dec_selected_model_alias d)"
  using assms
proof (induction chain arbitrary: ats codes s)
  case Nil
  then show ?case by (auto simp: io_inv run_codes_def)
next
  case (Cons a chain)
  then obtain st s1 where st: "invoke_attempt orc request d eff a s = (Inr st, s1)"
    by (auto simp: io_inv)
  show ?case
  proof (cases st)
    case (Attempt_Continue att extra)
    note one = invoke_attempt_continue[OF st[unfolded Attempt_Continue]]
    have "attempt_chain orc request d eff chain (ats @ [att]) (codes @ extra) s1 = (Inr p, s')"
      using Cons.prems st Attempt_Continue by (simp add: io_inv)
    from Cons.IH[OF this] obtain run where run: "prg_attempts p = (ats @ [att]) @ run"
      "attempts_follow chain run (prg_succeeded_alias p)"
      "prg_response p = None \<longleftrightarrow> prg_succeeded_alias p = None"
      "set (prg_reason_codes p) = set (codes @ extra) \<union>
         run_codes run (prg_succeeded_alias p) (dec_selected_model_alias d)"
      by (elim exE conjE) (rule that)
    have "attempts_follow (a # chain) (att # run) (prg_succeeded_alias p)"
      using one run(2) by auto
    moreover have "set (prg_reason_codes p) = set codes \<union>
        run_codes (att # run) (prg_succeeded_alias p) (dec_selected_model_alias d)"
      using one run(4) by (auto simp: run_codes_def)
    ultimately show ?thesis using run(1,3) by auto
  next
    case (Attempt_Break att extra response)
    note one = invoke_attempt_break[OF st[unfolded Attempt_Break]]
    have p: "p = \<lparr>prg_attempts = ats @ [att], prg_reason_codes = codes @ extra, prg_response = response,
        prg_succeeded_alias = (if response = None then None else Some a)\<rparr>"
      using Cons.prems st Attempt_Break by (simp add: io_inv)
    have "attempts_follow (a # chain) [att] (prg_succeeded_alias p)"
      using one by (simp add: p)
    moreover have "set (prg_reason_codes p) = set codes \<union>
        run_codes [att] (prg_succeeded_alias p) (dec_selected_model_alias d)"
      using one by (auto simp: p run_codes_def)
    ultimately show ?thesis using p by (intro exI[of _ "[att]"]) simp
  qed
qed

section \<open>Aggregation\<close>

lemma aggregate_decision_Inr:
  assumes "aggregate_decision d succeeded extra = Inr f"
  shows "dec_selected_model_alias f = succeeded"
    and "dec_fallback_used f \<longleftrightarrow> succeeded \<noteq> None \<and> succeeded \<noteq> dec_selected_model_alias d"
    and "dec_reason_codes f = sort_reason_codes (filter (\<lambda>c. c \<noteq> NO_ELIGIBLE_MODEL) (dec_reason_codes d) @ extra)"
    and "dec_considered_candidates f = dec_considered_candidates d"
    and "dec_decision_id f = dec_decision_id d" and "dec_application_id f = dec_application_id d"
    and "dec_policy_id f = dec_policy_id d" and "dec_policy_version f = dec_policy_version d"
  using assms by (auto simp: aggregate_decision_def Let_def split: option.splits)

lemma aggregate_decision_candidate:
  assumes "aggregate_decision d (Some a) extra = Inr f"
  shows "\<exists>c\<in>set (dec_considered_candidates d). rc_model_alias c = a \<and>
    dec_provider f = Some (rc_provider c) \<and> dec_estimated_usage f = Some (rc_estimated_usage c) \<and>
    dec_estimated_cost f = Some (rc_estimated_cost c)"
proof -
  obtain c where c: "first_such (\<lambda>c. rc_model_alias c = a) (dec_considered_candidates d) = Some c"
    using assms by (auto simp: aggregate_decision_def Let_def split: option.splits)
  then show ?thesis
    using first_such_SomeD[OF c] assms by (auto simp: aggregate_decision_def Let_def)
qed

lemma aggregate_decision_total:
  assumes "\<And>a. succeeded = Some a \<Longrightarrow> a \<in> set (eligible_aliases d)"
  shows "\<exists>f. aggregate_decision d succeeded extra = Inr f"
proof (cases succeeded)
  case None
  then show ?thesis by (simp add: aggregate_decision_def Let_def)
next
  case (Some a)
  have "\<exists>c\<in>set (dec_considered_candidates d). rc_model_alias c = a"
    using assms[OF Some] by (auto simp: eligible_aliases_def)
  then have "first_such (\<lambda>c. rc_model_alias c = a) (dec_considered_candidates d) \<noteq> None"
    by (simp only: first_such_None_iff) blast
  then obtain c where "first_such (\<lambda>c. rc_model_alias c = a) (dec_considered_candidates d) = Some c" by blast
  then show ?thesis by (simp add: aggregate_decision_def Let_def Some)
qed

section \<open>The whole invocation\<close>

lemma finish_Inr: "finish orc x s = (Inr r, s') \<Longrightarrow> r = x"
  by (auto simp: finish_def io_inv)

lemma invoke_uncached_cases [consumes 1, case_names no_chain chain]:
  assumes "invoke_uncached orc request s = (Inr r, s')"
  obtains
    (no_chain) d s1 p s2 where
      "evaluate_route (orc_route_evaluation_service orc) request s = (Inr d, s1)"
      "rp_resolve (orc_policy_repository orc) (ir_application_id request) s1 = (Inr p, s2)"
      "build_candidate_chain d (pol_fallback_policy p) = []"
      "r = \<lparr>res_decision = d, res_response = None, res_invocation_attempts = []\<rparr>"
      "finish orc r s2 = (Inr r, s')"
  | (chain) d s1 p s2 prg s3 f where
      "evaluate_route (orc_route_evaluation_service orc) request s = (Inr d, s1)"
      "rp_resolve (orc_policy_repository orc) (ir_application_id request) s1 = (Inr p, s2)"
      "build_candidate_chain d (pol_fallback_policy p) \<noteq> []"
      "attempt_chain orc request d (resolve_effective_requirements (ir_requirements request) p)
         (build_candidate_chain d (pol_fallback_policy p)) [] [] s2 = (Inr prg, s3)"
      "aggregate_decision d (prg_succeeded_alias prg) (prg_reason_codes prg) = Inr f"
      "r = \<lparr>res_decision = f,
            res_response = (if prg_succeeded_alias prg \<noteq> None then prg_response prg else None),
            res_invocation_attempts = prg_attempts prg\<rparr>"
      "finish orc r s3 = (Inr r, s')"
proof -
  obtain d s1 where d: "evaluate_route (orc_route_evaluation_service orc) request s = (Inr d, s1)"
    using assms by (auto simp: invoke_uncached_def io_inv)
  obtain p s2 where p: "rp_resolve (orc_policy_repository orc) (ir_application_id request) s1 = (Inr p, s2)"
    using assms d by (auto simp: invoke_uncached_def io_inv)
  let ?chain = "build_candidate_chain d (pol_fallback_policy p)"
  show thesis
  proof (cases "?chain = []")
    case True
    let ?r = "\<lparr>res_decision = d, res_response = None, res_invocation_attempts = []\<rparr> :: inference_result"
    have f: "finish orc ?r s2 = (Inr r, s')"
      using assms d p True by (simp add: invoke_uncached_def io_run Let_def)
    have "r = ?r" using f by (rule finish_Inr)
    with d p True f show ?thesis by (intro no_chain) simp_all
  next
    case False
    then obtain prg s3 f where a:
      "attempt_chain orc request d (resolve_effective_requirements (ir_requirements request) p) ?chain [] [] s2 = (Inr prg, s3)"
      "aggregate_decision d (prg_succeeded_alias prg) (prg_reason_codes prg) = Inr f"
      "finish orc \<lparr>res_decision = f,
            res_response = (if prg_succeeded_alias prg \<noteq> None then prg_response prg else None),
            res_invocation_attempts = prg_attempts prg\<rparr> s3 = (Inr r, s')"
      using assms d p by (auto simp: invoke_uncached_def io_inv Let_def)
    note r = finish_Inr[OF a(3)]
    from d p False a(1,2) r a(3)[folded r] show ?thesis by (rule chain)
  qed
qed

lemma evaluate_route_codes:
  assumes "evaluate_route svc request s = (Inr d, s')"
  shows "FALLBACK_SELECTED \<notin> set (dec_reason_codes d) \<and> \<not> dec_fallback_used d"
  using assms
proof (cases rule: evaluate_route_cases)
  case (unavailable p s1)
  then show ?thesis using build_decision_Inr(7,8)[OF unavailable(3)] by simp
next
  case (routed p s1 cs s2 sel)
  note dec = build_decision_Inr[OF routed(6)]
  show ?thesis
  proof (cases "sel_selected sel")
    case None
    then show ?thesis using dec(7,8) by simp
  next
    case (Some c)
    then obtain m h where m: "evaluate_candidate m (resolve_effective_requirements (ir_requirements request) p) p
       (svc_token_estimator svc) (svc_cost_estimator svc) (ir_messages request) h = Inr c"
      using build_route_candidates_member[OF routed(4)] routed_selected[OF routed(5)] by blast
    have "FALLBACK_SELECTED \<notin> set (rc_reason_codes c)"
      unfolding evaluate_candidate_codes[OF m] by (simp split: if_split)
    then show ?thesis
      using dec(7,8) selection_codes_Some[OF Some] strategy_additional_codes[OF routed(5)] by auto
  qed
qed

text \<open>
  C2. The result of an invocation is consistent.  Its attempts are a run of the candidate chain
  (each model at most once and in order, the next only after a throttled, transient or timed-out
  attempt, nothing after a success or a permanent error); there is a response exactly when the
  final decision names a model, which is then the one whose attempt succeeded; and the fallback
  flag, the fallback reason code and the change of model always agree.
\<close>

theorem invocation_result_consistent:
  assumes "invoke_uncached orc request s = (Inr r, s')"
    and "evaluate_route (orc_route_evaluation_service orc) request s = (Inr d, s1)"
    and "rp_resolve (orc_policy_repository orc) (ir_application_id request) s1 = (Inr p, s2)"
  defines "f \<equiv> res_decision r"
  shows "attempts_follow (build_candidate_chain d (pol_fallback_policy p))
      (res_invocation_attempts r) (dec_selected_model_alias f) \<and>
    (res_response r \<noteq> None \<longleftrightarrow> dec_selected_model_alias f \<noteq> None) \<and>
    (dec_fallback_used f \<longleftrightarrow> FALLBACK_SELECTED \<in> set (dec_reason_codes f)) \<and>
    (dec_fallback_used f \<longleftrightarrow> dec_selected_model_alias f \<notin> {None, dec_selected_model_alias d}) \<and>
    (res_invocation_attempts r \<noteq> [] \<longrightarrow> set (dec_reason_codes f) =
       (set (dec_reason_codes d) - {NO_ELIGIBLE_MODEL}) \<union>
       run_codes (res_invocation_attempts r) (dec_selected_model_alias f) (dec_selected_model_alias d))"
  using assms(1)
proof (cases rule: invoke_uncached_cases)
  case (no_chain d' s1' p' s2')
  then have eq: "d' = d" "p' = p" using assms(2,3) by auto
  have none: "dec_selected_model_alias d = None"
    using no_chain(3) chain_starts_selected[of d _ "pol_fallback_policy p"] unfolding eq
    by (cases "dec_selected_model_alias d") auto
  show ?thesis
    using no_chain(3,4) none evaluate_route_codes[OF assms(2)] by (simp add: eq f_def)
next
  case (chain d' s1' p' s2' prg s3 fd)
  then have eq: "d' = d" "p' = p" using assms(2,3) by auto
  obtain run where run: "prg_attempts prg = run"
    "attempts_follow (build_candidate_chain d (pol_fallback_policy p)) run (prg_succeeded_alias prg)"
    "prg_response prg = None \<longleftrightarrow> prg_succeeded_alias prg = None"
    "set (prg_reason_codes prg) = run_codes run (prg_succeeded_alias prg) (dec_selected_model_alias d)"
    using attempt_chain_follows[OF chain(4)] unfolding eq by auto
  note agg = aggregate_decision_Inr[OF chain(5)[unfolded eq]]
  have codes: "set (dec_reason_codes fd) = (set (dec_reason_codes d) - {NO_ELIGIBLE_MODEL}) \<union>
      run_codes run (prg_succeeded_alias prg) (dec_selected_model_alias d)"
    using agg(3) run(4) by auto
  have "FALLBACK_SELECTED \<in> set (dec_reason_codes fd) \<longleftrightarrow> dec_fallback_used fd"
  proof -
    have "FALLBACK_SELECTED \<notin> status_codes st" for st by (cases st) simp_all
    then show ?thesis
      using evaluate_route_codes[OF assms(2)] agg(2) unfolding codes by (auto simp: run_codes_def)
  qed
  then show ?thesis
    using chain(6) run agg codes by (auto simp: f_def)
qed

text \<open>
  C4. Cost amplification is bounded: under a valid policy an invocation makes at most
  \<open>maximum_attempts\<close> calls, to different models, all of them eligible candidates of the
  decision and on the allowlist of the policy the request was evaluated under.
\<close>

theorem invocation_bounded:
  assumes "invoke_uncached orc request s = (Inr r, s')"
    and "rp_resolve (svc_policy_repository (orc_route_evaluation_service orc))
      (ir_application_id request) s = (Inr q, s0)"
    and "evaluate_route (orc_route_evaluation_service orc) request s = (Inr d, s1)"
    and "rp_resolve (orc_policy_repository orc) (ir_application_id request) s1 = (Inr p, s2)" and "policy_ok p"
  shows "int (length (res_invocation_attempts r)) \<le> fb_maximum_attempts (pol_fallback_policy p) \<and>
    distinct (map at_model_alias (res_invocation_attempts r)) \<and>
    at_model_alias ` set (res_invocation_attempts r) \<subseteq>
      set (eligible_aliases d) \<inter> set (pol_allowed_model_aliases q)"
proof -
  let ?chain = "build_candidate_chain d (pol_fallback_policy p)" and ?ats = "res_invocation_attempts r"
  have follow: "attempts_follow ?chain ?ats (dec_selected_model_alias (res_decision r))"
    using assms(1)
  proof (cases rule: invoke_uncached_cases)
    case (no_chain d' s1' p' s2')
    then have "d' = d" "p' = p" using assms(3,4) by auto
    then show ?thesis
      using no_chain(3,4) chain_starts_selected[of d _ "pol_fallback_policy p"]
      by (cases "dec_selected_model_alias d") auto
  next
    case (chain d' s1' p' s2' prg s3 fd)
    then have "d' = d" "p' = p" using assms(3,4) by auto
    then show ?thesis
      using attempt_chain_follows[OF chain(4)] aggregate_decision_Inr(1)[OF chain(5)] chain(6) by auto
  qed
  have wf: "decision_wf d" using assms(3) by (rule evaluate_route_wf)
  have sub: "set ?chain \<subseteq> set (eligible_aliases d) \<inter> set (pol_allowed_model_aliases q)"
    using chain_subset_eligible[OF wf] evaluate_route_eligible_allowed[OF assms(3,2)] by blast
  have max: "1 \<le> fb_maximum_attempts (pol_fallback_policy p)"
    using assms(5) by (simp add: policy_ok_iff routing_policy_fields_ok_def)
  have "int (length ?chain) \<le> fb_maximum_attempts (pol_fallback_policy p)"
    using chain_length[OF max] .
  moreover have "distinct ?chain" by (rule chain_distinct)
  ultimately show ?thesis
    using attempts_follow_length[OF follow] attempts_follow_prefix[OF follow] sub
    by (auto simp: list.set_map[symmetric] simp del: list.set_map dest: in_set_takeD)
qed

section \<open>The sample fallback\<close>

definition sample_attempts :: "invocation_attempt list" where
  "sample_attempts =
     [\<lparr>at_model_alias = ''balanced-text-primary'', at_status = Attempt_THROTTLED, at_latency_ms = 0\<rparr>,
      \<lparr>at_model_alias = ''balanced-text-secondary'', at_status = Attempt_SUCCEEDED, at_latency_ms = 0\<rparr>]"

lemma elapsed_ms_same [simp]: "elapsed_ms t t = 0"
  by (simp add: elapsed_ms_def int_trunc_def)

lemma sample_provider_request:
  "make_provider_request (sample_request app key) sample_effective a = Inr
     \<lparr>pr_model_alias = a, pr_messages = ir_messages (sample_request app key), pr_system_prompt = None,
      pr_max_output_tokens = 200, pr_temperature = None, pr_top_p = None,
      pr_requires_tool_use = False, pr_requires_structured_output = False\<rparr>"
  by (simp add: make_provider_request_def) (simp add: sample_request_def)

lemma sample_close:
  "close_attempt sample_orchestrator a st 1 w =
     (Inr \<lparr>at_model_alias = a, at_status = st, at_latency_ms = 0\<rparr>, w)"
  by (simp add: close_attempt_def sample_orchestrator_def io_run record_health_outcome_def
      mk_invocation_attempt_def)

lemma sample_orchestrator_simps [simp]:
  "orc_route_evaluation_service sample_orchestrator = sample_service"
  "orc_policy_repository sample_orchestrator = sample_policies"
  "orc_model_provider sample_orchestrator = sample_provider"
  "orc_monotonic sample_orchestrator = (\<lambda>w. (Inr 1, w))"
  by (simp_all add: sample_orchestrator_def)

lemma sample_attempt_chain:
  assumes "dec_selected_model_alias d = Some ''balanced-text-primary''"
  shows "attempt_chain sample_orchestrator (sample_request app key) d sample_effective
    [''balanced-text-primary'', ''balanced-text-secondary''] [] [] w =
    (Inr \<lparr>prg_attempts = sample_attempts, prg_reason_codes = [MODEL_THROTTLED, FALLBACK_SELECTED],
          prg_response = Some (sample_response ''balanced-text-secondary''),
          prg_succeeded_alias = Some ''balanced-text-secondary''\<rparr>, w)"
  by (simp add: invoke_attempt_def sample_provider_request io_run sample_provider_def
      sample_close sample_attempts_def error_codes_def assms)

lemma sample_finish: "finish sample_orchestrator r w = (Inr r, w)"
  by (simp add: finish_def persist_def publish_metrics_def publish_decision_event_def
      sample_orchestrator_def io_run)

lemma sample_invoke_from:
  assumes "sw_policies w = new_policy_repository"
  shows "\<exists>r d w1. evaluate_route sample_service (sample_request ''support-assistant'' key) w = (Inr d, w1) \<and>
     rp_resolve sample_policies ''support-assistant'' w1 = (Inr support_assistant_policy, w1) \<and>
     invoke_uncached sample_orchestrator (sample_request ''support-assistant'' key) w = (Inr r, w1) \<and>
     dec_selected_model_alias d = Some ''balanced-text-primary'' \<and>
     dec_selected_model_alias (res_decision r) = Some ''balanced-text-secondary'' \<and>
     res_invocation_attempts r = sample_attempts \<and> res_response r \<noteq> None"
proof -
  obtain d w1 where d: "evaluate_route sample_service (sample_request ''support-assistant'' key) w = (Inr d, w1)"
    "dec_selected_model_alias d = Some ''balanced-text-primary''" "dec_considered_candidates d = sample_candidates"
    "prs_cache (sw_policies w1) ''support-assistant'' = Some support_assistant_policy"
    using sample_evaluate_from[OF sample_resolve_from[OF assms]] by (simp add: sample_decision_def)
  note p = sample_resolve_cached[OF d(4)]
  have chain: "build_candidate_chain d (pol_fallback_policy support_assistant_policy) =
       [''balanced-text-primary'', ''balanced-text-secondary'']"
    using d(2,3) by (simp add: build_candidate_chain_def eligible_aliases_def sample_eligible)
  obtain f where f: "aggregate_decision d (Some ''balanced-text-secondary'') [MODEL_THROTTLED, FALLBACK_SELECTED] = Inr f"
    using d(3) by (simp add: aggregate_decision_def Let_def sample_candidates_def)
  have "invoke_uncached sample_orchestrator (sample_request ''support-assistant'' key) w =
     (Inr \<lparr>res_decision = f, res_response = Some (sample_response ''balanced-text-secondary''),
           res_invocation_attempts = sample_attempts\<rparr>, w1)"
    by (simp add: invoke_uncached_def io_run d(1) p chain Let_def
        sample_effective_def[symmetric] sample_attempt_chain[OF d(2)] f sample_finish
        del: attempt_chain.simps support_policy_simps(5))
  then show ?thesis using d p aggregate_decision_Inr(1)[OF f] by (auto simp del: attempt_chain.simps)
qed

lemma sample_invoke:
  "\<exists>r d w1. evaluate_route sample_service (sample_request ''support-assistant'' None) sample_start = (Inr d, w1) \<and>
     rp_resolve sample_policies ''support-assistant'' w1 = (Inr support_assistant_policy, w1) \<and>
     invoke_uncached sample_orchestrator (sample_request ''support-assistant'' None) sample_start = (Inr r, w1) \<and>
     dec_selected_model_alias d = Some ''balanced-text-primary'' \<and>
     dec_selected_model_alias (res_decision r) = Some ''balanced-text-secondary'' \<and>
     res_invocation_attempts r = sample_attempts \<and> res_response r \<noteq> None"
  by (rule sample_invoke_from) (simp add: sample_start_def)

theorem invocation_result_consistent_witness:
  "\<exists>r s'. invoke_uncached sample_orchestrator (sample_request ''support-assistant'' None) sample_start = (Inr r, s') \<and>
     res_invocation_attempts r = sample_attempts \<and> dec_fallback_used (res_decision r) \<and>
     {FALLBACK_SELECTED, MODEL_THROTTLED} \<subseteq> set (dec_reason_codes (res_decision r))"
proof -
  obtain r d w1 where i: "evaluate_route sample_service (sample_request ''support-assistant'' None) sample_start = (Inr d, w1)"
    "rp_resolve sample_policies ''support-assistant'' w1 = (Inr support_assistant_policy, w1)"
    "invoke_uncached sample_orchestrator (sample_request ''support-assistant'' None) sample_start = (Inr r, w1)"
    "dec_selected_model_alias d = Some ''balanced-text-primary''"
    "dec_selected_model_alias (res_decision r) = Some ''balanced-text-secondary''"
    "res_invocation_attempts r = sample_attempts"
    using sample_invoke by blast
  have e: "evaluate_route (orc_route_evaluation_service sample_orchestrator) (sample_request ''support-assistant'' None) sample_start = (Inr d, w1)"
    and p: "rp_resolve (orc_policy_repository sample_orchestrator)
      (ir_application_id (sample_request ''support-assistant'' None)) w1 = (Inr support_assistant_policy, w1)"
    using i(1,2) by simp_all
  from invocation_result_consistent[OF i(3) e p] i(4,5,6)
  have "dec_fallback_used (res_decision r)"
    "{FALLBACK_SELECTED, MODEL_THROTTLED} \<subseteq> set (dec_reason_codes (res_decision r))"
    by (auto simp: sample_attempts_def run_codes_def)
  with i(3,6) show ?thesis by blast
qed

theorem invocation_bounded_witness:
  "\<exists>r s'. invoke_uncached sample_orchestrator (sample_request ''support-assistant'' None) sample_start = (Inr r, s') \<and>
     int (length (res_invocation_attempts r)) \<le> 2 \<and>
     at_model_alias ` set (res_invocation_attempts r) \<subseteq> set (pol_allowed_model_aliases support_assistant_policy)"
proof -
  obtain r d w1 where i: "evaluate_route sample_service (sample_request ''support-assistant'' None) sample_start = (Inr d, w1)"
    "rp_resolve sample_policies ''support-assistant'' w1 = (Inr support_assistant_policy, w1)"
    "invoke_uncached sample_orchestrator (sample_request ''support-assistant'' None) sample_start = (Inr r, w1)"
    using sample_invoke by blast
  have q: "rp_resolve (svc_policy_repository (orc_route_evaluation_service sample_orchestrator))
      (ir_application_id (sample_request ''support-assistant'' None)) sample_start
      = (Inr support_assistant_policy, sample_resolved)"
    by (simp add: sample_service_def sample_resolve)
  have e: "evaluate_route (orc_route_evaluation_service sample_orchestrator) (sample_request ''support-assistant'' None) sample_start = (Inr d, w1)"
    and p: "rp_resolve (orc_policy_repository sample_orchestrator)
      (ir_application_id (sample_request ''support-assistant'' None)) w1 = (Inr support_assistant_policy, w1)"
    using i(1,2) by simp_all
  from invocation_bounded[OF i(3) q e p shipped_policies_ok(4)] i(3) show ?thesis by auto
qed

section \<open>Invocation returns\<close>

text \<open>
  The environment an orchestrator can rely on: its providers raise nothing but
  \<open>ProviderError\<close>, the monotonic clock does not run backwards over a call, and the stores and
  publishers return.
\<close>

locale orchestrator_environment =
  fixes orc :: "'s orchestrator" and tm :: "'s \<Rightarrow> rat"
  assumes clock_reads: "orc_monotonic orc s = (Inr (tm s), s)"
    and provider_raises: "mp_invoke (orc_model_provider orc) pr s = (Inl e, s') \<Longrightarrow>
      provider_error_category_of e \<noteq> None"
    and provider_time: "mp_invoke (orc_model_provider orc) pr s = (x, s') \<Longrightarrow> tm s \<le> tm s'"
    and health_returns: "orc_model_health_repository orc = Some h \<Longrightarrow> total_io (mh_record_outcome h a st)"
    and save_returns: "orc_decision_repository orc = Some rd \<Longrightarrow> total_io (rd_save rd rec)"
    and metrics_returns: "orc_metrics_publisher orc = Some mx \<Longrightarrow> total_io (mx_publish mx res)"
    and events_returns: "orc_decision_event_publisher orc = Some dp \<Longrightarrow> total_io (dp_publish dp res)"
begin

lemma finish_total: "\<exists>s'. finish orc r s = (Inr r, s')"
proof -
  have "total_io (finish orc r)"
    unfolding finish_def persist_def publish_metrics_def publish_decision_event_def when_some_def
    by (intro total_io_bind)
      (auto simp: save_returns metrics_returns events_returns split: option.splits)
  then obtain x s' where x: "finish orc r s = (Inr x, s')" by (rule total_ioE)
  show ?thesis using x unfolding finish_Inr[OF x] by (rule exI)
qed

lemma elapsed_nonneg: "t \<le> t' \<Longrightarrow> 0 \<le> elapsed_ms t t'"
  unfolding elapsed_ms_def
  by (intro int_trunc_nonneg float_round_nonneg mult_nonneg_nonneg) auto

lemma close_total:
  assumes "t \<le> tm s"
  shows "\<exists>att s'. close_attempt orc a st t s = (Inr att, s')"
proof -
  have "total_io (record_health_outcome orc a st)"
    by (auto simp: record_health_outcome_def when_some_def health_returns split: option.split)
  then obtain u s' where "record_health_outcome orc a st s = (Inr u, s')" by (rule total_ioE)
  then show ?thesis
    using elapsed_nonneg[OF assms]
    by (simp add: close_attempt_def io_run clock_reads mk_invocation_attempt_def)
qed

lemma attempt_total:
  assumes "ir_messages request \<noteq> []" and "0 < eff_maximum_output_tokens eff"
  shows "\<exists>st s'. invoke_attempt orc request d eff a s = (Inr st, s')"
proof -
  obtain pr where pr: "make_provider_request request eff a = Inr pr"
    using assms by (simp add: make_provider_request_def)
  obtain x s1 where x: "mp_invoke (orc_model_provider orc) pr s = (x, s1)" by fastforce
  have t: "tm s \<le> tm s1" using x by (rule provider_time)
  show ?thesis
  proof (cases x)
    case (Inl e)
    then obtain c where c: "provider_error_category_of e = Some c" using provider_raises x by blast
    obtain att s2 where "close_attempt orc a (status_for_provider_error_category c) (tm s) s1 = (Inr att, s2)"
      using close_total[OF t] by blast
    then show ?thesis
      by (simp add: invoke_attempt_def pr bind_lift_Inr io_run clock_reads x Inl c)
  next
    case (Inr r)
    obtain att s2 where "close_attempt orc a Attempt_SUCCEEDED (tm s) s1 = (Inr att, s2)"
      using close_total[OF t] by blast
    then show ?thesis
      by (simp add: invoke_attempt_def pr bind_lift_Inr io_run clock_reads x Inr)
  qed
qed

lemma attempt_chain_total:
  assumes "ir_messages request \<noteq> []" and "0 < eff_maximum_output_tokens eff"
  shows "\<exists>p s'. attempt_chain orc request d eff chain ats codes s = (Inr p, s')"
proof (induction chain arbitrary: ats codes s)
  case (Cons a chain)
  obtain st s1 where st: "invoke_attempt orc request d eff a s = (Inr st, s1)"
    using attempt_total[OF assms] by blast
  then show ?case
    using Cons.IH by (cases st) (simp_all add: io_run)
qed (simp add: io_run)

lemma invocation_total:
  assumes d: "evaluate_route (orc_route_evaluation_service orc) request s = (Inr d, s1)"
    and p: "rp_resolve (orc_policy_repository orc) (ir_application_id request) s1 = (Inr p, s2)"
    and ok: "policy_ok p" "routing_requirements_ok (ir_requirements request)" "ir_messages request \<noteq> []"
  shows "\<exists>r s'. invoke_uncached orc request s = (Inr r, s')"
proof (cases "build_candidate_chain d (pol_fallback_policy p) = []")
  case True
  obtain s' where "finish orc \<lparr>res_decision = d, res_response = None, res_invocation_attempts = []\<rparr> s2 =
      (Inr \<lparr>res_decision = d, res_response = None, res_invocation_attempts = []\<rparr>, s')"
    using finish_total by (rule exE)
  with d p True show ?thesis by (simp add: invoke_uncached_def io_run Let_def)
next
  case False
  let ?eff = "resolve_effective_requirements (ir_requirements request) p"
  let ?chain = "build_candidate_chain d (pol_fallback_policy p)"
  obtain prg s3 where a: "attempt_chain orc request d ?eff ?chain [] [] s2 = (Inr prg, s3)"
    using attempt_chain_total[OF ok(3) resolve_output_tokens_pos[OF ok(1,2)]] by blast
  have "x \<in> set (eligible_aliases d)" if "prg_succeeded_alias prg = Some x" for x
    using attempt_chain_follows[OF a] that attempts_follow_succeeded
      chain_subset_eligible[OF evaluate_route_wf[OF d]] by fastforce
  then obtain f where f: "aggregate_decision d (prg_succeeded_alias prg) (prg_reason_codes prg) = Inr f"
    using aggregate_decision_total by blast
  obtain s' where "finish orc \<lparr>res_decision = f,
            res_response = (if prg_succeeded_alias prg \<noteq> None then prg_response prg else None),
            res_invocation_attempts = prg_attempts prg\<rparr> s3 = (Inr \<lparr>res_decision = f,
            res_response = (if prg_succeeded_alias prg \<noteq> None then prg_response prg else None),
            res_invocation_attempts = prg_attempts prg\<rparr>, s')"
    using finish_total by (rule exE)
  then show ?thesis using d p False a f by (simp add: invoke_uncached_def io_run Let_def)
qed

end

interpretation sample_env: orchestrator_environment sample_orchestrator "\<lambda>w. 1"
  by unfold_locales
    (auto simp: sample_orchestrator_def sample_provider_def split: if_splits)



end
