(* ===== verification/Streaming.thy ===== *)
theory Streaming
  imports Invocation_Results
begin

text \<open>
  The streaming path of \<open>src/application/invocation_orchestrator.py\<close>.  \<open>invoke_stream\<close> returns a
  generator; a consumer pulls items from it and may stop at any time.  The model runs the
  generator for a consumer that pulls at most \<open>n\<close> times: the chunks it was given, how the stream
  stood when it stopped, and the state it left.  No pull, nothing happens.
\<close>

datatype stream_end = Stream_Abandoned | Stream_Finished inference_result | Stream_Raised exn

text \<open>\<open>StopIteration\<close> that leaves a generator's body becomes \<open>RuntimeError\<close> (PEP 479).\<close>

definition generator_exn :: "exn \<Rightarrow> exn" where
  "generator_exn e = (if e = Stop_Iteration then Foreign_Error ''RuntimeError'' else e)"

section \<open>Establishing the stream\<close>

text \<open>The \<open>try\<close> block: create the iterator and take its first chunk.\<close>

definition open_stream ::
  "'s orchestrator \<Rightarrow> (provider_request \<Rightarrow> ('s, nat) op) \<Rightarrow> provider_request \<Rightarrow>
   ('s, nat \<times> provider_response_chunk) op" where
  "open_stream orc start pr =
     bind_io (start pr) (\<lambda>h.
     bind_io (mp_next (orc_model_provider orc) h) (\<lambda>first.
       case first of
         None \<Rightarrow> raise_io Stop_Iteration
       | Some c \<Rightarrow> return_io (h, c)))"

datatype stream_commit =
  No_Stream "invocation_attempt list" "routing_reason_code list"
| Committed str nat provider_response_chunk rat "invocation_attempt list" "routing_reason_code list"

fun open_chain ::
  "'s orchestrator \<Rightarrow> (provider_request \<Rightarrow> ('s, nat) op) \<Rightarrow> inference_request \<Rightarrow> routing_decision \<Rightarrow>
   effective_requirements \<Rightarrow> str list \<Rightarrow> invocation_attempt list \<Rightarrow> routing_reason_code list \<Rightarrow>
   ('s, stream_commit) op" where
  "open_chain orc start request decision effective [] attempts codes = return_io (No_Stream attempts codes)"
| "open_chain orc start request decision effective (candidate # chain) attempts codes =
     bind_io (lift_r (make_provider_request request effective candidate)) (\<lambda>pr.
     bind_io (orc_monotonic orc) (\<lambda>started_at.
     bind_io (attempt_io (open_stream orc start pr)) (\<lambda>outcome.
       case outcome of
         Inl e \<Rightarrow>
           (case provider_error_category_of e of
              None \<Rightarrow> raise_io e
            | Some category \<Rightarrow>
                bind_io (close_attempt orc candidate (status_for_provider_error_category category)
                           started_at) (\<lambda>att.
                if category = Category_PERMANENT
                then return_io (No_Stream (attempts @ [att]) (codes @ error_codes category))
                else open_chain orc start request decision effective chain
                       (attempts @ [att]) (codes @ error_codes category)))
       | Inr opened \<Rightarrow>
           return_io (Committed candidate (fst opened) (snd opened) started_at attempts
             (codes @ (if Some candidate \<noteq> dec_selected_model_alias decision then [FALLBACK_SELECTED] else [])))
       )))"

section \<open>Delivering it\<close>

datatype forward_end = Forward_Stopped | Forward_Exhausted | Forward_Raised exn

text \<open>\<open>yield from chunk_iterator\<close>, for a consumer that pulls \<open>n\<close> more times.\<close>

fun forward_chunks ::
  "nat \<Rightarrow> ('s, provider_response_chunk option) op \<Rightarrow> 's \<Rightarrow> (provider_response_chunk list \<times> forward_end) \<times> 's" where
  "forward_chunks 0 nxt s = (([], Forward_Stopped), s)"
| "forward_chunks (Suc n) nxt s =
     (case nxt s of
        (Inl e, s') \<Rightarrow> (([], Forward_Raised e), s')
      | (Inr None, s') \<Rightarrow> (([], Forward_Exhausted), s')
      | (Inr (Some c), s') \<Rightarrow>
          (case forward_chunks n nxt s' of ((cs, fe), s'') \<Rightarrow> ((c # cs, fe), s'')))"

definition finalize_stream ::
  "'s orchestrator \<Rightarrow> routing_decision \<Rightarrow> str option \<Rightarrow> routing_reason_code list \<Rightarrow>
   invocation_attempt list \<Rightarrow> ('s, inference_result) op" where
  "finalize_stream orc decision succeeded_alias codes attempts =
     bind_io (lift_r (aggregate_decision decision succeeded_alias codes)) (\<lambda>final_decision.
       finish orc \<lparr>res_decision = final_decision, res_response = None, res_invocation_attempts = attempts\<rparr>)"

text \<open>Closing the committed attempt and finalizing, on success and on a \<open>ProviderError\<close>.\<close>

definition settle ::
  "'s orchestrator \<Rightarrow> routing_decision \<Rightarrow> str \<Rightarrow> invocation_attempt_status \<Rightarrow> str option \<Rightarrow> rat \<Rightarrow>
   invocation_attempt list \<Rightarrow> routing_reason_code list \<Rightarrow> ('s, inference_result) op" where
  "settle orc decision candidate status succeeded_alias started_at attempts codes =
     bind_io (close_attempt orc candidate status started_at) (\<lambda>att.
       finalize_stream orc decision succeeded_alias codes (attempts @ [att]))"

fun deliver ::
  "'s orchestrator \<Rightarrow> routing_decision \<Rightarrow> stream_commit \<Rightarrow> nat \<Rightarrow> 's \<Rightarrow>
   (provider_response_chunk list \<times> stream_end) \<times> 's" where
  "deliver orc decision (No_Stream attempts codes) n s =
     (case finalize_stream orc decision None codes attempts s of
        (Inl e, s') \<Rightarrow> (([], Stream_Raised e), s')
      | (Inr r, s') \<Rightarrow> (([], Stream_Finished r), s'))"
| "deliver orc decision (Committed candidate h first started_at attempts codes) n s =
     (case forward_chunks n (mp_next (orc_model_provider orc) h) s of
        ((cs, Forward_Stopped), s1) \<Rightarrow> ((first # cs, Stream_Abandoned), s1)
      | ((cs, Forward_Exhausted), s1) \<Rightarrow>
          (case settle orc decision candidate Attempt_SUCCEEDED (Some candidate) started_at attempts codes s1 of
             (Inl e, s2) \<Rightarrow> ((first # cs, Stream_Raised e), s2)
           | (Inr r, s2) \<Rightarrow> ((first # cs, Stream_Finished r), s2))
      | ((cs, Forward_Raised e), s1) \<Rightarrow>
          (case provider_error_category_of e of
             None \<Rightarrow> ((first # cs, Stream_Raised e), s1)
           | Some category \<Rightarrow>
               (case settle orc decision candidate (status_for_provider_error_category category) None
                       started_at attempts codes s1 of
                  (Inl e', s2) \<Rightarrow> ((first # cs, Stream_Raised e'), s2)
                | (Inr r, s2) \<Rightarrow> ((first # cs, Stream_Raised e), s2))))"

section \<open>The generator\<close>

definition prepare_stream ::
  "'s orchestrator \<Rightarrow> (provider_request \<Rightarrow> ('s, nat) op) \<Rightarrow> inference_request \<Rightarrow>
   ('s, routing_decision \<times> stream_commit) op" where
  "prepare_stream orc start request =
     bind_io (evaluate_route (orc_route_evaluation_service orc) request) (\<lambda>decision.
     bind_io (rp_resolve (orc_policy_repository orc) (ir_application_id request)) (\<lambda>policy.
       let chain = build_candidate_chain decision (pol_fallback_policy policy)
       in if chain = [] then return_io (decision, No_Stream [] [])
          else bind_io (open_chain orc start request decision
                          (resolve_effective_requirements (ir_requirements request) policy) chain [] []) (\<lambda>c.
               return_io (decision, c))))"

fun invoke_stream_uncached ::
  "'s orchestrator \<Rightarrow> (provider_request \<Rightarrow> ('s, nat) op) \<Rightarrow> inference_request \<Rightarrow> nat \<Rightarrow> 's \<Rightarrow>
   (provider_response_chunk list \<times> stream_end) \<times> 's" where
  "invoke_stream_uncached orc start request 0 s = (([], Stream_Abandoned), s)"
| "invoke_stream_uncached orc start request (Suc n) s =
     (case prepare_stream orc start request s of
        (Inl e, s') \<Rightarrow> (([], Stream_Raised e), s')
      | (Inr dc, s') \<Rightarrow> deliver orc (fst dc) (snd dc) n s')"

fun leave_generator :: "stream_end \<Rightarrow> stream_end" where
  "leave_generator (Stream_Raised e) = Stream_Raised (generator_exn e)"
| "leave_generator fin = fin"

definition run_stream ::
  "'s orchestrator \<Rightarrow> (provider_request \<Rightarrow> ('s, nat) op) \<Rightarrow> inference_request \<Rightarrow> nat \<Rightarrow> 's \<Rightarrow>
   (provider_response_chunk list \<times> stream_end) \<times> 's" where
  "run_stream orc start request n s =
     (case invoke_stream_uncached orc start request n s of ((cs, fin), s') \<Rightarrow> ((cs, leave_generator fin), s'))"

text \<open>The eager checks; the returned generator as the function from the number of pulls.\<close>

definition invoke_stream ::
  "'s orchestrator \<Rightarrow> inference_request \<Rightarrow>
   (nat \<Rightarrow> 's \<Rightarrow> (provider_response_chunk list \<times> stream_end) \<times> 's) result" where
  "invoke_stream orc request =
     (if ir_idempotency_key request \<noteq> None
      then Inl (ProviderError ''invoke_stream does not support idempotency keys (Phase 10c).'' Category_PERMANENT)
      else case mp_invoke_stream (orc_model_provider orc) of
             None \<Rightarrow> Inl (ProviderError
               ''The configured model provider does not implement StreamingModelProvider.'' Category_PERMANENT)
           | Some start \<Rightarrow> Inr (run_stream orc start request))"

section \<open>The chain of attempts\<close>

fun commit_follows :: "str list \<Rightarrow> str option \<Rightarrow> invocation_attempt list \<Rightarrow> routing_reason_code list \<Rightarrow>
    stream_commit \<Rightarrow> bool" where
  "commit_follows chain selected ats codes (No_Stream ats' codes') \<longleftrightarrow>
     (\<exists>run. ats' = ats @ run \<and> attempts_follow chain run None \<and>
        set codes' = set codes \<union> run_codes run None selected)"
| "commit_follows chain selected ats codes (Committed a h c t ats' codes') \<longleftrightarrow>
     (\<exists>run. ats' = ats @ run \<and>
        (\<forall>att. at_model_alias att = a \<longrightarrow> 0 \<le> at_latency_ms att \<longrightarrow> at_status att = Attempt_SUCCEEDED \<longrightarrow>
           attempts_follow chain (run @ [att]) (Some a)) \<and>
        set codes' = set codes \<union> run_codes run (Some a) selected)"

lemma open_chain_follows:
  assumes "open_chain orc start request d eff chain ats codes s = (Inr k, s')"
  shows "commit_follows chain (dec_selected_model_alias d) ats codes k"
  using assms
proof (induction chain arbitrary: ats codes s)
  case Nil
  then show ?case by (auto simp: io_inv run_codes_def)
next
  case (Cons a chain)
  obtain pr where pr: "make_provider_request request eff a = Inr pr"
    using Cons.prems by (cases "make_provider_request request eff a") (auto simp: io_run)
  obtain t s1 where t: "orc_monotonic orc s = (Inr t, s1)"
    using Cons.prems by (auto simp: pr bind_lift_Inr io_inv)
  obtain x s2 where x: "open_stream orc start pr s1 = (x, s2)" by (rule prod.exhaust)
  show ?case
  proof (cases x)
    case (Inr hc)
    then have "k = Committed a (fst hc) (snd hc) t ats
        (codes @ (if Some a \<noteq> dec_selected_model_alias d then [FALLBACK_SELECTED] else []))"
      using Cons.prems by (auto simp: pr bind_lift_Inr t x io_run)
    then show ?thesis by (auto simp: run_codes_def)
  next
    case (Inl e)
    then obtain c where c: "provider_error_category_of e = Some c"
      using Cons.prems by (cases "provider_error_category_of e") (auto simp: pr bind_lift_Inr t x io_run)
    obtain att s3 where att: "close_attempt orc a (status_for_provider_error_category c) t s2 = (Inr att, s3)"
      "(if c = Category_PERMANENT then return_io (No_Stream (ats @ [att]) (codes @ error_codes c))
        else open_chain orc start request d eff chain (ats @ [att]) (codes @ error_codes c)) s3 = (Inr k, s')"
      using Cons.prems
      by (auto simp: pr bind_lift_Inr t x Inl c io_run split: prod.splits sum.splits)
    note one = close_attempt_Inr[OF att(1)]
    show ?thesis
    proof (cases "c = Category_PERMANENT")
      case True
      then show ?thesis using att(2) one by (auto simp: io_inv error_codes_status run_codes_def)
    next
      case False
      then have "commit_follows chain (dec_selected_model_alias d) (ats @ [att]) (codes @ error_codes c) k"
        using Cons.IH att(2) by simp
      moreover have "attempts_follow (a # chain) (att # run) x \<longleftrightarrow> attempts_follow chain run x" for run x
        using one False by (cases c) auto
      ultimately show ?thesis
        using one by (cases k) (auto simp: error_codes_status run_codes_def)
    qed
  qed
qed

section \<open>Inversion\<close>

lemma leave_generator_eq [simp]:
  "leave_generator fin = Stream_Finished r \<longleftrightarrow> fin = Stream_Finished r"
  "leave_generator fin = Stream_Abandoned \<longleftrightarrow> fin = Stream_Abandoned"
  by (cases fin; simp)+

lemma finalize_stream_Inr:
  assumes "finalize_stream orc d succeeded codes ats s = (Inr r, s')"
  obtains f where "aggregate_decision d succeeded codes = Inr f"
    "r = \<lparr>res_decision = f, res_response = None, res_invocation_attempts = ats\<rparr>" "finish orc r s = (Inr r, s')"
proof -
  obtain f where f: "aggregate_decision d succeeded codes = Inr f"
    and fin: "finish orc \<lparr>res_decision = f, res_response = None, res_invocation_attempts = ats\<rparr> s = (Inr r, s')"
    using assms by (auto simp: finalize_stream_def io_inv)
  note r = finish_Inr[OF fin]
  show thesis by (rule that[OF f r fin[folded r]])
qed

lemma settle_Inr:
  assumes "settle orc d a st succeeded t ats codes s = (Inr r, s')"
  obtains att s1 where "close_attempt orc a st t s = (Inr att, s1)"
    "finalize_stream orc d succeeded codes (ats @ [att]) s1 = (Inr r, s')"
  using assms by (auto simp: settle_def io_inv)

lemma deliver_finished:
  assumes "deliver orc d k n s = ((cs, Stream_Finished r), s')"
  obtains (none) ats codes where "k = No_Stream ats codes" "cs = []"
      "finalize_stream orc d None codes ats s = (Inr r, s')"
  | (some) a h c t ats codes cs' s1 where "k = Committed a h c t ats codes" "cs = c # cs'"
      "forward_chunks n (mp_next (orc_model_provider orc) h) s = ((cs', Forward_Exhausted), s1)"
      "settle orc d a Attempt_SUCCEEDED (Some a) t ats codes s1 = (Inr r, s')"
proof (cases k)
  case (No_Stream ats codes)
  then show ?thesis using assms none by (auto split: prod.splits sum.splits)
next
  case (Committed a h c t ats codes)
  obtain cs' fe s1 where f: "forward_chunks n (mp_next (orc_model_provider orc) h) s = ((cs', fe), s1)"
    by (metis surj_pair)
  then show ?thesis
    using assms Committed some
    by (cases fe) (auto split: prod.splits sum.splits option.splits)
qed

lemma run_stream_prepared:
  assumes "run_stream orc start request n s = ((cs, fin), s')" and "fin = Stream_Finished r \<or> cs \<noteq> []"
  obtains m d k s1 fin' where "n = Suc m" "prepare_stream orc start request s = (Inr (d, k), s1)"
    "deliver orc d k m s1 = ((cs, fin'), s')" "fin = leave_generator fin'"
proof (cases n)
  case 0
  then show ?thesis using assms by (auto simp: run_stream_def)
next
  case (Suc m)
  obtain x s1 where x: "prepare_stream orc start request s = (x, s1)" by (rule prod.exhaust)
  obtain dc where dc: "x = Inr dc" using assms Suc x by (cases x) (auto simp: run_stream_def)
  obtain d k where dk: "dc = (d, k)" by (rule prod.exhaust)
  obtain cs2 fin2 s2 where del: "deliver orc d k m s1 = ((cs2, fin2), s2)" by (metis surj_pair)
  show ?thesis
    using assms Suc x dc dk del by (intro that[of m d k s1 fin2]) (auto simp: run_stream_def)
qed

lemma prepare_stream_Inr:
  assumes "prepare_stream orc start request s = (Inr (d, k), s')"
    and "evaluate_route (orc_route_evaluation_service orc) request s = (Inr d0, s1)"
    and "rp_resolve (orc_policy_repository orc) (ir_application_id request) s1 = (Inr p, s2)"
  shows "d = d0 \<and> commit_follows (build_candidate_chain d0 (pol_fallback_policy p)) (dec_selected_model_alias d0) [] [] k"
proof (cases "build_candidate_chain d0 (pol_fallback_policy p) = []")
  case True
  then show ?thesis using assms by (auto simp: prepare_stream_def Let_def io_run run_codes_def)
next
  case False
  then have "d = d0" "open_chain orc start request d0 (resolve_effective_requirements (ir_requirements request) p)
      (build_candidate_chain d0 (pol_fallback_policy p)) [] [] s2 = (Inr k, s')"
    using assms by (auto simp: prepare_stream_def Let_def io_run split: prod.splits sum.splits)
  then show ?thesis by (simp add: open_chain_follows)
qed

section \<open>Properties\<close>

text \<open>
  C28. The result of a stream that was drained is consistent: its attempts are a run of the
  candidate chain by the same rules as without streaming, chunks were delivered exactly when the
  final decision names a model, whose attempt succeeded, the response is never kept, and the
  reason codes are those of the decision and of the attempts.
\<close>

theorem stream_result_consistent:
  assumes "run_stream orc start request n s = ((cs, Stream_Finished r), s')"
    and "evaluate_route (orc_route_evaluation_service orc) request s = (Inr d, s1)"
    and "rp_resolve (orc_policy_repository orc) (ir_application_id request) s1 = (Inr p, s2)"
  defines "f \<equiv> res_decision r"
  shows "attempts_follow (build_candidate_chain d (pol_fallback_policy p))
      (res_invocation_attempts r) (dec_selected_model_alias f) \<and>
    (cs \<noteq> [] \<longleftrightarrow> dec_selected_model_alias f \<noteq> None) \<and> res_response r = None \<and>
    (dec_fallback_used f \<longleftrightarrow> dec_selected_model_alias f \<notin> {None, dec_selected_model_alias d}) \<and>
    set (dec_reason_codes f) = (set (dec_reason_codes d) - {NO_ELIGIBLE_MODEL}) \<union>
      run_codes (res_invocation_attempts r) (dec_selected_model_alias f) (dec_selected_model_alias d)"
proof -
  let ?chain = "build_candidate_chain d (pol_fallback_policy p)" and ?sel = "dec_selected_model_alias d"
  obtain m d' k s3 where k: "prepare_stream orc start request s = (Inr (d', k), s3)"
    "deliver orc d' k m s3 = ((cs, Stream_Finished r), s')"
    using run_stream_prepared[OF assms(1)] by (metis leave_generator_eq(1))
  have "d' = d" and follow: "commit_follows ?chain ?sel [] [] k"
    using prepare_stream_Inr[OF k(1) assms(2,3)] by simp_all
  from k(2)[unfolded \<open>d' = d\<close>] show ?thesis
  proof (cases rule: deliver_finished)
    case (none ats codes)
    obtain g where g: "aggregate_decision d None codes = Inr g"
      "r = \<lparr>res_decision = g, res_response = None, res_invocation_attempts = ats\<rparr>"
      using none(3) by (rule finalize_stream_Inr)
    show ?thesis
      using follow none(1,2) g aggregate_decision_Inr[OF g(1)] by (auto simp: f_def)
  next
    case (some a h c t ats codes cs' s4)
    obtain att s5 where att: "close_attempt orc a Attempt_SUCCEEDED t s4 = (Inr att, s5)"
      "finalize_stream orc d (Some a) codes (ats @ [att]) s5 = (Inr r, s')"
      using some(4) by (rule settle_Inr)
    obtain g where g: "aggregate_decision d (Some a) codes = Inr g"
      "r = \<lparr>res_decision = g, res_response = None, res_invocation_attempts = ats @ [att]\<rparr>"
      using att(2) by (rule finalize_stream_Inr)
    have "run_codes (ats @ [att]) (Some a) ?sel = run_codes ats (Some a) ?sel"
      using close_attempt_Inr[OF att(1)] by (auto simp: run_codes_def)
    then show ?thesis
      using follow some(1,2) g aggregate_decision_Inr[OF g(1)] close_attempt_Inr[OF att(1)]
      by (auto simp: f_def)
  qed
qed

text \<open>
  The chunks \<open>cs\<close> are the next ones of the iterator, from one state to the other.
\<close>

fun yields :: "('s, provider_response_chunk option) op \<Rightarrow> provider_response_chunk list \<Rightarrow> 's \<Rightarrow> 's \<Rightarrow> bool" where
  "yields nxt [] t t' \<longleftrightarrow> t' = t"
| "yields nxt (c # cs) t t' \<longleftrightarrow> (\<exists>t1. nxt t = (Inr (Some c), t1) \<and> yields nxt cs t1 t')"

lemma forward_yields:
  "forward_chunks n nxt s = ((cs, fe), s') \<Longrightarrow> \<exists>t. yields nxt cs s t \<and>
     (case fe of Forward_Stopped \<Rightarrow> s' = t | Forward_Exhausted \<Rightarrow> nxt t = (Inr None, s')
      | Forward_Raised e \<Rightarrow> nxt t = (Inl e, s'))"
  by (induction n nxt s arbitrary: cs rule: forward_chunks.induct)
    (auto split: prod.splits sum.splits option.splits)

lemma forward_complete:
  "yields nxt cs s t \<Longrightarrow> nxt t = (Inr None, s') \<Longrightarrow> length cs < n \<Longrightarrow>
   forward_chunks n nxt s = ((cs, Forward_Exhausted), s')"
proof (induction cs arbitrary: n s)
  case Nil
  then show ?case by (cases n) auto
next
  case (Cons c cs)
  then show ?case by (cases n) auto
qed

definition committed_by ::
  "'s orchestrator \<Rightarrow> (provider_request \<Rightarrow> ('s, nat) op) \<Rightarrow> str \<Rightarrow> nat \<Rightarrow> provider_response_chunk \<Rightarrow> 's \<Rightarrow> bool" where
  "committed_by orc start a h c s \<longleftrightarrow>
     (\<exists>pr s0 s1. pr_model_alias pr = a \<and> start pr s0 = (Inr h, s1) \<and>
        mp_next (orc_model_provider orc) h s1 = (Inr (Some c), s))"

lemma open_chain_committed:
  assumes "open_chain orc start request d eff chain ats codes s = (Inr (Committed a h c t ats' codes'), s')"
  shows "a \<in> set chain \<and> committed_by orc start a h c s'"
  using assms
proof (induction chain arbitrary: ats codes s)
  case Nil
  then show ?case by (simp add: io_inv)
next
  case (Cons b chain)
  obtain pr where pr: "make_provider_request request eff b = Inr pr"
    using Cons.prems by (cases "make_provider_request request eff b") (auto simp: io_run)
  then have al: "pr_model_alias pr = b" by (auto simp: make_provider_request_def)
  obtain t0 s1 where t: "orc_monotonic orc s = (Inr t0, s1)"
    using Cons.prems by (auto simp: pr bind_lift_Inr io_inv)
  obtain x s2 where x: "open_stream orc start pr s1 = (x, s2)" by (rule prod.exhaust)
  show ?case
  proof (cases x)
    case (Inr hc)
    then have eq: "hc = (h, c)" "b = a" "s2 = s'"
      using Cons.prems by (auto simp: pr bind_lift_Inr t x io_run)
    obtain s3 where "start pr s1 = (Inr h, s3)" "mp_next (orc_model_provider orc) h s3 = (Inr (Some c), s')"
      using x Inr eq by (auto simp: open_stream_def io_inv split: option.splits)
    then show ?thesis using al eq(2) by (auto simp: committed_by_def)
  next
    case (Inl e)
    then obtain cat where c: "provider_error_category_of e = Some cat"
      using Cons.prems by (cases "provider_error_category_of e") (auto simp: pr bind_lift_Inr t x io_run)
    obtain att s3 where "close_attempt orc b (status_for_provider_error_category cat) t0 s2 = (Inr att, s3)"
      "(if cat = Category_PERMANENT then return_io (No_Stream (ats @ [att]) (codes @ error_codes cat))
        else open_chain orc start request d eff chain (ats @ [att]) (codes @ error_codes cat)) s3
        = (Inr (Committed a h c t ats' codes'), s')"
      using Cons.prems
      by (auto simp: pr bind_lift_Inr t x Inl c io_run split: prod.splits sum.splits)
    then show ?thesis using Cons.IH by (auto simp: io_inv split: if_splits)
  qed
qed

text \<open>
  C29. One model per stream: every chunk the consumer is given comes from one and the same
  iterator, opened for a model of the candidate chain, in the order that iterator produced them;
  whatever happens after the first chunk, no other model is tried.
\<close>

theorem stream_single_source:
  assumes "run_stream orc start request n s = ((c # cs, fin), s')"
    and "evaluate_route (orc_route_evaluation_service orc) request s = (Inr d, s1)"
    and "rp_resolve (orc_policy_repository orc) (ir_application_id request) s1 = (Inr p, s2)"
  shows "\<exists>a h t t'. a \<in> set (build_candidate_chain d (pol_fallback_policy p)) \<and>
    committed_by orc start a h c t \<and> yields (mp_next (orc_model_provider orc) h) cs t t'"
proof -
  from assms(1) obtain m d' k s3 fin' where "n = Suc m" and k: "prepare_stream orc start request s = (Inr (d', k), s3)"
    "deliver orc d' k m s3 = ((c # cs, fin'), s')" and "fin = leave_generator fin'"
    by (rule run_stream_prepared) simp
  obtain a h c0 t ats codes where kk: "k = Committed a h c0 t ats codes"
    using k(2) by (cases k) (auto split: prod.splits sum.splits)
  obtain cs' fe s4 where f: "forward_chunks m (mp_next (orc_model_provider orc) h) s3 = ((cs', fe), s4)"
    by (metis surj_pair)
  have eq: "c0 = c" "cs' = cs"
    using k(2) f unfolding kk by (cases fe; auto split: prod.splits sum.splits option.splits)+
  have "open_chain orc start request d (resolve_effective_requirements (ir_requirements request) p)
      (build_candidate_chain d (pol_fallback_policy p)) [] [] s2 = (Inr k, s3)"
    using k(1) assms(2,3) kk by (auto simp: prepare_stream_def Let_def io_run split: if_splits prod.splits sum.splits)
  from open_chain_committed[OF this[unfolded kk]] forward_yields[OF f] show ?thesis
    unfolding eq by blast
qed

abbreviation set_recorders ::
  "'s routing_decision_repository option \<Rightarrow> 's metrics_publisher option \<Rightarrow> 's decision_event_publisher option \<Rightarrow>
   's orchestrator \<Rightarrow> 's orchestrator" where
  "set_recorders rd mx dp orc \<equiv>
     orc\<lparr>orc_decision_repository := rd, orc_metrics_publisher := mx, orc_decision_event_publisher := dp\<rparr>"

lemma open_chain_recorders:
  "open_chain (set_recorders rd mx dp orc) start request d eff chain ats codes =
   open_chain orc start request d eff chain ats codes"
proof (induction chain arbitrary: ats codes)
  case (Cons a chain)
  have close: "close_attempt (set_recorders rd mx dp orc) = close_attempt orc"
    by (simp add: close_attempt_def record_health_outcome_def fun_eq_iff)
  have op: "open_stream (set_recorders rd mx dp orc) start = open_stream orc start"
    by (simp add: open_stream_def fun_eq_iff)
  have fields: "orc_monotonic (set_recorders rd mx dp orc) = orc_monotonic orc" by simp
  show ?case unfolding open_chain.simps close op fields Cons.IH by (rule refl)
qed simp

lemma prepare_stream_recorders:
  "prepare_stream (set_recorders rd mx dp orc) start request = prepare_stream orc start request"
  unfolding prepare_stream_def open_chain_recorders by simp

lemma deliver_abandoned:
  "deliver orc d k n s = ((cs, Stream_Abandoned), s') \<longleftrightarrow>
   (\<exists>a h c t ats codes cs'. k = Committed a h c t ats codes \<and> cs = c # cs' \<and>
      forward_chunks n (mp_next (orc_model_provider orc) h) s = ((cs', Forward_Stopped), s'))"
  by (cases k) (auto split: prod.splits sum.splits option.splits forward_end.splits)

text \<open>
  A stream nobody drains leaves no trace: a consumer that stops before the end causes no audit
  record, no metrics and no event, whatever the recorders would do; and a generator that is never
  pulled does nothing at all.
\<close>

theorem abandoned_stream_untraced:
  assumes "run_stream orc start request n s = ((cs, Stream_Abandoned), s')"
  shows "run_stream (set_recorders rd mx dp orc) start request n s = ((cs, Stream_Abandoned), s') \<and>
    (cs = [] \<longrightarrow> n = 0 \<and> s' = s)"
proof (cases n)
  case 0
  then show ?thesis using assms by (auto simp: run_stream_def)
next
  case (Suc m)
  obtain x s1 where x: "prepare_stream orc start request s = (x, s1)" by (rule prod.exhaust)
  obtain dc where dc: "x = Inr dc" using assms Suc x by (cases x) (auto simp: run_stream_def)
  have "deliver orc (fst dc) (snd dc) m s1 = ((cs, Stream_Abandoned), s')"
    using assms Suc x dc by (auto simp: run_stream_def split: prod.splits)
  then have "deliver (set_recorders rd mx dp orc) (fst dc) (snd dc) m s1 = ((cs, Stream_Abandoned), s')" "cs \<noteq> []"
    unfolding deliver_abandoned by auto
  then show ?thesis
    using Suc x dc by (simp add: run_stream_def prepare_stream_recorders)
qed

text \<open>
  Where no model can be tried the two paths report differently: \<open>invoke\<close> keeps the decision of
  route evaluation as it is, while the streaming path passes it through \<open>_aggregate_decision\<close>,
  which removes \<open>NO_ELIGIBLE_MODEL\<close>, so the record of a stream that found no eligible model does
  not say so.
\<close>

theorem stream_drops_no_eligible_model:
  assumes "evaluate_route (orc_route_evaluation_service orc) request s = (Inr d, s1)"
    and "rp_resolve (orc_policy_repository orc) (ir_application_id request) s1 = (Inr p, s2)"
    and "build_candidate_chain d (pol_fallback_policy p) = []" and "NO_ELIGIBLE_MODEL \<in> set (dec_reason_codes d)"
    and "invoke_uncached orc request s = (Inr q, s3)"
    and "run_stream orc start request n s = ((cs, Stream_Finished r), s4)"
  shows "NO_ELIGIBLE_MODEL \<in> set (dec_reason_codes (res_decision q)) \<and>
    NO_ELIGIBLE_MODEL \<notin> set (dec_reason_codes (res_decision r))"
proof
  have "res_decision q = d"
    using assms(5)
  proof (cases rule: invoke_uncached_cases)
    case (no_chain d' s1' p' s2')
    then show ?thesis using assms(1) by simp
  next
    case (chain d' s1' p' s2' prg s3 f)
    then show ?thesis using assms(1-3) by simp
  qed
  then show "NO_ELIGIBLE_MODEL \<in> set (dec_reason_codes (res_decision q))" using assms(4) by simp
  from assms(6) obtain m d' k s5 fin where "n = Suc m" and k: "prepare_stream orc start request s = (Inr (d', k), s5)"
    "deliver orc d' k m s5 = ((cs, fin), s4)" "Stream_Finished r = leave_generator fin"
    by (rule run_stream_prepared[where r = r]) simp
  have "fin = Stream_Finished r" using k(3)[symmetric] by simp
  moreover have dk: "d' = d" "k = No_Stream [] []" "s5 = s2"
    using k(1) assms(1-3) by (auto simp: prepare_stream_def io_run)
  ultimately have "finalize_stream orc d None [] [] s2 = (Inr r, s4)"
    using k(2) by (auto split: prod.splits sum.splits)
  then obtain f where "aggregate_decision d None [] = Inr f"
    "r = \<lparr>res_decision = f, res_response = None, res_invocation_attempts = []\<rparr>"
    by (rule finalize_stream_Inr)
  then show "NO_ELIGIBLE_MODEL \<notin> set (dec_reason_codes (res_decision r))"
    using aggregate_decision_Inr(3)[of d None "[]" f] by simp
qed

section \<open>A stream on the shipped configuration\<close>

record stream_world = sample_world +
  stw_pending :: "provider_response_chunk list"

definition sample_chunks :: "provider_response_chunk list" where
  "sample_chunks =
     [\<lparr>ch_delta_text = ''On its way.'', ch_is_final = False, ch_stop_reason = None, ch_usage = None\<rparr>,
      \<lparr>ch_delta_text = [], ch_is_final = True, ch_stop_reason = Some Stop_END_TURN,
       ch_usage = Some \<lparr>us_input_tokens = 6, us_output_tokens = 4\<rparr>\<rparr>]"

definition stream_start :: "provider_request \<Rightarrow> (stream_world, nat) op" where
  "stream_start pr = (\<lambda>w.
     if pr_model_alias pr = ''balanced-text-primary'' then (Inl (ProviderError ''slow down'' Category_THROTTLED), w)
     else (Inr 0, w\<lparr>stw_pending := sample_chunks\<rparr>))"

definition stream_next :: "nat \<Rightarrow> (stream_world, provider_response_chunk option) op" where
  "stream_next h = (\<lambda>w. case stw_pending w of
     [] \<Rightarrow> (Inr None, w)
   | c # cs \<Rightarrow> (Inr (Some c), w\<lparr>stw_pending := cs\<rparr>))"

definition streaming_orchestrator :: "stream_world orchestrator" where
  "streaming_orchestrator = sample_orchestrator\<lparr>orc_model_provider :=
     sample_provider\<lparr>mp_invoke_stream := Some stream_start, mp_next := stream_next\<rparr>\<rparr>"

definition stream_origin :: stream_world where
  "stream_origin = \<lparr>sw_policies = new_policy_repository, sw_counter = 0, stw_pending = []\<rparr>"

lemma streaming_simps [simp]:
  "orc_route_evaluation_service streaming_orchestrator = sample_service"
  "orc_policy_repository streaming_orchestrator = sample_policies"
  "mp_next (orc_model_provider streaming_orchestrator) = stream_next"
  "orc_monotonic streaming_orchestrator = (\<lambda>w. (Inr 1, w))"
  by (simp_all add: streaming_orchestrator_def)

lemma stream_origin_new: "sw_policies stream_origin = new_policy_repository"
  by (simp add: stream_origin_def)

lemma streaming_close:
  "close_attempt streaming_orchestrator a st 1 w =
     (Inr \<lparr>at_model_alias = a, at_status = st, at_latency_ms = 0\<rparr>, w)"
  by (simp add: close_attempt_def streaming_orchestrator_def sample_orchestrator_def io_run record_health_outcome_def
      mk_invocation_attempt_def)

lemma streaming_finish: "finish streaming_orchestrator r w = (Inr r, w)"
  by (simp add: finish_def persist_def publish_metrics_def publish_decision_event_def
      streaming_orchestrator_def sample_orchestrator_def io_run)

lemma streaming_prepared:
  "\<exists>d w1 w2. evaluate_route sample_service (sample_request ''support-assistant'' None) stream_origin = (Inr d, w1) \<and>
     rp_resolve sample_policies ''support-assistant'' w1 = (Inr support_assistant_policy, w1) \<and>
     dec_considered_candidates d = sample_candidates \<and>
     prepare_stream streaming_orchestrator stream_start (sample_request ''support-assistant'' None) stream_origin =
       (Inr (d, Committed ''balanced-text-secondary'' 0 (hd sample_chunks) 1 (butlast sample_attempts)
          [MODEL_THROTTLED, FALLBACK_SELECTED]), w2) \<and> stw_pending w2 = tl sample_chunks"
proof -
  let ?req = "sample_request ''support-assistant'' None"
  obtain d w1 where d: "evaluate_route sample_service ?req stream_origin = (Inr d, w1)"
    "dec_selected_model_alias d = Some ''balanced-text-primary''" "dec_considered_candidates d = sample_candidates"
    "prs_cache (sw_policies w1) ''support-assistant'' = Some support_assistant_policy"
    using sample_evaluate_from[OF sample_resolve_from[OF stream_origin_new]] by (simp add: sample_decision_def)
  note p = sample_resolve_cached[OF d(4)]
  have chain: "build_candidate_chain d (pol_fallback_policy support_assistant_policy) =
       [''balanced-text-primary'', ''balanced-text-secondary'']"
    using d(2,3) by (simp add: build_candidate_chain_def eligible_aliases_def sample_eligible)
  have "open_chain streaming_orchestrator stream_start ?req d sample_effective
      [''balanced-text-primary'', ''balanced-text-secondary''] [] [] w1 =
      (Inr (Committed ''balanced-text-secondary'' 0 (hd sample_chunks) 1 (butlast sample_attempts)
          [MODEL_THROTTLED, FALLBACK_SELECTED]), w1\<lparr>stw_pending := tl sample_chunks\<rparr>)"
    by (simp add: sample_provider_request io_run open_stream_def stream_start_def stream_next_def sample_chunks_def
        streaming_close error_codes_def sample_attempts_def d(2))
  then have "prepare_stream streaming_orchestrator stream_start ?req stream_origin =
      (Inr (d, Committed ''balanced-text-secondary'' 0 (hd sample_chunks) 1 (butlast sample_attempts)
          [MODEL_THROTTLED, FALLBACK_SELECTED]), w1\<lparr>stw_pending := tl sample_chunks\<rparr>)"
    by (simp add: prepare_stream_def io_run d(1) p chain Let_def sample_effective_def[symmetric]
        del: open_chain.simps support_policy_simps(5))
  with d p show ?thesis by auto
qed

lemma streaming_runs:
  "\<exists>d w1 r w. evaluate_route sample_service (sample_request ''support-assistant'' None) stream_origin = (Inr d, w1) \<and>
     rp_resolve sample_policies ''support-assistant'' w1 = (Inr support_assistant_policy, w1) \<and>
     run_stream streaming_orchestrator stream_start (sample_request ''support-assistant'' None) 3 stream_origin =
       ((sample_chunks, Stream_Finished r), w) \<and> res_invocation_attempts r = sample_attempts"
proof -
  let ?req = "sample_request ''support-assistant'' None"
  obtain d w1 w2 where p: "evaluate_route sample_service ?req stream_origin = (Inr d, w1)"
    "rp_resolve sample_policies ''support-assistant'' w1 = (Inr support_assistant_policy, w1)"
    "dec_considered_candidates d = sample_candidates"
    "prepare_stream streaming_orchestrator stream_start ?req stream_origin =
       (Inr (d, Committed ''balanced-text-secondary'' 0 (hd sample_chunks) 1 (butlast sample_attempts)
          [MODEL_THROTTLED, FALLBACK_SELECTED]), w2)" "stw_pending w2 = tl sample_chunks"
    using streaming_prepared by (elim exE conjE) (rule that)
  obtain f where f: "aggregate_decision d (Some ''balanced-text-secondary'') [MODEL_THROTTLED, FALLBACK_SELECTED] = Inr f"
    using p(3) by (simp add: aggregate_decision_def Let_def sample_candidates_def)
  let ?r = "\<lparr>res_decision = f, res_response = None, res_invocation_attempts = sample_attempts\<rparr> :: inference_result"
  have "forward_chunks 2 (stream_next 0) w2 = ((tl sample_chunks, Forward_Exhausted), w2\<lparr>stw_pending := []\<rparr>)"
    using p(5) by (simp add: numeral_2_eq_2 stream_next_def sample_chunks_def)
  moreover have "settle streaming_orchestrator d ''balanced-text-secondary'' Attempt_SUCCEEDED
      (Some ''balanced-text-secondary'') 1 (butlast sample_attempts) [MODEL_THROTTLED, FALLBACK_SELECTED] w = (Inr ?r, w)" for w
    by (simp add: settle_def finalize_stream_def io_run streaming_close f streaming_finish sample_attempts_def)
  moreover have "hd sample_chunks # tl sample_chunks = sample_chunks" by (simp add: sample_chunks_def)
  ultimately have "run_stream streaming_orchestrator stream_start ?req (Suc 2) stream_origin =
      ((sample_chunks, Stream_Finished ?r), w2\<lparr>stw_pending := []\<rparr>)"
    unfolding run_stream_def invoke_stream_uncached.simps p(4) by simp
  then have run: "run_stream streaming_orchestrator stream_start ?req 3 stream_origin =
      ((sample_chunks, Stream_Finished ?r), w2\<lparr>stw_pending := []\<rparr>)" by (simp add: eval_nat_numeral)
  show ?thesis using p(1,2) run by (intro exI conjI) (assumption+, simp)
qed

theorem stream_result_consistent_witness:
  "\<exists>r w. run_stream streaming_orchestrator stream_start (sample_request ''support-assistant'' None) 3 stream_origin =
       ((sample_chunks, Stream_Finished r), w) \<and>
     dec_selected_model_alias (res_decision r) \<noteq> None \<and> res_response r = None"
proof -
  obtain d w1 r w where x: "evaluate_route sample_service (sample_request ''support-assistant'' None) stream_origin = (Inr d, w1)"
    "rp_resolve sample_policies ''support-assistant'' w1 = (Inr support_assistant_policy, w1)"
    "run_stream streaming_orchestrator stream_start (sample_request ''support-assistant'' None) 3 stream_origin =
       ((sample_chunks, Stream_Finished r), w)"
    using streaming_runs by (elim exE conjE) (rule that)
  show ?thesis
    using stream_result_consistent[OF x(3), of d w1 support_assistant_policy w1] x by (auto simp: sample_chunks_def)
qed

theorem stream_single_source_witness:
  "\<exists>a h t t'. a \<in> {''balanced-text-primary'', ''balanced-text-secondary''} \<and>
     committed_by streaming_orchestrator stream_start a h (hd sample_chunks) t \<and>
     yields (stream_next h) (tl sample_chunks) t t'"
proof -
  obtain d w1 r w where x: "evaluate_route sample_service (sample_request ''support-assistant'' None) stream_origin = (Inr d, w1)"
    "rp_resolve sample_policies ''support-assistant'' w1 = (Inr support_assistant_policy, w1)"
    "run_stream streaming_orchestrator stream_start (sample_request ''support-assistant'' None) 3 stream_origin =
       ((sample_chunks, Stream_Finished r), w)"
    using streaming_runs by (elim exE conjE) (rule that)
  have split: "sample_chunks = hd sample_chunks # tl sample_chunks" by (simp add: sample_chunks_def)
  have "dec_selected_model_alias d = Some ''balanced-text-primary''" "dec_considered_candidates d = sample_candidates"
    using x(1) sample_evaluate_from[OF sample_resolve_from[OF stream_origin_new]] by (auto simp: sample_decision_def)
  then have chain: "build_candidate_chain d (pol_fallback_policy support_assistant_policy) =
      [''balanced-text-primary'', ''balanced-text-secondary'']"
    by (simp add: build_candidate_chain_def eligible_aliases_def sample_eligible)
  show ?thesis
    using stream_single_source[of streaming_orchestrator stream_start "sample_request ''support-assistant'' None" 3 stream_origin
        "hd sample_chunks" "tl sample_chunks" "Stream_Finished r" w d w1 support_assistant_policy w1] x split
    unfolding chain by simp
qed

theorem abandoned_stream_untraced_witness:
  "\<exists>w. run_stream streaming_orchestrator stream_start (sample_request ''support-assistant'' None) 1 stream_origin =
       (([hd sample_chunks], Stream_Abandoned), w) \<and>
     run_stream (set_recorders None None (Some \<lparr>dp_publish = \<lambda>r. raise_io (Foreign_Error ''bus'')\<rparr>) streaming_orchestrator)
       stream_start (sample_request ''support-assistant'' None) 1 stream_origin = (([hd sample_chunks], Stream_Abandoned), w)"
proof -
  obtain d k w2 where "prepare_stream streaming_orchestrator stream_start (sample_request ''support-assistant'' None) stream_origin =
       (Inr (d, Committed ''balanced-text-secondary'' 0 (hd sample_chunks) 1 (butlast sample_attempts)
          [MODEL_THROTTLED, FALLBACK_SELECTED]), w2)"
    using streaming_prepared by (elim exE conjE) (rule that)
  then have run: "run_stream streaming_orchestrator stream_start (sample_request ''support-assistant'' None) 1 stream_origin =
       (([hd sample_chunks], Stream_Abandoned), w2)"
    unfolding run_stream_def One_nat_def invoke_stream_uncached.simps by simp
  show ?thesis using run conjunct1[OF abandoned_stream_untraced[OF run]] by blast
qed

text \<open>Estimators that price every model above the policy's limit, so that nothing is eligible.\<close>

definition costly_service :: "stream_world route_evaluation_service" where
  "costly_service = sample_service
     \<lparr>svc_token_estimator := \<lparr>te_estimate = \<lambda>ms n. mk_usage 5 n\<rparr>,
      svc_cost_estimator := \<lparr>ce_estimate = \<lambda>u p. Inr \<lparr>ec_amount_usd = Dec 1 0\<rparr>\<rparr>\<rparr>"

definition costly_orchestrator :: "stream_world orchestrator" where
  "costly_orchestrator = streaming_orchestrator\<lparr>orc_route_evaluation_service := costly_service\<rparr>"

lemma costly_candidate:
  "\<exists>c. evaluate_candidate m sample_effective p (svc_token_estimator costly_service) (svc_cost_estimator costly_service) ms h =
     Inr c \<and> \<not> rc_eligible c"
  by (simp add: evaluate_candidate_def costly_service_def mk_usage_def within_cost_limit_def Let_def)

lemma costly_candidates:
  "\<exists>cs. build_route_candidates models sample_effective p (svc_token_estimator costly_service)
     (svc_cost_estimator costly_service) ms None w = (Inr cs, w) \<and> filter rc_eligible cs = []"
proof (induction models)
  case Nil
  then show ?case by (simp add: build_route_candidates_def io_run)
next
  case (Cons m models)
  obtain c where c: "evaluate_candidate m sample_effective p (svc_token_estimator costly_service)
      (svc_cost_estimator costly_service) ms Health_HEALTHY = Inr c" "\<not> rc_eligible c"
    using costly_candidate[of m p ms Health_HEALTHY] by (elim exE conjE)
  from Cons obtain cs where "build_route_candidates models sample_effective p (svc_token_estimator costly_service)
     (svc_cost_estimator costly_service) ms None w = (Inr cs, w)" "filter rc_eligible cs = []"
    by (elim exE conjE)
  then show ?case using c by (simp add: build_route_candidates_def candidate_health_def io_run)
qed

lemma costly_evaluate:
  "\<exists>d w1. evaluate_route costly_service (sample_request ''support-assistant'' None) stream_origin = (Inr d, w1) \<and>
     rp_resolve sample_policies ''support-assistant'' w1 = (Inr support_assistant_policy, w1) \<and>
     dec_selected_model_alias d = None \<and> eligible_aliases d = [] \<and> dec_reason_codes d = [NO_ELIGIBLE_MODEL]"
proof -
  let ?w = "stream_origin\<lparr>sw_policies := new_policy_repository
      \<lparr>prs_cache := [''support-assistant'' \<mapsto> support_assistant_policy]\<rparr>\<rparr>"
  note p = sample_resolve_from[OF stream_origin_new]
  obtain cs where cs: "build_route_candidates [balanced_text_primary, balanced_text_secondary, balanced_text_openai]
     sample_effective support_assistant_policy (svc_token_estimator costly_service)
     (svc_cost_estimator costly_service) (ir_messages (sample_request ''support-assistant'' None)) None ?w = (Inr cs, ?w)"
     "filter rc_eligible cs = []"
    using costly_candidates[of "[balanced_text_primary, balanced_text_secondary, balanced_text_openai]"
        support_assistant_policy "ir_messages (sample_request ''support-assistant'' None)" ?w]
    by (elim exE conjE)
  have fields: "svc_policy_repository costly_service = sample_policies" "svc_model_catalogue costly_service = shipped_catalogue"
    "svc_model_health_repository costly_service = None" "svc_clock costly_service = sample_clock"
    "svc_identifier_generator costly_service = sample_identifiers"
    by (simp_all add: costly_service_def sample_service_def)
  have "\<exists>d w1. evaluate_route costly_service (sample_request ''support-assistant'' None) stream_origin = (Inr d, w1) \<and>
     prs_cache (sw_policies w1) ''support-assistant'' = Some support_assistant_policy \<and>
     dec_selected_model_alias d = None \<and> eligible_aliases d = [] \<and> dec_reason_codes d = [NO_ELIGIBLE_MODEL]"
    by (simp add: evaluate_route_def fields io_run p sample_models sample_effective_def[symmetric] cs Let_def
        lowest_cost_select_def build_decision_def sample_clock_def sample_identifiers_def selection_codes_def
        no_selection_def eligible_aliases_def)
  then show ?thesis using sample_resolve_cached by (elim exE conjE) (intro exI conjI, assumption+)
qed

theorem stream_drops_no_eligible_model_witness:
  "\<exists>q r w w'. invoke_uncached costly_orchestrator (sample_request ''support-assistant'' None) stream_origin = (Inr q, w) \<and>
     run_stream costly_orchestrator stream_start (sample_request ''support-assistant'' None) 1 stream_origin =
       (([], Stream_Finished r), w') \<and>
     NO_ELIGIBLE_MODEL \<in> set (dec_reason_codes (res_decision q)) \<and>
     NO_ELIGIBLE_MODEL \<notin> set (dec_reason_codes (res_decision r))"
proof -
  let ?req = "sample_request ''support-assistant'' None"
  obtain d w1 where d: "evaluate_route costly_service ?req stream_origin = (Inr d, w1)"
    "rp_resolve sample_policies ''support-assistant'' w1 = (Inr support_assistant_policy, w1)"
    "dec_selected_model_alias d = None" "eligible_aliases d = []" "dec_reason_codes d = [NO_ELIGIBLE_MODEL]"
    using costly_evaluate by (elim exE conjE)
  have fields: "orc_route_evaluation_service costly_orchestrator = costly_service"
    "orc_policy_repository costly_orchestrator = sample_policies"
    by (simp_all add: costly_orchestrator_def)
  have chain: "build_candidate_chain d (pol_fallback_policy support_assistant_policy) = []"
    using d(3,4) by (simp add: build_candidate_chain_def)
  have fin: "finish costly_orchestrator r w = (Inr r, w)" for r w
    by (simp add: finish_def persist_def publish_metrics_def publish_decision_event_def costly_orchestrator_def
        streaming_orchestrator_def sample_orchestrator_def io_run)
  have q: "\<exists>q. invoke_uncached costly_orchestrator ?req stream_origin = (Inr q, w1)"
    using d(1,2) chain by (simp add: invoke_uncached_def fields io_run Let_def fin del: support_policy_simps(5))
  have "prepare_stream costly_orchestrator stream_start ?req stream_origin = (Inr (d, No_Stream [] []), w1)"
    using d(1,2) chain by (simp add: prepare_stream_def fields io_run Let_def del: support_policy_simps(5))
  moreover obtain f where "aggregate_decision d None [] = Inr f" by (simp add: aggregate_decision_def)
  ultimately have r: "\<exists>r. run_stream costly_orchestrator stream_start ?req 1 stream_origin = (([], Stream_Finished r), w1)"
    unfolding run_stream_def One_nat_def invoke_stream_uncached.simps
    by (simp add: finalize_stream_def io_run fin)
  from q r obtain q' r' where qr: "invoke_uncached costly_orchestrator ?req stream_origin = (Inr q', w1)"
    "run_stream costly_orchestrator stream_start ?req 1 stream_origin = (([], Stream_Finished r'), w1)"
    by (elim exE)
  have "NO_ELIGIBLE_MODEL \<in> set (dec_reason_codes (res_decision q')) \<and>
     NO_ELIGIBLE_MODEL \<notin> set (dec_reason_codes (res_decision r'))"
    by (rule stream_drops_no_eligible_model[OF _ _ chain _ qr, where ?s1.0 = w1 and ?s2.0 = w1]) (simp_all add: fields d)
  with qr show ?thesis by (intro exI conjI) (assumption+, simp_all)
qed

text \<open>
  A failure in the middle of a stream reaches the consumer as it was raised, after the chunks
  that came before it, and is recorded: no model selected, the committed model's attempt with the
  status of the error.  The reason codes are those collected until the commitment: that of the
  failure is not among them, and \<open>FALLBACK_SELECTED\<close> stays although the fallback flag is false.
\<close>

theorem midstream_failure_recorded:
  assumes "forward_chunks n (mp_next (orc_model_provider orc) h) s = ((cs, Forward_Raised (ProviderError m c)), s1)"
    and "settle orc d a (status_for_provider_error_category c) None t ats codes s1 = (Inr r, s2)"
  shows "deliver orc d (Committed a h first t ats codes) n s = ((first # cs, Stream_Raised (ProviderError m c)), s2) \<and>
    (\<exists>s3. finish orc r s3 = (Inr r, s2)) \<and>
    dec_selected_model_alias (res_decision r) = None \<and> \<not> dec_fallback_used (res_decision r) \<and>
    (\<exists>att. res_invocation_attempts r = ats @ [att] \<and> at_model_alias att = a \<and>
       at_status att = status_for_provider_error_category c) \<and>
    set (dec_reason_codes (res_decision r)) = (set (dec_reason_codes d) - {NO_ELIGIBLE_MODEL}) \<union> set codes"
proof -
  obtain att s3 where att: "close_attempt orc a (status_for_provider_error_category c) t s1 = (Inr att, s3)"
    "finalize_stream orc d None codes (ats @ [att]) s3 = (Inr r, s2)"
    using assms(2) by (rule settle_Inr)
  obtain f where f: "aggregate_decision d None codes = Inr f"
    "r = \<lparr>res_decision = f, res_response = None, res_invocation_attempts = ats @ [att]\<rparr>" "finish orc r s3 = (Inr r, s2)"
    using att(2) by (rule finalize_stream_Inr)
  have "deliver orc d (Committed a h first t ats codes) n s = ((first # cs, Stream_Raised (ProviderError m c)), s2)"
    using assms by simp
  moreover have "set (dec_reason_codes f) = (set (dec_reason_codes d) - {NO_ELIGIBLE_MODEL}) \<union> set codes"
    using aggregate_decision_Inr(3)[OF f(1)] by auto
  ultimately show ?thesis
    using close_attempt_Inr[OF att(1)] aggregate_decision_Inr(1,2)[OF f(1)] f(2,3) by auto
qed

definition failing_orchestrator :: "stream_world orchestrator" where
  "failing_orchestrator = streaming_orchestrator\<lparr>orc_model_provider :=
     sample_provider\<lparr>mp_next := \<lambda>h. raise_io (ProviderError ''lost'' Category_TIMEOUT)\<rparr>\<rparr>"

theorem midstream_failure_recorded_witness:
  "deliver failing_orchestrator (sample_decision ''dec_1'' 0)
      (Committed ''balanced-text-secondary'' 0 (hd sample_chunks) 1 [] [FALLBACK_SELECTED]) 1 stream_origin =
    (([hd sample_chunks], Stream_Raised (ProviderError ''lost'' Category_TIMEOUT)), stream_origin)"
proof -
  let ?orc = failing_orchestrator and ?d = "sample_decision ''dec_1'' 0"
  have fwd: "forward_chunks 1 (mp_next (orc_model_provider ?orc) 0) stream_origin =
      (([], Forward_Raised (ProviderError ''lost'' Category_TIMEOUT)), stream_origin)"
    unfolding One_nat_def by (simp add: failing_orchestrator_def io_run)
  obtain f where "aggregate_decision ?d None [FALLBACK_SELECTED] = Inr f" by (simp add: aggregate_decision_def)
  then have "\<exists>r. settle ?orc ?d ''balanced-text-secondary'' (status_for_provider_error_category Category_TIMEOUT) None 1 []
      [FALLBACK_SELECTED] stream_origin = (Inr r, stream_origin)"
    by (simp add: settle_def finalize_stream_def close_attempt_def finish_def persist_def publish_metrics_def
        publish_decision_event_def record_health_outcome_def failing_orchestrator_def streaming_orchestrator_def
        sample_orchestrator_def io_run mk_invocation_attempt_def)
  then obtain r where "settle ?orc ?d ''balanced-text-secondary'' (status_for_provider_error_category Category_TIMEOUT) None 1 []
      [FALLBACK_SELECTED] stream_origin = (Inr r, stream_origin)" by (rule exE)
  from conjunct1[OF midstream_failure_recorded[OF fwd this, of "hd sample_chunks"]] show ?thesis by simp
qed

end
