(* ===== verification/Py_Value.thy ===== *)
theory Py_Value
  imports Domain_Types Py_Float
begin

text \<open>
  Python values without a static type: what \<open>json.loads\<close> and the AWS client return and what the
  request builders and serializers produce.  A \<open>dict\<close> is its items in order; the operations
  raise where Python's do.
\<close>

datatype pyval =
  PV_None | PV_Bool bool | PV_Int int | PV_Dec decimal | PV_Float rat | PV_Str str
| PV_List "pyval list" | PV_Dict "(str \<times> pyval) list"

section \<open>Operations\<close>

text \<open>\<open>v[k]\<close> for a string \<open>k\<close>.\<close>

fun py_item :: "pyval \<Rightarrow> str \<Rightarrow> pyval result" where
  "py_item (PV_Dict kvs) k = (case map_of kvs k of None \<Rightarrow> Inl Key_Error | Some v \<Rightarrow> Inr v)"
| "py_item _ k = Inl Type_Error"

text \<open>\<open>v.get(k)\<close>, with \<open>None\<close> for a missing key.\<close>

fun py_get :: "pyval \<Rightarrow> str \<Rightarrow> pyval option result" where
  "py_get (PV_Dict kvs) k = Inr (map_of kvs k)"
| "py_get _ k = Inl Attribute_Error"

text \<open>\<open>v.get(k, dflt)\<close>.\<close>

definition get_or :: "pyval \<Rightarrow> str \<Rightarrow> pyval \<Rightarrow> pyval result" where
  "get_or v k dflt = bind_r (py_get v k) (\<lambda>x. Inr (case x of None \<Rightarrow> dflt | Some y \<Rightarrow> y))"

text \<open>\<open>k in v\<close> for a string \<open>k\<close>.\<close>

fun is_substring :: "str \<Rightarrow> str \<Rightarrow> bool" where
  "is_substring k [] \<longleftrightarrow> k = []"
| "is_substring k (c # s) \<longleftrightarrow> take (length k) (c # s) = k \<or> is_substring k s"

fun py_in :: "str \<Rightarrow> pyval \<Rightarrow> bool result" where
  "py_in k (PV_Dict kvs) = Inr (k \<in> fst ` set kvs)"
| "py_in k (PV_List xs) = Inr (PV_Str k \<in> set xs)"
| "py_in k (PV_Str s) = Inr (is_substring k s)"
| "py_in k _ = Inl Type_Error"

text \<open>\<open>for x in v\<close>.\<close>

fun py_iter :: "pyval \<Rightarrow> pyval list result" where
  "py_iter (PV_List xs) = Inr xs"
| "py_iter (PV_Dict kvs) = Inr (map (\<lambda>kv. PV_Str (fst kv)) kvs)"
| "py_iter (PV_Str s) = Inr (map (\<lambda>c. PV_Str [c]) s)"
| "py_iter _ = Inl Type_Error"

text \<open>\<open>bool(v)\<close>.\<close>

fun truthy :: "pyval \<Rightarrow> bool" where
  "truthy PV_None = False"
| "truthy (PV_Bool b) = b"
| "truthy (PV_Int i) = (i \<noteq> 0)"
| "truthy (PV_Dec d) = (coeff d \<noteq> 0)"
| "truthy (PV_Float q) = (q \<noteq> 0)"
| "truthy (PV_Str s) = (s \<noteq> [])"
| "truthy (PV_List xs) = (xs \<noteq> [])"
| "truthy (PV_Dict kvs) = (kvs \<noteq> [])"

text \<open>One element of \<open>"".join(...)\<close>.\<close>

fun py_as_str :: "pyval \<Rightarrow> str result" where
  "py_as_str (PV_Str s) = Inr s"
| "py_as_str _ = Inl Type_Error"

text \<open>A value that can be a key of a \<open>dict\<close>.\<close>

fun hashable :: "pyval \<Rightarrow> bool" where
  "hashable (PV_List xs) = False"
| "hashable (PV_Dict kvs) = False"
| "hashable _ = True"

text \<open>
  pydantic's conversion of a value to the declared type of a field (\<open>None\<close> where it fails): third
  party code, so a parameter.
\<close>

record coercions =
  co_int :: "pyval \<Rightarrow> int option"
  co_str :: "pyval \<Rightarrow> str option"
  co_bool :: "pyval \<Rightarrow> bool option"
  co_money :: "pyval \<Rightarrow> money option"
  co_metadata :: "pyval \<Rightarrow> (str \<times> str) list option"

text \<open>A field: converted, or \<open>pydantic.ValidationError\<close>.\<close>

definition field :: "('v \<Rightarrow> 'a option) \<Rightarrow> 'v \<Rightarrow> 'a result" where
  "field conv v = (case conv v of None \<Rightarrow> Inl Validation_Error | Some x \<Rightarrow> Inr x)"

text \<open>
  \<open>Money\<close> of \<open>src/domain/money.py\<close>: a validator that rejects floats runs before the conversion, and
  pydantic reports its \<open>ValueError\<close> as a failed conversion.
\<close>

fun reject_float :: "pyval \<Rightarrow> pyval result" where
  "reject_float (PV_Float q) = Inl Value_Error"
| "reject_float v = Inr v"

definition money_of :: "coercions \<Rightarrow> pyval \<Rightarrow> money option" where
  "money_of co v = (case reject_float v of Inl e \<Rightarrow> None | Inr w \<Rightarrow> co_money co w)"

lemma money_of_simps [simp]:
  "money_of co (PV_Float q) = None" "money_of co (PV_Dec d) = co_money co (PV_Dec d)"
  by (simp_all add: money_of_def)

text \<open>The documented conversions of values that already have the type.\<close>

definition coerces_exact :: "coercions \<Rightarrow> bool" where
  "coerces_exact co \<longleftrightarrow>
     (\<forall>i. co_int co (PV_Int i) = Some i) \<and> (\<forall>s. co_str co (PV_Str s) = Some s) \<and>
     (\<forall>b. co_bool co (PV_Bool b) = Some b) \<and> (\<forall>d. co_money co (PV_Dec d) = Some d) \<and>
     (\<forall>kvs. distinct (map fst kvs) \<longrightarrow>
        co_metadata co (PV_Dict (map (\<lambda>kv. (fst kv, PV_Str (snd kv))) kvs)) = Some kvs)"

text \<open>The strict conversions, an instance.\<close>

fun strict_int :: "pyval \<Rightarrow> int option" where
  "strict_int (PV_Int i) = Some i"
| "strict_int _ = None"

fun strict_str :: "pyval \<Rightarrow> str option" where
  "strict_str (PV_Str s) = Some s"
| "strict_str _ = None"

fun strict_bool :: "pyval \<Rightarrow> bool option" where
  "strict_bool (PV_Bool b) = Some b"
| "strict_bool _ = None"

fun strict_money :: "pyval \<Rightarrow> money option" where
  "strict_money (PV_Dec d) = Some d"
| "strict_money (PV_Int i) = Some (Dec i 0)"
| "strict_money _ = None"

fun metadata_items :: "(str \<times> pyval) list \<Rightarrow> (str \<times> str) list option" where
  "metadata_items [] = Some []"
| "metadata_items ((k, v) # kvs) =
     (case (strict_str v, metadata_items kvs) of (Some s, Some r) \<Rightarrow> Some ((k, s) # r) | _ \<Rightarrow> None)"

fun strict_metadata :: "pyval \<Rightarrow> (str \<times> str) list option" where
  "strict_metadata (PV_Dict kvs) = metadata_items kvs"
| "strict_metadata _ = None"

definition strict_coercions :: coercions where
  "strict_coercions =
     \<lparr>co_int = strict_int, co_str = strict_str, co_bool = strict_bool, co_money = strict_money,
      co_metadata = strict_metadata\<rparr>"

section \<open>Lemmas\<close>

lemma field_simps [simp]:
  "field conv v = Inr x \<longleftrightarrow> conv v = Some x"
  "field conv v = Inl e \<longleftrightarrow> conv v = None \<and> e = Validation_Error"
  by (auto simp: field_def split: option.split)

lemma field_Some [simp]: "conv v = Some x \<Longrightarrow> field conv v = Inr x"
  by simp

lemma strict_coercions_exact: "coerces_exact strict_coercions"
proof -
  have "metadata_items (map (\<lambda>kv. (fst kv, PV_Str (snd kv))) kvs) = Some kvs" for kvs :: "(str \<times> str) list"
    by (induction kvs) auto
  then show ?thesis by (simp add: coerces_exact_def strict_coercions_def)
qed

lemma raises_py [raises]:
  "{Key_Error, Type_Error} \<subseteq> E \<Longrightarrow> raises_only E (py_item v k)"
  "Type_Error \<in> E \<Longrightarrow> raises_only E (py_in k v)"
  "Type_Error \<in> E \<Longrightarrow> raises_only E (py_iter v)"
  "Type_Error \<in> E \<Longrightarrow> raises_only E (py_as_str v)"
  "Attribute_Error \<in> E \<Longrightarrow> raises_only E (py_get v k)"
  "Validation_Error \<in> E \<Longrightarrow> raises_only E (field conv w)"
  by (cases v; auto simp: raises_only_def field_def split: option.splits)+

lemma get_or_dict [simp]: "get_or (PV_Dict kvs) k d = Inr (case map_of kvs k of None \<Rightarrow> d | Some v \<Rightarrow> v)"
  by (simp add: get_or_def)

end
