(* ===== verification/Publishers.thy ===== *)
theory Publishers
  imports Invocation_Results Py_Value
begin

text \<open>
  What leaves the router besides its answers: the metrics of
  \<open>src/adapters/metrics/emf_metrics_publisher.py\<close> and \<open>null_metrics_publisher.py\<close>, and the events of
  \<open>src/adapters/events/eventbridge_decision_event_publisher.py\<close>, with \<open>src/shared/clock.py\<close> and
  \<open>src/shared/identifiers.py\<close>.  A printed line is the value whose JSON text is printed.
\<close>

section \<open>Reason codes as text\<close>

fun routing_reason_code_value :: "routing_reason_code \<Rightarrow> str" where
  "routing_reason_code_value CAPABILITY_MATCH = ''CAPABILITY_MATCH''"
| "routing_reason_code_value MODEL_ALLOWED = ''MODEL_ALLOWED''"
| "routing_reason_code_value MODEL_NOT_ALLOWED = ''MODEL_NOT_ALLOWED''"
| "routing_reason_code_value WITHIN_COST_LIMIT = ''WITHIN_COST_LIMIT''"
| "routing_reason_code_value COST_LIMIT_EXCEEDED = ''COST_LIMIT_EXCEEDED''"
| "routing_reason_code_value TOKEN_LIMIT_EXCEEDED = ''TOKEN_LIMIT_EXCEEDED''"
| "routing_reason_code_value LOWEST_ESTIMATED_COST = ''LOWEST_ESTIMATED_COST''"
| "routing_reason_code_value LATENCY_PREFERENCE_MATCH = ''LATENCY_PREFERENCE_MATCH''"
| "routing_reason_code_value QUALITY_TIER_MATCH = ''QUALITY_TIER_MATCH''"
| "routing_reason_code_value REGION_POLICY_MATCH = ''REGION_POLICY_MATCH''"
| "routing_reason_code_value MODEL_UNHEALTHY = ''MODEL_UNHEALTHY''"
| "routing_reason_code_value MODEL_DEGRADED = ''MODEL_DEGRADED''"
| "routing_reason_code_value MODEL_THROTTLED = ''MODEL_THROTTLED''"
| "routing_reason_code_value MODEL_UNAVAILABLE = ''MODEL_UNAVAILABLE''"
| "routing_reason_code_value FALLBACK_SELECTED = ''FALLBACK_SELECTED''"
| "routing_reason_code_value EXPERIMENT_ROUTE_SELECTED = ''EXPERIMENT_ROUTE_SELECTED''"
| "routing_reason_code_value NO_ELIGIBLE_MODEL = ''NO_ELIGIBLE_MODEL''"
| "routing_reason_code_value INVALID_ROUTING_POLICY = ''INVALID_ROUTING_POLICY''"
| "routing_reason_code_value REQUIRED_CAPABILITY_UNAVAILABLE = ''REQUIRED_CAPABILITY_UNAVAILABLE''"

section \<open>Dates\<close>

text \<open>\<open>datetime.isoformat\<close> of a UTC time: the proleptic Gregorian date of the days since the epoch.\<close>

definition civil_from_days :: "int \<Rightarrow> int \<times> int \<times> int" where
  "civil_from_days z =
     (let z = z + 719468;
          era = z div 146097;
          doe = z mod 146097;
          yoe = (doe - doe div 1460 + doe div 36524 - doe div 146096) div 365;
          doy = doe - (365 * yoe + yoe div 4 - yoe div 100);
          mp = (5 * doy + 2) div 153;
          d = doy - (153 * mp + 2) div 5 + 1;
          m = (if mp < 10 then mp + 3 else mp - 9)
      in (yoe + era * 400 + (if m \<le> 2 then 1 else 0), m, d))"

definition pad :: "nat \<Rightarrow> int \<Rightarrow> str" where
  "pad n i = (let s = int_str i in replicate (n - length s) (CHR ''0'') @ s)"

definition isoformat :: "datetime \<Rightarrow> str" where
  "isoformat t =
     (let secs = t div 1000000; us = t mod 1000000; s = secs mod 86400
      in case civil_from_days (secs div 86400) of (y, m, d) \<Rightarrow>
           pad 4 y @ ''-'' @ pad 2 m @ ''-'' @ pad 2 d @ ''T'' @ pad 2 (s div 3600) @ '':''
           @ pad 2 (s div 60 mod 60) @ '':'' @ pad 2 (s mod 60)
           @ (if us = 0 then [] else ''.'' @ pad 6 us) @ ''+00:00'')"

text \<open>\<open>float(d)\<close> of a \<open>Decimal\<close>.\<close>

definition float_of_decimal :: "decimal \<Rightarrow> rat" where
  "float_of_decimal d = float_round (dec_val d)"

section \<open>Embedded metrics\<close>

definition metrics_namespace :: str where
  "metrics_namespace = ''ModelRouter''"

definition allowed_extra_keys :: "str list" where
  "allowed_extra_keys = [''Capability'', ''ModelAlias'', ''Status'', ''ApplicationId'']"

definition no_eligible_reason_codes :: "routing_reason_code list" where
  "no_eligible_reason_codes = [NO_ELIGIBLE_MODEL, REQUIRED_CAPABILITY_UNAVAILABLE]"

record 's emf_publisher =
  emf_environment :: str
  emf_time :: "('s, rat) op"
  emf_print :: "pyval \<Rightarrow> ('s, unit) op"

text \<open>The line of one metric point at a time.\<close>

definition emf_line :: "str \<Rightarrow> rat \<Rightarrow> str \<Rightarrow> pyval \<Rightarrow> str \<Rightarrow> (str \<times> str) list \<Rightarrow> pyval" where
  "emf_line environment time name v unit extra =
     PV_Dict
       ([(''_aws'', PV_Dict
           [(''Timestamp'', PV_Int (int_trunc (float_round (time * 1000)))),
            (''CloudWatchMetrics'', PV_List [PV_Dict
               [(''Namespace'', PV_Str metrics_namespace),
                (''Dimensions'', PV_List [PV_List [PV_Str ''Environment'']]),
                (''Metrics'', PV_List [PV_Dict [(''Name'', PV_Str name), (''Unit'', PV_Str unit)]])]])]),
         (''Environment'', PV_Str environment)]
        @ map (\<lambda>kv. (fst kv, PV_Str (snd kv))) extra @ [(name, v)])"

definition put_metric ::
  "'s emf_publisher \<Rightarrow> str \<times> pyval \<times> str \<times> (str \<times> str) list \<Rightarrow> ('s, unit) op" where
  "put_metric pub point =
     (case point of (name, v, unit, extra) \<Rightarrow>
        if \<not> set (map fst extra) \<subseteq> set allowed_extra_keys then raise_io Value_Error
        else bind_io (emf_time pub) (\<lambda>t. emf_print pub (emf_line (emf_environment pub) t name v unit extra)))"

definition flag :: "bool \<Rightarrow> pyval" where
  "flag b = PV_Int (if b then 1 else 0)"

definition decision_points :: "routing_decision \<Rightarrow> (str \<times> pyval \<times> str \<times> (str \<times> str) list) list" where
  "decision_points decision =
     (let common = [(''Capability'', dec_capability decision)]
      in [(''RequestCount'', PV_Int 1, ''Count'', common),
          (''FallbackUsedCount'', flag (dec_fallback_used decision), ''Count'', common),
          (''NoEligibleModelCount'',
             flag (list_ex (\<lambda>c. c \<in> set no_eligible_reason_codes) (dec_reason_codes decision)), ''Count'', common)]
         @ (case dec_estimated_cost decision of
              None \<Rightarrow> []
            | Some c \<Rightarrow> [(''EstimatedCostUsd'', PV_Float (float_of_decimal (ec_amount_usd c)), ''None'',
                          common @ [(''ApplicationId'', dec_application_id decision)])]))"

definition attempt_points :: "invocation_attempt \<Rightarrow> (str \<times> pyval \<times> str \<times> (str \<times> str) list) list" where
  "attempt_points att =
     (let extra = [(''ModelAlias'', at_model_alias att), (''Status'', invocation_attempt_status_value (at_status att))]
      in [(''InvocationAttemptCount'', PV_Int 1, ''Count'', extra),
          (''InvocationLatencyMs'', PV_Int (at_latency_ms att), ''Milliseconds'', extra)]
         @ (if at_status att \<noteq> Attempt_SUCCEEDED then [(''ProviderFailureCount'', PV_Int 1, ''Count'', extra)] else []))"

definition emf_publish :: "'s emf_publisher \<Rightarrow> inference_result \<Rightarrow> ('s, unit) op" where
  "emf_publish pub result =
     bind_io (map_io (put_metric pub)
       (decision_points (res_decision result) @ concat (map attempt_points (res_invocation_attempts result))))
       (\<lambda>_. return_io ())"

definition emf_metrics_publisher :: "'s emf_publisher \<Rightarrow> 's metrics_publisher" where
  "emf_metrics_publisher pub = \<lparr>mx_publish = emf_publish pub\<rparr>"

definition null_metrics_publisher :: "'s metrics_publisher" where
  "null_metrics_publisher = \<lparr>mx_publish = (\<lambda>result. return_io ())\<rparr>"

section \<open>Decision events\<close>

definition opt_value :: "('a \<Rightarrow> pyval) \<Rightarrow> 'a option \<Rightarrow> pyval" where
  "opt_value f x = (case x of None \<Rightarrow> PV_None | Some a \<Rightarrow> f a)"

definition build_detail :: "inference_result \<Rightarrow> pyval" where
  "build_detail result =
     (let decision = res_decision result
      in PV_Dict
        [(''decisionId'', PV_Str (dec_decision_id decision)),
         (''applicationId'', PV_Str (dec_application_id decision)),
         (''createdAt'', PV_Str (isoformat (dec_created_at decision))),
         (''policyId'', PV_Str (dec_policy_id decision)),
         (''policyVersion'', PV_Int (dec_policy_version decision)),
         (''capability'', PV_Str (dec_capability decision)),
         (''selectedModelAlias'', opt_value PV_Str (dec_selected_model_alias decision)),
         (''provider'', opt_value (\<lambda>p. PV_Str (provider_name_value p)) (dec_provider decision)),
         (''fallbackUsed'', PV_Bool (dec_fallback_used decision)),
         (''reasonCodes'', PV_List (map (\<lambda>c. PV_Str (routing_reason_code_value c)) (dec_reason_codes decision))),
         (''estimatedCostUsd'', opt_value (\<lambda>c. PV_Float (float_of_decimal (ec_amount_usd c))) (dec_estimated_cost decision))])"

record 's event_publisher =
  evp_put_events :: "pyval \<Rightarrow> ('s, unit) op"
  evp_event_bus_name :: str

text \<open>The entry; its \<open>Detail\<close> is the JSON text of the value here.\<close>

definition event_entry :: "str \<Rightarrow> inference_result \<Rightarrow> pyval" where
  "event_entry bus result =
     PV_List [PV_Dict [(''Source'', PV_Str ''aws-model-router''), (''DetailType'', PV_Str ''RoutingDecisionCompleted''),
                       (''EventBusName'', PV_Str bus), (''Detail'', build_detail result)]]"

text \<open>\<open>except Exception\<close>: logged, never raised.\<close>

definition event_publish :: "'s event_publisher \<Rightarrow> inference_result \<Rightarrow> ('s, unit) op" where
  "event_publish pub result =
     bind_io (attempt_io (evp_put_events pub (event_entry (evp_event_bus_name pub) result))) (\<lambda>_. return_io ())"

definition eventbridge_publisher :: "'s event_publisher \<Rightarrow> 's decision_event_publisher" where
  "eventbridge_publisher pub = \<lparr>dp_publish = event_publish pub\<rparr>"

section \<open>Clock and identifiers\<close>

definition system_clock :: "('s, datetime) op \<Rightarrow> 's clock" where
  "system_clock utcnow = \<lparr>ck_now = utcnow\<rparr>"

definition uuid4_identifier_generator :: "('s, str) op \<Rightarrow> 's identifier_generator" where
  "uuid4_identifier_generator uuid4_hex =
     \<lparr>ig_new_id = (\<lambda>prefix. bind_io uuid4_hex (\<lambda>h. return_io (prefix @ ''_'' @ h)))\<rparr>"

section \<open>Properties\<close>

lemma points_allowed:
  "(name, v, unit, extra) \<in> set (decision_points d @ concat (map attempt_points ats)) \<Longrightarrow>
   set (map fst extra) \<subseteq> set allowed_extra_keys"
  by (auto simp: decision_points_def attempt_points_def allowed_extra_keys_def Let_def split: option.splits if_splits)

text \<open>A printer that keeps a log of its lines, and a clock that leaves it alone.\<close>

definition logs_lines :: "('s \<Rightarrow> pyval list) \<Rightarrow> 's emf_publisher \<Rightarrow> bool" where
  "logs_lines out pub \<longleftrightarrow>
     (\<forall>s. \<exists>t s'. emf_time pub s = (Inr t, s') \<and> out s' = out s) \<and>
     (\<forall>v s. \<exists>s'. emf_print pub v s = (Inr (), s') \<and> out s' = out s @ [v])"

lemma put_metrics_logged:
  assumes "logs_lines out pub" and "\<And>name v unit extra. (name, v, unit, extra) \<in> set points \<Longrightarrow>
      set (map fst extra) \<subseteq> set allowed_extra_keys"
  shows "\<exists>us s' ts. map_io (put_metric pub) points s = (Inr us, s') \<and> length ts = length points \<and>
     out s' = out s @ map (\<lambda>(t, name, v, unit, extra). emf_line (emf_environment pub) t name v unit extra) (zip ts points)"
  using assms(2)
proof (induction points arbitrary: s)
  case Nil
  then show ?case by (simp add: io_run)
next
  case (Cons p points)
  obtain name v unit extra where p: "p = (name, v, unit, extra)" by (metis surj_pair)
  obtain t s1 where t: "emf_time pub s = (Inr t, s1)" "out s1 = out s"
    using assms(1) unfolding logs_lines_def by meson
  obtain s2 where pr: "emf_print pub (emf_line (emf_environment pub) t name v unit extra) s1 = (Inr (), s2)"
    "out s2 = out s1 @ [emf_line (emf_environment pub) t name v unit extra]"
    using assms(1) unfolding logs_lines_def by meson
  have put: "put_metric pub p s = (Inr (), s2)"
    using Cons.prems[of name v unit extra] t(1) pr(1) by (simp add: put_metric_def p io_run)
  have "\<exists>us s' ts. map_io (put_metric pub) points s2 = (Inr us, s') \<and> length ts = length points \<and>
     out s' = out s2 @ map (\<lambda>(t, name, v, unit, extra). emf_line (emf_environment pub) t name v unit extra) (zip ts points)"
    by (rule Cons.IH) (rule Cons.prems, rule list.set_intros(2))
  then obtain us s' ts where ih: "map_io (put_metric pub) points s2 = (Inr us, s')" "length ts = length points"
    "out s' = out s2 @ map (\<lambda>(t, name, v, unit, extra). emf_line (emf_environment pub) t name v unit extra) (zip ts points)"
    by (elim exE conjE)
  have "map_io (put_metric pub) (p # points) s = (Inr (() # us), s')" using put ih(1) by (simp add: io_run)
  moreover have "out s' = out s @ map (\<lambda>(t, name, v, unit, extra). emf_line (emf_environment pub) t name v unit extra)
      (zip (t # ts) (p # points))"
    using ih(3) pr(2) t(2) by (simp add: p)
  ultimately show ?case using ih(2) by (intro exI[of _ "() # us"] exI[of _ s'] exI[of _ "t # ts"]) simp
qed

text \<open>
  The metrics of a result are exactly one line per point: the request, fallback and
  no-eligible-model counts, the cost where there is one, and per attempt its count, its latency and,
  unless it succeeded, a failure; in that order, each with the approved properties only, so the
  publisher never refuses its own points.
\<close>

theorem emf_lines_exact:
  fixes r :: inference_result
  assumes "logs_lines out pub"
  defines "points \<equiv> decision_points (res_decision r) @ concat (map attempt_points (res_invocation_attempts r))"
  shows "\<exists>s' ts. emf_publish pub r s = (Inr (), s') \<and> length ts = length points \<and>
    out s' = out s @ map (\<lambda>(t, name, v, unit, extra). emf_line (emf_environment pub) t name v unit extra) (zip ts points) \<and>
    length points = 3 + (if dec_estimated_cost (res_decision r) = None then 0 else 1) +
      2 * length (res_invocation_attempts r) +
      length (filter (\<lambda>a. at_status a \<noteq> Attempt_SUCCEEDED) (res_invocation_attempts r))"
proof -
  have "\<exists>us s' ts. map_io (put_metric pub) points s = (Inr us, s') \<and> length ts = length points \<and>
     out s' = out s @ map (\<lambda>(t, name, v, unit, extra). emf_line (emf_environment pub) t name v unit extra) (zip ts points)"
    by (rule put_metrics_logged[OF assms(1)]) (unfold points_def, rule points_allowed)
  moreover have "length (concat (map attempt_points ats)) = 2 * length ats + length (filter (\<lambda>a. at_status a \<noteq> Attempt_SUCCEEDED) ats)" for ats
    by (induction ats) (auto simp: attempt_points_def Let_def)
  moreover have "length (decision_points d) = 3 + (if dec_estimated_cost d = None then 0 else 1)" for d
    by (simp add: decision_points_def Let_def split: option.split)
  ultimately show ?thesis by (auto simp: emf_publish_def points_def io_run)
qed

text \<open>Publishing returns whenever the clock and the output do, and keeps what both keep.\<close>

lemma emf_publish_total:
  assumes "total_io (emf_time pub)" and "\<And>v. total_io (emf_print pub v)"
  shows "total_io (emf_publish pub r)"
proof -
  have "total_io (put_metric pub p)"
    if "p \<in> set (decision_points (res_decision r) @ concat (map attempt_points (res_invocation_attempts r)))" for p
  proof -
    obtain n v u x where p: "p = (n, v, u, x)" by (metis surj_pair)
    then have "set (map fst x) \<subseteq> set allowed_extra_keys" using that points_allowed by blast
    then show ?thesis by (auto simp: put_metric_def p intro!: total_io_bind assms)
  qed
  then show ?thesis unfolding emf_publish_def by (intro total_io_bind total_io_map) simp_all
qed

lemma emf_publish_keeps [io_keep]:
  assumes "preserves_io P (emf_time pub)" and "\<And>v. preserves_io P (emf_print pub v)"
  shows "preserves_io P (emf_publish pub r)"
proof -
  have "preserves_io P (put_metric pub p)" for p
    by (cases p) (auto simp: put_metric_def intro!: io_keep assms)
  then show ?thesis unfolding emf_publish_def by (intro io_keep)
qed

text \<open>
  No content leaves through the side channels: neither the metrics nor the decision events
  depend on the response, and publishing an event never raises, whatever the bus does.
\<close>

theorem published_metadata_only:
  "emf_publish pub (r\<lparr>res_response := x\<rparr>) = emf_publish pub r \<and>
   event_publish ev (r\<lparr>res_response := x\<rparr>) = event_publish ev r \<and>
   total_io (event_publish ev r)"
proof -
  have "total_io (event_publish ev r)"
    unfolding total_io_def
  proof
    fix s
    obtain y s' where "evp_put_events ev (event_entry (evp_event_bus_name ev) r) s = (y, s')" by (rule prod.exhaust)
    then show "\<exists>x s'. event_publish ev r s = (Inr x, s')" by (simp add: event_publish_def io_run)
  qed
  then show ?thesis
    by (simp add: emf_publish_def event_publish_def event_entry_def build_detail_def Let_def)
qed

definition sample_emf :: "pyval list emf_publisher" where
  "sample_emf = \<lparr>emf_environment = ''dev'', emf_time = return_io 1, emf_print = (\<lambda>v l. (Inr (), l @ [v]))\<rparr>"

theorem emf_lines_exact_witness:
  "\<exists>l. emf_publish sample_emf \<lparr>res_decision = sample_decision ''dec_1'' 0, res_response = None,
        res_invocation_attempts = sample_attempts\<rparr> [] = (Inr (), l) \<and> length l = 9"
proof -
  have "logs_lines (\<lambda>l. l) sample_emf" by (simp add: logs_lines_def sample_emf_def io_run)
  from emf_lines_exact[OF this, of "\<lparr>res_decision = sample_decision ''dec_1'' 0, res_response = None,
        res_invocation_attempts = sample_attempts\<rparr>" "[]"]
  show ?thesis by (auto simp: sample_decision_def sample_attempts_def)
qed

end
