(* ===== verification/Request_Mapping.thy ===== *)
theory Request_Mapping
  imports Publishers
begin

text \<open>
  \<open>src/handlers/request_mapping.py\<close>: the request parsed from an untyped JSON body, in the source's
  order of evaluation and with every exception it lets through, and the response bodies.  A body is
  the value the handler passes to \<open>json.dumps\<close>; \<open>json_safe\<close> says that it can be serialized.
\<close>

section \<open>Parsing\<close>

text \<open>\<open>Role(v)\<close> and the other enumerations by value: \<open>ValueError\<close> unless \<open>v\<close> is a member's value.\<close>

definition enum_of :: "('a \<Rightarrow> str) \<Rightarrow> 'a list \<Rightarrow> pyval \<Rightarrow> 'a result" where
  "enum_of val members v =
     (case first_such (\<lambda>m. PV_Str (val m) = v) members of None \<Rightarrow> Inl Value_Error | Some m \<Rightarrow> Inr m)"

definition role_of :: "pyval \<Rightarrow> role result" where
  "role_of = enum_of role_value [Role_SYSTEM, Role_USER, Role_ASSISTANT]"

definition quality_tier_of :: "pyval \<Rightarrow> quality_tier result" where
  "quality_tier_of = enum_of quality_tier_value [Tier_STANDARD, Tier_PREMIUM]"

definition latency_preference_of :: "pyval \<Rightarrow> latency_preference result" where
  "latency_preference_of = enum_of latency_preference_value [Latency_LOW, Latency_BALANCED, Latency_HIGH]"

text \<open>\<open>f(v) if v is not None else None\<close>, and a field of an optional type.\<close>

definition unless_none :: "(pyval \<Rightarrow> 'a result) \<Rightarrow> pyval \<Rightarrow> 'a option result" where
  "unless_none f v = (if v = PV_None then Inr None else bind_r (f v) (\<lambda>x. Inr (Some x)))"

definition parse_requirements :: "coercions \<Rightarrow> pyval \<Rightarrow> routing_requirements result" where
  "parse_requirements co requirements_raw =
     bind_r (get_or requirements_raw ''qualityTier'' PV_None) (\<lambda>quality_tier.
     bind_r (get_or requirements_raw ''latencyPreference'' PV_None) (\<lambda>latency_preference.
     bind_r (py_item requirements_raw ''capability'') (\<lambda>capability.
     bind_r (unless_none quality_tier_of quality_tier) (\<lambda>tier.
     bind_r (get_or requirements_raw ''maximumEstimatedCostUsd'' PV_None) (\<lambda>maximum_cost.
     bind_r (get_or requirements_raw ''maximumOutputTokens'' PV_None) (\<lambda>maximum_tokens.
     bind_r (unless_none latency_preference_of latency_preference) (\<lambda>latency.
     bind_r (get_or requirements_raw ''requiresToolUse'' (PV_Bool False)) (\<lambda>tool_use.
     bind_r (get_or requirements_raw ''requiresStructuredOutput'' (PV_Bool False)) (\<lambda>structured.
     bind_r (field (co_str co) capability) (\<lambda>c.
     bind_r (unless_none (field (money_of co)) maximum_cost) (\<lambda>cost.
     bind_r (unless_none (field (co_int co)) maximum_tokens) (\<lambda>tokens.
     bind_r (field (co_bool co) tool_use) (\<lambda>t.
     bind_r (field (co_bool co) structured) (\<lambda>o'.
       let r = \<lparr>req_capability = c, req_quality_tier = tier, req_maximum_estimated_cost_usd = cost,
                req_maximum_output_tokens = tokens, req_latency_preference = latency,
                req_requires_tool_use = t, req_requires_structured_output = o'\<rparr>
       in if routing_requirements_ok r then Inr r else Inl Validation_Error))))))))))))))"

definition parse_message :: "coercions \<Rightarrow> pyval \<Rightarrow> message result" where
  "parse_message co m =
     bind_r (py_item m ''role'') (\<lambda>r.
     bind_r (role_of r) (\<lambda>role.
     bind_r (py_item m ''content'') (\<lambda>c.
     bind_r (field (co_str co) c) (\<lambda>content. Inr \<lparr>msg_role = role, msg_content = content\<rparr>))))"

text \<open>\<open>v or {}\<close>.\<close>

definition or_empty :: "pyval \<Rightarrow> pyval" where
  "or_empty v = (if truthy v then v else PV_Dict [])"

definition parse_inference_request :: "coercions \<Rightarrow> pyval \<Rightarrow> inference_request result" where
  "parse_inference_request co body =
     bind_r (get_or body ''requirements'' PV_None) (\<lambda>requirements_raw.
     bind_r (parse_requirements co (or_empty requirements_raw)) (\<lambda>requirements.
     bind_r (py_item body ''messages'') (\<lambda>messages_raw.
     bind_r (py_iter messages_raw) (\<lambda>ms.
     bind_r (map_r (parse_message co) ms) (\<lambda>messages.
     bind_r (py_item body ''applicationId'') (\<lambda>application_id.
     bind_r (get_or body ''conversationId'' PV_None) (\<lambda>conversation_id.
     bind_r (get_or body ''idempotencyKey'' PV_None) (\<lambda>idempotency_key.
     bind_r (get_or body ''metadata'' PV_None) (\<lambda>metadata.
     bind_r (field (co_str co) application_id) (\<lambda>a.
     bind_r (unless_none (field (co_str co)) conversation_id) (\<lambda>c.
     bind_r (unless_none (field (co_str co)) idempotency_key) (\<lambda>k.
     bind_r (field (co_metadata co) (or_empty metadata)) (\<lambda>md.
       validate_inference_request
         \<lparr>ir_application_id = a, ir_messages = messages, ir_requirements = requirements,
          ir_conversation_id = c, ir_idempotency_key = k, ir_metadata = md\<rparr>)))))))))))))"

section \<open>Serialization\<close>

definition serialize_codes :: "routing_reason_code list \<Rightarrow> pyval" where
  "serialize_codes codes = PV_List (map (\<lambda>c. PV_Str (routing_reason_code_value c)) codes)"

definition serialize_route :: "routing_decision \<Rightarrow> pyval" where
  "serialize_route decision = PV_Dict
     [(''modelAlias'', opt_value PV_Str (dec_selected_model_alias decision)),
      (''provider'', opt_value (\<lambda>p. PV_Str (provider_name_value p)) (dec_provider decision)),
      (''fallbackUsed'', PV_Bool (dec_fallback_used decision)),
      (''reasonCodes'', serialize_codes (dec_reason_codes decision))]"

definition serialize_usage :: "routing_decision \<Rightarrow> pyval" where
  "serialize_usage decision =
     (case (dec_estimated_usage decision, dec_estimated_cost decision) of
        (Some u, Some c) \<Rightarrow> PV_Dict
          [(''inputTokens'', PV_Int (us_input_tokens u)), (''outputTokens'', PV_Int (us_output_tokens u)),
           (''estimatedCostUsd'', PV_Float (float_of_decimal (ec_amount_usd c)))]
      | _ \<Rightarrow> PV_None)"

definition serialize_considered_candidate :: "route_candidate \<Rightarrow> str option \<Rightarrow> pyval" where
  "serialize_considered_candidate candidate selected_alias = PV_Dict
     [(''modelAlias'', PV_Str (rc_model_alias candidate)),
      (''selected'', PV_Bool (Some (rc_model_alias candidate) = selected_alias)),
      (''estimatedCostUsd'', PV_Float (float_of_decimal (ec_amount_usd (rc_estimated_cost candidate)))),
      (''reasonCodes'', serialize_codes (rc_reason_codes candidate))]"

definition serialize_inference_result :: "inference_result \<Rightarrow> str \<Rightarrow> pyval" where
  "serialize_inference_result result request_id = PV_Dict
     [(''decisionId'', PV_Str (dec_decision_id (res_decision result))),
      (''response'', opt_value (\<lambda>r. PV_Dict
          [(''role'', PV_Str (role_value (msg_role (ps_message r)))), (''content'', PV_Str (msg_content (ps_message r)))])
          (res_response result)),
      (''route'', serialize_route (res_decision result)),
      (''usage'', serialize_usage (res_decision result)),
      (''requestId'', PV_Str request_id)]"

definition serialize_route_evaluation :: "routing_decision \<Rightarrow> str \<Rightarrow> pyval" where
  "serialize_route_evaluation decision request_id = PV_Dict
     [(''decisionId'', PV_Str (dec_decision_id decision)),
      (''route'', serialize_route decision),
      (''consideredCandidates'', PV_List (map (\<lambda>c. serialize_considered_candidate c (dec_selected_model_alias decision))
          (dec_considered_candidates decision))),
      (''usageEstimate'', serialize_usage decision),
      (''requestId'', PV_Str request_id)]"

text \<open>\<open>isoformat().replace("+00:00", "Z")\<close>: every occurrence, scanning from the left.\<close>

function replace_all :: "str \<Rightarrow> str \<Rightarrow> str \<Rightarrow> str" where
  "replace_all old new s =
     (if old = [] \<or> length s < length old then s
      else if take (length old) s = old then new @ replace_all old new (drop (length old) s)
      else hd s # replace_all old new (tl s))"
  by pat_completeness auto
termination by (relation "measure (\<lambda>(old, new, s). length s)") (auto simp: not_less neq_Nil_conv)

declare replace_all.simps [simp del]

definition serialize_attempt :: "invocation_attempt \<Rightarrow> pyval" where
  "serialize_attempt att = PV_Dict
     [(''modelAlias'', PV_Str (at_model_alias att)),
      (''status'', PV_Str (invocation_attempt_status_value (at_status att))),
      (''latencyMs'', PV_Int (at_latency_ms att))]"

definition serialize_audit_record :: "audit_record \<Rightarrow> str \<Rightarrow> pyval" where
  "serialize_audit_record audit_record request_id =
     (let decision = aud_decision audit_record
      in PV_Dict
        [(''decisionId'', PV_Str (dec_decision_id decision)),
         (''applicationId'', PV_Str (dec_application_id decision)),
         (''createdAt'', PV_Str (replace_all ''+00:00'' ''Z'' (isoformat (dec_created_at decision)))),
         (''policyId'', PV_Str (dec_policy_id decision)),
         (''policyVersion'', PV_Int (dec_policy_version decision)),
         (''capability'', PV_Str (dec_capability decision)),
         (''route'', serialize_route decision),
         (''usage'', serialize_usage decision),
         (''invocationAttempts'', PV_List (map serialize_attempt (aud_invocation_attempts audit_record))),
         (''requestId'', PV_Str request_id)])"

section \<open>The models response\<close>

fun latency_rank :: "latency_preference \<Rightarrow> nat" where
  "latency_rank Latency_LOW = 0"
| "latency_rank Latency_BALANCED = 1"
| "latency_rank Latency_HIGH = 2"

text \<open>\<open>defaultdict(list)\<close>: \<open>groups[key].append(value)\<close>.\<close>

fun group_append :: "'k \<Rightarrow> 'v \<Rightarrow> ('k \<times> 'v list) list \<Rightarrow> ('k \<times> 'v list) list" where
  "group_append k v [] = [(k, [v])]"
| "group_append k v ((k', vs) # groups) =
     (if k' = k then (k', vs @ [v]) # groups else (k', vs) # group_append k v groups)"

definition by_capability :: "model_definition list \<Rightarrow> (str \<times> model_definition list) list" where
  "by_capability models =
     fold (\<lambda>(tag, m). group_append tag m)
       (concat (map (\<lambda>m. map (\<lambda>tag. (tag, m)) (cap_capability_tags (md_capabilities m))) models)) []"

text \<open>\<open>min(generator, key=...)\<close>: \<open>ValueError\<close> on nothing.\<close>

fun min_by :: "('a \<Rightarrow> 'k::linorder) \<Rightarrow> 'a list \<Rightarrow> 'a result" where
  "min_by f [] = Inl Value_Error"
| "min_by f (x # xs) = Inr (min_key f x xs)"

definition capability_entry :: "str \<times> model_definition list \<Rightarrow> pyval result" where
  "capability_entry entry =
     (case entry of (capability, models) \<Rightarrow>
        let caps = map md_capabilities models
        in bind_r (min_by latency_rank (map cap_typical_latency caps)) (\<lambda>best_latency. Inr (PV_Dict
          [(''capability'', PV_Str capability),
           (''qualityTiers'', PV_List (map PV_Str (sort (remdups (map (\<lambda>c. quality_tier_value (cap_quality_tier c)) caps))))),
           (''supportsToolUse'', PV_Bool (list_ex cap_supports_tool_use caps)),
           (''supportsStructuredOutput'', PV_Bool (list_ex cap_supports_structured_output caps)),
           (''typicalLatency'', PV_Str (latency_preference_value best_latency))])))"

definition serialize_models_response :: "model_definition list \<Rightarrow> str \<Rightarrow> pyval result" where
  "serialize_models_response models request_id =
     bind_r (map_r capability_entry (sort_key fst (by_capability models))) (\<lambda>capabilities. Inr (PV_Dict
       [(''capabilities'', PV_List capabilities), (''requestId'', PV_Str request_id)]))"

section \<open>What the parser raises\<close>

text \<open>The exceptions the handlers answer with 400.\<close>

definition invalid_request_exns :: "exn set" where
  "invalid_request_exns = {Validation_Error, Key_Error, Type_Error, Value_Error}"

lemma raises_enum_of [raises]: "Value_Error \<in> E \<Longrightarrow> raises_only E (enum_of val ms v)"
  by (simp add: enum_of_def raises_only_def split: option.split)

lemma raises_unless_none [raises]: "raises_only E (f v) \<Longrightarrow> raises_only E (unless_none f v)"
  unfolding unless_none_def by (intro raises)

lemma raises_parse_message [raises]: "raises_only invalid_request_exns (parse_message co m)"
  unfolding parse_message_def role_of_def by (intro raises) (simp_all add: invalid_request_exns_def)

lemma raises_validate [raises]: "raises_only invalid_request_exns (validate_inference_request r)"
  by (simp add: validate_inference_request_def raises_only_def invalid_request_exns_def)

lemma raises_parse_requirements [raises]: "raises_only invalid_request_exns (parse_requirements co (PV_Dict kvs))"
  unfolding parse_requirements_def get_or_dict quality_tier_of_def latency_preference_of_def Let_def
  by (intro raises) (simp_all add: invalid_request_exns_def)

text \<open>
  An object whose \<open>requirements\<close>, where present and truthy, are an object too.  On anything else
  the attribute lookups of the parser raise \<open>AttributeError\<close>, which no handler answers with 400.
\<close>

definition object_body :: "pyval \<Rightarrow> bool" where
  "object_body body \<longleftrightarrow>
     (case body of
        PV_Dict kvs \<Rightarrow>
          (case map_of kvs ''requirements'' of
             Some v \<Rightarrow> truthy v \<longrightarrow> (case v of PV_Dict r \<Rightarrow> True | _ \<Rightarrow> False)
           | None \<Rightarrow> True)
      | _ \<Rightarrow> False)"

lemma parse_inference_error:
  assumes "object_body body"
  shows "raises_only invalid_request_exns (parse_inference_request co body)"
proof -
  obtain kvs where kvs: "body = PV_Dict kvs" using assms by (cases body) (auto simp: object_body_def)
  define v where "v = (case map_of kvs ''requirements'' of None \<Rightarrow> PV_None | Some v \<Rightarrow> v)"
  have "\<exists>r. or_empty v = PV_Dict r"
  proof (cases "truthy v")
    case True
    then have "map_of kvs ''requirements'' = Some v" by (auto simp: v_def split: option.splits)
    then show ?thesis using assms True by (auto simp: object_body_def kvs or_empty_def split: pyval.splits)
  qed (simp add: or_empty_def)
  then obtain r where r: "or_empty v = PV_Dict r" ..
  show ?thesis
    unfolding parse_inference_request_def kvs get_or_dict bind_r_simps v_def[symmetric] r
    by (intro raises) (simp_all add: invalid_request_exns_def)
qed

lemma parse_inference_attribute_error:
  assumes "\<not> object_body body"
  shows "parse_inference_request co body = Inl Attribute_Error"
proof (cases body)
  case (PV_Dict kvs)
  then obtain v where v: "map_of kvs ''requirements'' = Some v" "truthy v" "\<And>r. v \<noteq> PV_Dict r"
    using assms by (auto simp: object_body_def split: option.splits pyval.splits)
  have "get_or (or_empty v) k d = Inl Attribute_Error" for k d
    using v(2) v(3) by (cases v) (auto simp: or_empty_def get_or_def)
  then show ?thesis using v by (simp add: PV_Dict parse_inference_request_def parse_requirements_def)
qed (simp_all add: parse_inference_request_def get_or_def)

lemma parse_inference_valid: "parse_inference_request co body = Inr r \<Longrightarrow> validate_inference_request r = Inr r"
  unfolding parse_inference_request_def bind_r_Inr_iff
  by (elim exE conjE) (auto simp: validate_inference_request_def split: if_splits)

section \<open>Round trip\<close>

text \<open>The documented body of a request: every field by its public name, \<open>null\<close> for an absent one.\<close>

definition requirements_body :: "routing_requirements \<Rightarrow> pyval" where
  "requirements_body r = PV_Dict
     [(''capability'', PV_Str (req_capability r)),
      (''qualityTier'', opt_value (\<lambda>t. PV_Str (quality_tier_value t)) (req_quality_tier r)),
      (''maximumEstimatedCostUsd'', opt_value PV_Dec (req_maximum_estimated_cost_usd r)),
      (''maximumOutputTokens'', opt_value PV_Int (req_maximum_output_tokens r)),
      (''latencyPreference'', opt_value (\<lambda>l. PV_Str (latency_preference_value l)) (req_latency_preference r)),
      (''requiresToolUse'', PV_Bool (req_requires_tool_use r)),
      (''requiresStructuredOutput'', PV_Bool (req_requires_structured_output r))]"

definition message_body :: "message \<Rightarrow> pyval" where
  "message_body m = PV_Dict [(''role'', PV_Str (role_value (msg_role m))), (''content'', PV_Str (msg_content m))]"

definition request_body :: "inference_request \<Rightarrow> pyval" where
  "request_body r = PV_Dict
     [(''applicationId'', PV_Str (ir_application_id r)),
      (''messages'', PV_List (map message_body (ir_messages r))),
      (''requirements'', requirements_body (ir_requirements r)),
      (''conversationId'', opt_value PV_Str (ir_conversation_id r)),
      (''idempotencyKey'', opt_value PV_Str (ir_idempotency_key r)),
      (''metadata'', PV_Dict (map (\<lambda>kv. (fst kv, PV_Str (snd kv))) (ir_metadata r)))]"

lemma enum_of_value:
  "role_of (PV_Str (role_value r)) = Inr r"
  "quality_tier_of (PV_Str (quality_tier_value t)) = Inr t"
  "latency_preference_of (PV_Str (latency_preference_value l)) = Inr l"
  subgoal by (cases r) (simp_all add: role_of_def enum_of_def)
  subgoal by (cases t) (simp_all add: quality_tier_of_def enum_of_def)
  subgoal by (cases l) (simp_all add: latency_preference_of_def enum_of_def)
  done

lemma unless_none_value:
  assumes "\<And>a. f (g a) = Inr a" and "\<And>a. g a \<noteq> PV_None"
  shows "unless_none f (opt_value g x) = Inr x"
  using assms by (cases x) (simp_all add: unless_none_def opt_value_def)

lemma requirements_eta:
  "\<lparr>req_capability = req_capability r, req_quality_tier = req_quality_tier r,
    req_maximum_estimated_cost_usd = req_maximum_estimated_cost_usd r,
    req_maximum_output_tokens = req_maximum_output_tokens r, req_latency_preference = req_latency_preference r,
    req_requires_tool_use = req_requires_tool_use r,
    req_requires_structured_output = req_requires_structured_output r\<rparr> = r"
  by (cases r) simp

lemma request_eta:
  "\<lparr>ir_application_id = ir_application_id r, ir_messages = ir_messages r, ir_requirements = ir_requirements r,
    ir_conversation_id = ir_conversation_id r, ir_idempotency_key = ir_idempotency_key r, ir_metadata = ir_metadata r\<rparr> = r"
  by (cases r) simp

lemma requirements_round_trip:
  assumes "coerces_exact co" and "routing_requirements_ok r"
  shows "parse_requirements co (requirements_body r) = Inr r"
  using assms
  by (simp add: parse_requirements_def requirements_body_def coerces_exact_def unless_none_value enum_of_value
      Let_def requirements_eta)

lemma messages_round_trip:
  assumes "coerces_exact co"
  shows "map_r (parse_message co) (map message_body ms) = Inr ms"
  using assms
  by (induction ms) (simp_all add: parse_message_def message_body_def coerces_exact_def enum_of_value)

lemma request_body_parsed:
  assumes "coerces_exact co" and "validate_inference_request r = Inr r" and "distinct (map fst (ir_metadata r))"
  shows "parse_inference_request co (request_body r) = Inr r"
proof -
  have ok: "routing_requirements_ok (ir_requirements r)"
    using assms(2) by (simp add: validate_inference_request_def split: if_splits)
  have req: "or_empty (requirements_body q) = requirements_body q" for q
    by (simp add: or_empty_def requirements_body_def)
  have md: "or_empty (PV_Dict kvs) = PV_Dict kvs" for kvs
    by (simp add: or_empty_def)
  show ?thesis
    using assms requirements_round_trip[OF assms(1) ok] messages_round_trip[OF assms(1)]
    by (simp add: parse_inference_request_def request_body_def req md coerces_exact_def unless_none_value
        request_eta)
qed

text \<open>
  C26. Every valid request survives the wire: parsing the documented JSON body of a request gives
  the request back, field by field, with its cost limit as the exact decimal it was written as.
  Conversely whatever the parser accepts is a valid request.
\<close>

theorem request_round_trip:
  assumes "coerces_exact co" and "validate_inference_request r = Inr r" and "distinct (map fst (ir_metadata r))"
  shows "parse_inference_request co (request_body r) = Inr r \<and>
    (\<forall>body r'. parse_inference_request co body = Inr r' \<longrightarrow> validate_inference_request r' = Inr r')"
  using request_body_parsed[OF assms] parse_inference_valid by blast

definition sample_wire_request :: inference_request where
  "sample_wire_request =
     \<lparr>ir_application_id = ''support-assistant'', ir_messages = [\<lparr>msg_role = Role_USER, msg_content = ''hi''\<rparr>],
      ir_requirements = \<lparr>req_capability = ''balanced-text'', req_quality_tier = Some Tier_STANDARD,
        req_maximum_estimated_cost_usd = Some (Dec 1 (-2)), req_maximum_output_tokens = Some 500,
        req_latency_preference = None, req_requires_tool_use = False, req_requires_structured_output = True\<rparr>,
      ir_conversation_id = None, ir_idempotency_key = Some ''k'', ir_metadata = [(''useCase'', ''summary'')]\<rparr>"

theorem request_round_trip_witness:
  "parse_inference_request strict_coercions (request_body sample_wire_request) = Inr sample_wire_request"
proof -
  have "validate_inference_request sample_wire_request = Inr sample_wire_request"
    by (simp add: validate_inference_request_def sample_wire_request_def is_blank_def is_space_def routing_requirements_ok_def)
  then show ?thesis
    using request_round_trip[OF strict_coercions_exact, of sample_wire_request]
    by (simp add: sample_wire_request_def)
qed

section \<open>The models response is an aggregate\<close>

text \<open>What the response says of a set of capability descriptions.\<close>

definition best_latency_of :: "latency_preference set \<Rightarrow> latency_preference" where
  "best_latency_of L =
     (if Latency_LOW \<in> L then Latency_LOW else if Latency_BALANCED \<in> L then Latency_BALANCED else Latency_HIGH)"

definition capability_summary :: "str \<Rightarrow> model_capabilities set \<Rightarrow> pyval" where
  "capability_summary capability G = PV_Dict
     [(''capability'', PV_Str capability),
      (''qualityTiers'', PV_List (map PV_Str (sorted_list_of_set ((\<lambda>c. quality_tier_value (cap_quality_tier c)) ` G)))),
      (''supportsToolUse'', PV_Bool (\<exists>c\<in>G. cap_supports_tool_use c)),
      (''supportsStructuredOutput'', PV_Bool (\<exists>c\<in>G. cap_supports_structured_output c)),
      (''typicalLatency'', PV_Str (latency_preference_value (best_latency_of (cap_typical_latency ` G))))]"

definition models_summary :: "model_capabilities set \<Rightarrow> str \<Rightarrow> pyval" where
  "models_summary C request_id = PV_Dict
     [(''capabilities'', PV_List (map (\<lambda>tag. capability_summary tag {c \<in> C. tag \<in> set (cap_capability_tags c)})
         (sorted_list_of_set (\<Union>c\<in>C. set (cap_capability_tags c))))),
      (''requestId'', PV_Str request_id)]"

lemma min_latency: "min_key latency_rank l ls = best_latency_of (set (l # ls))"
proof -
  have m: "min_key latency_rank l ls \<in> set (l # ls)" by (rule min_key_in)
  have "latency_rank (min_key latency_rank l ls) \<le> latency_rank x" if "x \<in> set (l # ls)" for x
    using min_key_le[OF that] .
  then show ?thesis
    using m by (cases "min_key latency_rank l ls") (force simp: best_latency_of_def)+
qed

lemma capability_entry_summary:
  assumes "models \<noteq> []"
  shows "capability_entry (tag, models) = Inr (capability_summary tag (md_capabilities ` set models))"
proof -
  obtain m ms where models: "models = m # ms" using assms by (cases models) auto
  have latency: "min_by latency_rank (map cap_typical_latency (map md_capabilities models)) =
      Inr (best_latency_of (cap_typical_latency ` md_capabilities ` set models))"
    by (simp add: models min_latency image_image)
  have ex: "list_ex P (map md_capabilities models) \<longleftrightarrow> (\<exists>c\<in>md_capabilities ` set models. P c)" for P
    by (simp add: list_ex_iff)
  have tiers: "sort (remdups (map (\<lambda>c. quality_tier_value (cap_quality_tier c)) (map md_capabilities models))) =
      sorted_list_of_set ((\<lambda>c. quality_tier_value (cap_quality_tier c)) ` md_capabilities ` set models)"
    by (simp add: sorted_list_of_set_sort_remdups[symmetric] image_image)
  show ?thesis
    unfolding capability_entry_def case_prod_conv Let_def latency bind_r_simps ex tiers capability_summary_def ..
qed

definition grouped :: "'k \<Rightarrow> ('k \<times> 'v) list \<Rightarrow> 'v list" where
  "grouped k ps = map snd (filter (\<lambda>p. fst p = k) ps)"

lemma group_append_keys:
  "fst ` set (group_append k v g) = insert k (fst ` set g)"
  "distinct (map fst g) \<Longrightarrow> distinct (map fst (group_append k v g))"
proof -
  show keys: "fst ` set (group_append k v g) = insert k (fst ` set g)" for g
    by (induction k v g rule: group_append.induct) auto
  show "distinct (map fst g) \<Longrightarrow> distinct (map fst (group_append k v g))"
    using keys by (induction k v g rule: group_append.induct) (auto simp: image_iff)
qed

lemma map_of_group_append:
  "map_of (group_append k v g) c =
     (if c = k then Some ((case map_of g k of None \<Rightarrow> [] | Some vs \<Rightarrow> vs) @ [v]) else map_of g c)"
  by (induction k v g rule: group_append.induct) auto

lemma fold_groups:
  fixes ps :: "('k \<times> 'v) list"
  shows "distinct (map fst (fold (\<lambda>(k, v). group_append k v) ps []))"
    and "map_of (fold (\<lambda>(k, v). group_append k v) ps []) c = (if grouped c ps = [] then None else Some (grouped c ps))"
proof (induction ps rule: rev_induct)
  case (snoc p ps)
  { case 1 show ?case using snoc(1) by (simp add: group_append_keys split: prod.split) }
  { case 2 show ?case using snoc(2) by (auto simp: map_of_group_append grouped_def split: prod.split) }
qed (simp_all add: grouped_def)

lemma map_r_pure: "(\<And>x. x \<in> set xs \<Longrightarrow> f x = Inr (h x)) \<Longrightarrow> map_r f xs = Inr (map h xs)"
  by (induction xs) auto

lemma by_capability_groups:
  shows "distinct (map fst (by_capability models))"
    and "fst ` set (by_capability models) = (\<Union>c\<in>md_capabilities ` set models. set (cap_capability_tags c))"
    and "(tag, ms) \<in> set (by_capability models) \<Longrightarrow>
      ms \<noteq> [] \<and> set ms = {m \<in> set models. tag \<in> set (cap_capability_tags (md_capabilities m))}"
proof -
  let ?ps = "concat (map (\<lambda>m. map (\<lambda>tag. (tag, m)) (cap_capability_tags (md_capabilities m))) models)"
  show dist: "distinct (map fst (by_capability models))"
    unfolding by_capability_def by (rule fold_groups)
  have lookup: "map_of (by_capability models) t = (if grouped t ?ps = [] then None else Some (grouped t ?ps))" for t
    unfolding by_capability_def by (rule fold_groups)
  have members: "set (grouped t ?ps) = {m \<in> set models. t \<in> set (cap_capability_tags (md_capabilities m))}" for t
    by (auto simp: grouped_def image_iff)
  show "ms \<noteq> [] \<and> set ms = {m \<in> set models. tag \<in> set (cap_capability_tags (md_capabilities m))}"
    if "(tag, ms) \<in> set (by_capability models)"
    using map_of_is_SomeI[OF dist that] lookup[of tag] members[of tag] by (auto split: if_splits)
  have "t \<in> fst ` set (by_capability models) \<longleftrightarrow> set (grouped t ?ps) \<noteq> {}" for t
    using lookup[of t] map_of_eq_None_iff[of "by_capability models" t] by (simp split: if_splits)
  then show "fst ` set (by_capability models) = (\<Union>c\<in>md_capabilities ` set models. set (cap_capability_tags c))"
    unfolding members by blast
qed

lemma models_response_exact:
  "serialize_models_response models request_id = Inr (models_summary (md_capabilities ` set models) request_id)"
proof -
  let ?g = "sort_key fst (by_capability models)"
  let ?C = "md_capabilities ` set models"
  have entry: "capability_entry e = Inr (capability_summary (fst e) {c \<in> ?C. fst e \<in> set (cap_capability_tags c)})"
    if e: "e \<in> set (by_capability models)" for e
  proof -
    have g: "snd e \<noteq> []" "set (snd e) = {m \<in> set models. fst e \<in> set (cap_capability_tags (md_capabilities m))}"
      using by_capability_groups(3)[of "fst e" "snd e" models] e by auto
    have "md_capabilities ` set (snd e) = {c \<in> ?C. fst e \<in> set (cap_capability_tags c)}" using g(2) by auto
    then show ?thesis using capability_entry_summary[OF g(1), of "fst e"] by simp
  qed
  have keys: "map fst ?g = sorted_list_of_set (\<Union>c\<in>?C. set (cap_capability_tags c))"
    using by_capability_groups(1,2)[of models]
    by (intro sorted_distinct_set_unique) (simp_all add: distinct_map)
  have "map_r capability_entry ?g =
      Inr (map (\<lambda>e. capability_summary (fst e) {c \<in> ?C. fst e \<in> set (cap_capability_tags c)}) ?g)"
    by (rule map_r_pure) (simp add: entry)
  also have "\<dots> = Inr (map (\<lambda>tag. capability_summary tag {c \<in> ?C. tag \<in> set (cap_capability_tags c)}) (map fst ?g))"
    by simp
  finally show ?thesis
    unfolding serialize_models_response_def models_summary_def keys by simp
qed

text \<open>
  The models endpoint publishes an aggregate of the catalogue's capability descriptions and
  nothing else: the response is a function of the set of capabilities alone, so no alias, provider,
  model id, price or catalogue order shows in it; it lists every capability tag once, in order, with
  the tiers, the flags and the best latency of the models that carry the tag; and building it never
  raises.
\<close>

theorem models_response_aggregates:
  "serialize_models_response models request_id = Inr (models_summary (md_capabilities ` set models) request_id)"
  by (rule models_response_exact)

end
