(* ===== verification/Idempotency_Store.thy ===== *)
theory Idempotency_Store
  imports Ports Py_Float
begin

text \<open>
  The two idempotency stores: \<open>src/adapters/memory/in_memory_idempotency_store.py\<close> and
  \<open>src/adapters/dynamodb/dynamodb_idempotency_store.py\<close>.  Both refine one abstract store, a map
  from keys to a reservation in progress or a completed result; the refinement is an
  interpretation of the locale that states the contract.  The methods of the in-memory store hold
  a lock and the conditional write of DynamoDB is atomic, so each is one step of an interleaving.
\<close>

type_synonym idempotency_key = "str \<times> str"

section \<open>The in-memory store\<close>

record idempotency_record =
  idr_request_hash :: str
  idr_in_progress :: bool
  idr_result :: "inference_result option"
  idr_expires_at :: datetime

type_synonym idempotency_records = "idempotency_key \<rightharpoonup> idempotency_record"

text \<open>\<open>timedelta(seconds=n)\<close> in microseconds.\<close>

definition seconds :: "int \<Rightarrow> int" where
  "seconds n = n * 1000000"

definition store_now :: "'w clock \<Rightarrow> ('r \<times> 'w, datetime) op" where
  "store_now ck = on_part snd (\<lambda>w s. (fst s, w)) (ck_now ck)"

definition reservation :: "idempotency_outcome \<Rightarrow> inference_result option \<Rightarrow> idempotency_reservation" where
  "reservation outcome cached = \<lparr>rsv_outcome = outcome, rsv_cached_result = cached\<rparr>"

definition memory_reserve ::
  "'w clock \<Rightarrow> int \<Rightarrow> str \<Rightarrow> str \<Rightarrow> str \<Rightarrow> (idempotency_records \<times> 'w, idempotency_reservation) op" where
  "memory_reserve ck stale application_id key request_hash =
     bind_io (store_now ck) (\<lambda>now s.
       let k = (application_id, key);
           new = (Inr (reservation Outcome_NEW None),
                  ((fst s)(k \<mapsto> \<lparr>idr_request_hash = request_hash, idr_in_progress = True,
                                 idr_result = None, idr_expires_at = now + stale\<rparr>), snd s))
       in case fst s k of
            None \<Rightarrow> new
          | Some record \<Rightarrow>
              if now < idr_expires_at record
              then (Inr (if idr_request_hash record \<noteq> request_hash then reservation Outcome_CONFLICT None
                         else if idr_in_progress record then reservation Outcome_IN_PROGRESS None
                         else reservation Outcome_COMPLETED (idr_result record)), s)
              else new)"

definition memory_release :: "str \<Rightarrow> str \<Rightarrow> (idempotency_records \<times> 'w, unit) op" where
  "memory_release application_id key = (\<lambda>s. (Inr (), ((fst s)((application_id, key) := None), snd s)))"

definition memory_complete ::
  "'w clock \<Rightarrow> str \<Rightarrow> str \<Rightarrow> str \<Rightarrow> inference_result \<Rightarrow> bool \<Rightarrow> int \<Rightarrow>
   (idempotency_records \<times> 'w, unit) op" where
  "memory_complete ck application_id key request_hash result cache_result retention_seconds =
     (if \<not> cache_result then memory_release application_id key
      else bind_io (store_now ck) (\<lambda>now s.
        (Inr (), ((fst s)((application_id, key) \<mapsto>
           \<lparr>idr_request_hash = request_hash, idr_in_progress = False, idr_result = Some result,
            idr_expires_at = now + seconds retention_seconds\<rparr>), snd s))))"

definition in_memory_idempotency_store ::
  "'w clock \<Rightarrow> int \<Rightarrow> (idempotency_records \<times> 'w) idempotency_store" where
  "in_memory_idempotency_store ck stale =
     \<lparr>ids_reserve = memory_reserve ck stale, ids_complete = memory_complete ck,
      ids_release = memory_release\<rparr>"

section \<open>DynamoDB\<close>

text \<open>
  The table as the code uses it: a write under a condition on the item that is there (an item of
  \<open>None\<close> is no item), an unconditional write, a read and a delete.  A failed condition raises
  the client error with the code \<open>ConditionalCheckFailedException\<close>.
\<close>

record ('s, 'k, 'v) table_port =
  tb_put_if :: "('v option \<Rightarrow> bool) \<Rightarrow> 'k \<Rightarrow> 'v \<Rightarrow> ('s, unit) op"
  tb_put :: "'k \<Rightarrow> 'v \<Rightarrow> ('s, unit) op"
  tb_get :: "'k \<Rightarrow> ('s, 'v option) op"
  tb_delete :: "'k \<Rightarrow> ('s, unit) op"

definition condition_failed :: exn where
  "condition_failed = Client_Error ''ConditionalCheckFailedException''"

record 'j idempotency_item =
  idi_request_hash :: str
  idi_status :: str
  idi_result :: "'j option"
  idi_expires_at :: int

definition status_in_progress :: str where "status_in_progress = ''in_progress''"
definition status_completed :: str where "status_completed = ''completed''"
definition max_reserve_attempts :: nat where "max_reserve_attempts = 2"

text \<open>
  The store's collaborators: the table, \<open>time.time\<close>, and pydantic's JSON text of a result with
  the validation that reads it back.
\<close>

record ('s, 'j) dynamo_idempotency =
  dyn_table :: "('s, idempotency_key, 'j idempotency_item) table_port"
  dyn_stale_reservation_seconds :: int
  dyn_clock_seconds :: "('s, rat) op"
  dyn_dump_result :: "inference_result \<Rightarrow> 'j"
  dyn_validate_result :: "'j \<Rightarrow> inference_result result"

definition reservable :: "int \<Rightarrow> 'j idempotency_item option \<Rightarrow> bool" where
  "reservable now item \<longleftrightarrow> (case item of None \<Rightarrow> True | Some i \<Rightarrow> idi_expires_at i < now)"

definition existing_reservation ::
  "('s, 'j) dynamo_idempotency \<Rightarrow> str \<Rightarrow> 'j idempotency_item \<Rightarrow> idempotency_reservation result" where
  "existing_reservation cfg request_hash existing =
     (if idi_request_hash existing \<noteq> request_hash then Inr (reservation Outcome_CONFLICT None)
      else if idi_status existing = status_in_progress then Inr (reservation Outcome_IN_PROGRESS None)
      else case idi_result existing of
             None \<Rightarrow> Inl Key_Error
           | Some j \<Rightarrow> bind_r (dyn_validate_result cfg j) (\<lambda>r. Inr (reservation Outcome_COMPLETED (Some r))))"

definition dynamo_try_reserve ::
  "('s, 'j) dynamo_idempotency \<Rightarrow> str \<Rightarrow> str \<Rightarrow> str \<Rightarrow> ('s, idempotency_reservation option) op" where
  "dynamo_try_reserve cfg application_id key request_hash =
     bind_io (dyn_clock_seconds cfg) (\<lambda>t.
       let now = int_trunc t in
       bind_io (attempt_io (tb_put_if (dyn_table cfg) (reservable now) (application_id, key)
                  \<lparr>idi_request_hash = request_hash, idi_status = status_in_progress, idi_result = None,
                   idi_expires_at = now + dyn_stale_reservation_seconds cfg\<rparr>)) (\<lambda>outcome.
         case outcome of
           Inr _ \<Rightarrow> return_io (Some (reservation Outcome_NEW None))
         | Inl e \<Rightarrow>
             if e \<noteq> condition_failed then raise_io e
             else bind_io (tb_get (dyn_table cfg) (application_id, key)) (\<lambda>existing.
               case existing of
                 None \<Rightarrow> return_io None
               | Some i \<Rightarrow> bind_io (lift_r (existing_reservation cfg request_hash i)) (\<lambda>r.
                   return_io (Some r)))))"

fun dynamo_reserve_loop ::
  "nat \<Rightarrow> ('s, 'j) dynamo_idempotency \<Rightarrow> str \<Rightarrow> str \<Rightarrow> str \<Rightarrow> ('s, idempotency_reservation) op" where
  "dynamo_reserve_loop 0 cfg application_id key request_hash = return_io (reservation Outcome_NEW None)"
| "dynamo_reserve_loop (Suc n) cfg application_id key request_hash =
     bind_io (dynamo_try_reserve cfg application_id key request_hash) (\<lambda>r.
       case r of
         Some res \<Rightarrow> return_io res
       | None \<Rightarrow> dynamo_reserve_loop n cfg application_id key request_hash)"

definition dynamo_reserve ::
  "('s, 'j) dynamo_idempotency \<Rightarrow> str \<Rightarrow> str \<Rightarrow> str \<Rightarrow> ('s, idempotency_reservation) op" where
  "dynamo_reserve cfg = dynamo_reserve_loop max_reserve_attempts cfg"

definition dynamo_release :: "('s, 'j) dynamo_idempotency \<Rightarrow> str \<Rightarrow> str \<Rightarrow> ('s, unit) op" where
  "dynamo_release cfg application_id key = tb_delete (dyn_table cfg) (application_id, key)"

definition dynamo_complete ::
  "('s, 'j) dynamo_idempotency \<Rightarrow> str \<Rightarrow> str \<Rightarrow> str \<Rightarrow> inference_result \<Rightarrow> bool \<Rightarrow> int \<Rightarrow> ('s, unit) op" where
  "dynamo_complete cfg application_id key request_hash result cache_result retention_seconds =
     (if \<not> cache_result then dynamo_release cfg application_id key
      else bind_io (dyn_clock_seconds cfg) (\<lambda>t.
        tb_put (dyn_table cfg) (application_id, key)
          \<lparr>idi_request_hash = request_hash, idi_status = status_completed,
           idi_result = Some (dyn_dump_result cfg result),
           idi_expires_at = int_trunc t + retention_seconds\<rparr>))"

definition dynamo_idempotency_store :: "('s, 'j) dynamo_idempotency \<Rightarrow> 's idempotency_store" where
  "dynamo_idempotency_store cfg =
     \<lparr>ids_reserve = dynamo_reserve cfg, ids_complete = dynamo_complete cfg, ids_release = dynamo_release cfg\<rparr>"

section \<open>The contract\<close>

datatype entry = In_Progress str | Completed str inference_result

text \<open>What reserving returns and leaves, given what is held under the key.\<close>

fun reserve_spec :: "entry option \<Rightarrow> str \<Rightarrow> idempotency_reservation \<times> entry option" where
  "reserve_spec None h = (reservation Outcome_NEW None, Some (In_Progress h))"
| "reserve_spec (Some (In_Progress h')) h =
     (reservation (if h' = h then Outcome_IN_PROGRESS else Outcome_CONFLICT) None, Some (In_Progress h'))"
| "reserve_spec (Some (Completed h' r)) h =
     ((if h' = h then reservation Outcome_COMPLETED (Some r) else reservation Outcome_CONFLICT None),
      Some (Completed h' r))"

text \<open>
  \<open>inv\<close> is the store's invariant and \<open>live\<close> the abstraction: the entries that count at the
  moment, expired ones left out.
\<close>

locale idempotency_contract =
  fixes store :: "'s idempotency_store" and inv :: "'s \<Rightarrow> bool"
    and live :: "'s \<Rightarrow> idempotency_key \<Rightarrow> entry option"
  assumes reserve_law: "inv s \<Longrightarrow> ids_reserve store a k h s = (r, s') \<Longrightarrow>
      r = Inr (fst (reserve_spec (live s (a, k)) h)) \<and>
      live s' = (live s)((a, k) := snd (reserve_spec (live s (a, k)) h)) \<and> inv s'"
    and reserve_held: "inv s \<Longrightarrow> live s (a, k) \<noteq> None \<Longrightarrow> ids_reserve store a k h s = (r, s') \<Longrightarrow> s' = s"
    and complete_law: "inv s \<Longrightarrow> 0 < retention \<Longrightarrow> ids_complete store a k h res cache retention s = (u, s') \<Longrightarrow>
      u = Inr () \<and> live s' = (live s)((a, k) := (if cache then Some (Completed h res) else None)) \<and> inv s'"
    and release_law: "inv s \<Longrightarrow> ids_release store a k s = (u, s') \<Longrightarrow>
      u = Inr () \<and> live s' = (live s)((a, k) := None) \<and> inv s'"
begin

lemma new_iff_free:
  assumes "inv s" and "ids_reserve store a k h s = (Inr r, s')"
  shows "rsv_outcome r = Outcome_NEW \<longleftrightarrow> live s (a, k) = None"
  using reserve_law[OF assms]
  by (cases "live s (a, k)" rule: option.exhaust; cases "the (live s (a, k))") (auto simp: reservation_def)

lemma reserved_excludes:
  assumes "inv s" and "ids_reserve store a k h s = (Inr r, s')" and "rsv_outcome r = Outcome_NEW"
    and "ids_reserve store a k h' s' = (x, s'')"
  shows "x = Inr (reservation (if h' = h then Outcome_IN_PROGRESS else Outcome_CONFLICT) None)"
proof -
  have "live s (a, k) = None" using new_iff_free[OF assms(1,2)] assms(3) by simp
  then have "live s' (a, k) = Some (In_Progress h)" "inv s'" using reserve_law[OF assms(1,2)] by simp_all
  then show ?thesis using reserve_law[OF _ assms(4)] by auto
qed

lemma complete_replays:
  assumes "inv s" and "0 < retention" and "ids_complete store a k h res True retention s = (u, s')"
    and "ids_reserve store a k h' s' = (x, s'')"
  shows "x = Inr (if h' = h then reservation Outcome_COMPLETED (Some res) else reservation Outcome_CONFLICT None)"
proof -
  have "live s' (a, k) = Some (Completed h res)" "inv s'" using complete_law[OF assms(1-3)] by simp_all
  then show ?thesis using reserve_law[OF _ assms(4)] by auto
qed

lemma release_frees:
  assumes "inv s" and "ids_release store a k s = (u, s')" and "ids_reserve store a k h s' = (x, s'')"
  shows "x = Inr (reservation Outcome_NEW None)"
proof -
  have "live s' (a, k) = None" "inv s'" using release_law[OF assms(1,2)] by simp_all
  then show ?thesis using reserve_law[OF _ assms(3)] by simp
qed

end

section \<open>The in-memory store meets the contract\<close>

text \<open>A clock that reads the time off the state.\<close>

definition reading_clock :: "('w \<Rightarrow> datetime) \<Rightarrow> 'w clock" where
  "reading_clock tm = \<lparr>ck_now = (\<lambda>w. (Inr (tm w), w))\<rparr>"

definition entry_of :: "str \<Rightarrow> inference_result option \<Rightarrow> entry" where
  "entry_of h res = (case res of None \<Rightarrow> In_Progress h | Some r \<Rightarrow> Completed h r)"

definition memory_inv :: "idempotency_records \<times> 'w \<Rightarrow> bool" where
  "memory_inv s \<longleftrightarrow> (\<forall>k r. fst s k = Some r \<longrightarrow> (idr_in_progress r \<longleftrightarrow> idr_result r = None))"

definition memory_live :: "('w \<Rightarrow> datetime) \<Rightarrow> idempotency_records \<times> 'w \<Rightarrow> idempotency_key \<Rightarrow> entry option" where
  "memory_live tm s k =
     (case fst s k of
        None \<Rightarrow> None
      | Some r \<Rightarrow> if tm (snd s) < idr_expires_at r then Some (entry_of (idr_request_hash r) (idr_result r)) else None)"

lemma store_now_reading [simp]: "store_now (reading_clock tm) s = (Inr (tm (snd s)), s)"
  by (simp add: store_now_def reading_clock_def io_run)

lemma memory_live_upd:
  "memory_live tm ((fst s)(k := x), snd s) = (memory_live tm s)(k :=
     (case x of None \<Rightarrow> None
      | Some r \<Rightarrow> if tm (snd s) < idr_expires_at r then Some (entry_of (idr_request_hash r) (idr_result r)) else None))"
  by (rule ext) (simp add: memory_live_def split: option.split)

lemma memory_inv_upd:
  "memory_inv s \<Longrightarrow> (case x of None \<Rightarrow> True | Some r \<Rightarrow> idr_in_progress r \<longleftrightarrow> idr_result r = None) \<Longrightarrow>
   memory_inv ((fst s)(k := x), snd s)"
  by (cases x) (simp_all add: memory_inv_def)

text \<open>The default of the class, 300 seconds.\<close>

definition default_stale :: int where
  "default_stale = seconds 300"

lemma memory_reserve_law:
  assumes "memory_inv s" and "0 < stale"
    and "memory_reserve (reading_clock tm) stale a k h s = (r, s')"
  shows "r = Inr (fst (reserve_spec (memory_live tm s (a, k)) h)) \<and>
    memory_live tm s' = (memory_live tm s)((a, k) := snd (reserve_spec (memory_live tm s (a, k)) h)) \<and>
    memory_inv s'"
proof (cases "memory_live tm s (a, k)")
  case None
  let ?rec = "\<lparr>idr_request_hash = h, idr_in_progress = True, idr_result = None, idr_expires_at = tm (snd s) + stale\<rparr>"
  have "r = Inr (reservation Outcome_NEW None) \<and> s' = ((fst s)((a, k) \<mapsto> ?rec), snd s)"
    using assms(3) None
    by (auto simp: memory_reserve_def io_run memory_live_def Let_def split: option.splits if_splits)
  then show ?thesis
    using None assms(1,2) by (simp add: memory_live_upd memory_inv_upd entry_of_def)
next
  case (Some e)
  then obtain rec where rec: "fst s (a, k) = Some rec" "tm (snd s) < idr_expires_at rec"
    "e = entry_of (idr_request_hash rec) (idr_result rec)"
    by (auto simp: memory_live_def split: option.splits if_splits)
  then have "s' = s" "r = Inr (if idr_request_hash rec \<noteq> h then reservation Outcome_CONFLICT None
      else if idr_in_progress rec then reservation Outcome_IN_PROGRESS None
      else reservation Outcome_COMPLETED (idr_result rec))"
    using assms(3) by (auto simp: memory_reserve_def io_run Let_def)
  moreover have "idr_in_progress rec \<longleftrightarrow> idr_result rec = None"
    using assms(1) rec(1) by (simp add: memory_inv_def)
  ultimately show ?thesis
    using Some rec assms(1) by (auto simp: entry_of_def fun_eq_iff split: option.splits)
qed

interpretation memory_store: idempotency_contract
  "in_memory_idempotency_store (reading_clock tm) default_stale" memory_inv "memory_live tm" for tm
proof
  fix a k h s r s'
  assume "memory_inv s" and "ids_reserve (in_memory_idempotency_store (reading_clock tm) default_stale) a k h s = (r, s')"
  then show "r = Inr (fst (reserve_spec (memory_live tm s (a, k)) h)) \<and>
      memory_live tm s' = (memory_live tm s)((a, k) := snd (reserve_spec (memory_live tm s (a, k)) h)) \<and>
      memory_inv s'"
    using memory_reserve_law[of s default_stale]
    by (simp add: in_memory_idempotency_store_def default_stale_def seconds_def)
next
  fix a k h s r s'
  assume "memory_live tm s (a, k) \<noteq> None"
    and "ids_reserve (in_memory_idempotency_store (reading_clock tm) default_stale) a k h s = (r, s')"
  then show "s' = s"
    by (auto simp: in_memory_idempotency_store_def memory_reserve_def io_run memory_live_def Let_def
        split: option.splits if_splits)
next
  fix a k h res cache retention s u s'
  assume "memory_inv s" "0 < retention"
    "ids_complete (in_memory_idempotency_store (reading_clock tm) default_stale) a k h res cache retention s = (u, s')"
  then show "u = Inr () \<and>
      memory_live tm s' = (memory_live tm s)((a, k) := (if cache then Some (Completed h res) else None)) \<and>
      memory_inv s'"
    by (cases cache) (auto simp: in_memory_idempotency_store_def memory_complete_def memory_release_def
        io_run memory_live_upd memory_inv_upd entry_of_def seconds_def)
next
  fix a k s u s'
  assume "memory_inv s"
    "ids_release (in_memory_idempotency_store (reading_clock tm) default_stale) a k s = (u, s')"
  then show "u = Inr () \<and> memory_live tm s' = (memory_live tm s)((a, k) := None) \<and> memory_inv s'"
    by (auto simp: in_memory_idempotency_store_def memory_release_def memory_live_upd memory_inv_upd)
qed

section \<open>The DynamoDB store meets the contract\<close>

text \<open>The documented behaviour of a table, as operations on a map.\<close>

definition map_table :: "(('k \<rightharpoonup> 'v) \<times> 'w, 'k, 'v) table_port" where
  "map_table =
     \<lparr>tb_put_if = (\<lambda>cond k v s. if cond (fst s k) then (Inr (), ((fst s)(k \<mapsto> v), snd s)) else (Inl condition_failed, s)),
      tb_put = (\<lambda>k v s. (Inr (), ((fst s)(k \<mapsto> v), snd s))),
      tb_get = (\<lambda>k s. (Inr (fst s k), s)),
      tb_delete = (\<lambda>k s. (Inr (), ((fst s)(k := None), snd s)))\<rparr>"

definition map_dynamo :: "('w \<Rightarrow> rat) \<Rightarrow> ((idempotency_key \<rightharpoonup> inference_result idempotency_item) \<times> 'w, inference_result) dynamo_idempotency" where
  "map_dynamo tm =
     \<lparr>dyn_table = map_table, dyn_stale_reservation_seconds = 300,
      dyn_clock_seconds = (\<lambda>s. (Inr (tm (snd s)), s)),
      dyn_dump_result = (\<lambda>r. r), dyn_validate_result = Inr\<rparr>"

definition dynamo_inv :: "(idempotency_key \<rightharpoonup> inference_result idempotency_item) \<times> 'w \<Rightarrow> bool" where
  "dynamo_inv s \<longleftrightarrow> (\<forall>k i. fst s k = Some i \<longrightarrow> (idi_status i = status_in_progress \<longleftrightarrow> idi_result i = None))"

definition dynamo_live ::
  "('w \<Rightarrow> rat) \<Rightarrow> (idempotency_key \<rightharpoonup> inference_result idempotency_item) \<times> 'w \<Rightarrow> idempotency_key \<Rightarrow> entry option" where
  "dynamo_live tm s k =
     (case fst s k of
        None \<Rightarrow> None
      | Some i \<Rightarrow> if int_trunc (tm (snd s)) \<le> idi_expires_at i
                  then Some (entry_of (idi_request_hash i) (idi_result i)) else None)"

lemma map_dynamo_simps [simp]:
  "dyn_table (map_dynamo tm) = map_table"
  "dyn_stale_reservation_seconds (map_dynamo tm) = 300"
  "dyn_clock_seconds (map_dynamo tm) s = (Inr (tm (snd s)), s)"
  "dyn_dump_result (map_dynamo tm) r = r" "dyn_validate_result (map_dynamo tm) = Inr"
  by (simp_all add: map_dynamo_def)

lemma dynamo_live_upd:
  "dynamo_live tm ((fst s)(k := x), snd s) = (dynamo_live tm s)(k :=
     (case x of None \<Rightarrow> None
      | Some i \<Rightarrow> if int_trunc (tm (snd s)) \<le> idi_expires_at i
                  then Some (entry_of (idi_request_hash i) (idi_result i)) else None))"
  by (rule ext) (simp add: dynamo_live_def split: option.split)

lemma dynamo_inv_upd:
  "dynamo_inv s \<Longrightarrow>
   (case x of None \<Rightarrow> True | Some i \<Rightarrow> idi_status i = status_in_progress \<longleftrightarrow> idi_result i = None) \<Longrightarrow>
   dynamo_inv ((fst s)(k := x), snd s)"
  by (cases x) (simp_all add: dynamo_inv_def)

lemma dynamo_try_reserve_map:
  "dynamo_try_reserve (map_dynamo tm) a k h s =
     (case fst s (a, k) of
        Some i \<Rightarrow>
          if int_trunc (tm (snd s)) \<le> idi_expires_at i
          then (map_sum id Some (existing_reservation (map_dynamo tm) h i), s)
          else (Inr (Some (reservation Outcome_NEW None)), ((fst s)((a, k) \<mapsto>
            \<lparr>idi_request_hash = h, idi_status = status_in_progress, idi_result = None,
             idi_expires_at = int_trunc (tm (snd s)) + 300\<rparr>), snd s))
      | None \<Rightarrow> (Inr (Some (reservation Outcome_NEW None)), ((fst s)((a, k) \<mapsto>
            \<lparr>idi_request_hash = h, idi_status = status_in_progress, idi_result = None,
             idi_expires_at = int_trunc (tm (snd s)) + 300\<rparr>), snd s)))"
  by (auto simp: dynamo_try_reserve_def io_run map_table_def reservable_def Let_def
      split: option.splits sum.splits)

lemma dynamo_reserve_law:
  assumes "dynamo_inv s" and "dynamo_reserve (map_dynamo tm) a k h s = (r, s')"
  shows "r = Inr (fst (reserve_spec (dynamo_live tm s (a, k)) h)) \<and>
    dynamo_live tm s' = (dynamo_live tm s)((a, k) := snd (reserve_spec (dynamo_live tm s (a, k)) h)) \<and>
    dynamo_inv s'"
proof (cases "dynamo_live tm s (a, k)")
  case None
  let ?item = "\<lparr>idi_request_hash = h, idi_status = status_in_progress, idi_result = None,
     idi_expires_at = int_trunc (tm (snd s)) + 300\<rparr> :: inference_result idempotency_item"
  have "dynamo_try_reserve (map_dynamo tm) a k h s =
      (Inr (Some (reservation Outcome_NEW None)), ((fst s)((a, k) \<mapsto> ?item), snd s))"
    using None by (auto simp: dynamo_try_reserve_map dynamo_live_def split: option.splits if_splits)
  then have "r = Inr (reservation Outcome_NEW None)" "s' = ((fst s)((a, k) \<mapsto> ?item), snd s)"
    using assms(2) by (auto simp: dynamo_reserve_def max_reserve_attempts_def numeral_2_eq_2 io_run)
  then show ?thesis
    using None assms(1) by (simp add: dynamo_live_upd dynamo_inv_upd entry_of_def)
next
  case (Some e)
  then obtain i where i: "fst s (a, k) = Some i" "int_trunc (tm (snd s)) \<le> idi_expires_at i"
    "e = entry_of (idi_request_hash i) (idi_result i)"
    by (auto simp: dynamo_live_def split: option.splits if_splits)
  have st: "idi_status i = status_in_progress \<longleftrightarrow> idi_result i = None"
    using assms(1) i(1) by (simp add: dynamo_inv_def)
  then have "existing_reservation (map_dynamo tm) h i = Inr (fst (reserve_spec (Some e) h))"
    using i(3) by (auto simp: existing_reservation_def entry_of_def split: option.splits)
  then have "dynamo_try_reserve (map_dynamo tm) a k h s = (Inr (Some (fst (reserve_spec (Some e) h))), s)"
    using i(1,2) by (simp add: dynamo_try_reserve_map)
  then have "r = Inr (fst (reserve_spec (Some e) h))" "s' = s"
    using assms(2) by (auto simp: dynamo_reserve_def max_reserve_attempts_def numeral_2_eq_2 io_run)
  moreover have "snd (reserve_spec (Some e) h) = Some e" by (cases e) simp_all
  ultimately show ?thesis using Some assms(1) by (simp add: fun_eq_iff)
qed

lemma dynamo_reserve_held:
  assumes "dynamo_inv s" and "dynamo_live tm s (a, k) \<noteq> None" and "dynamo_reserve (map_dynamo tm) a k h s = (r, s')"
  shows "s' = s"
proof -
  obtain i where i: "fst s (a, k) = Some i" "int_trunc (tm (snd s)) \<le> idi_expires_at i"
    using assms(2) by (auto simp: dynamo_live_def split: option.splits if_splits)
  have "idi_status i = status_in_progress \<longleftrightarrow> idi_result i = None"
    using assms(1) i(1) by (simp add: dynamo_inv_def)
  then have "\<exists>x. existing_reservation (map_dynamo tm) h i = Inr x"
    by (cases "idi_result i") (simp_all add: existing_reservation_def)
  then obtain x where "existing_reservation (map_dynamo tm) h i = Inr x" by (rule exE)
  then have "dynamo_try_reserve (map_dynamo tm) a k h s = (Inr (Some x), s)"
    using i by (simp add: dynamo_try_reserve_map)
  then show ?thesis
    using assms(3) by (auto simp: dynamo_reserve_def max_reserve_attempts_def numeral_2_eq_2 io_run)
qed

interpretation dynamo_store: idempotency_contract
  "dynamo_idempotency_store (map_dynamo tm)" dynamo_inv "dynamo_live tm" for tm
proof
  fix a k h s r s'
  assume "dynamo_inv s" and "ids_reserve (dynamo_idempotency_store (map_dynamo tm)) a k h s = (r, s')"
  then show "r = Inr (fst (reserve_spec (dynamo_live tm s (a, k)) h)) \<and>
      dynamo_live tm s' = (dynamo_live tm s)((a, k) := snd (reserve_spec (dynamo_live tm s (a, k)) h)) \<and>
      dynamo_inv s'"
    using dynamo_reserve_law by (simp add: dynamo_idempotency_store_def)
next
  fix a k h s r s'
  assume inv: "dynamo_inv s" and "dynamo_live tm s (a, k) \<noteq> None"
    and "ids_reserve (dynamo_idempotency_store (map_dynamo tm)) a k h s = (r, s')"
  then show "s' = s"
    using dynamo_reserve_held by (simp add: dynamo_idempotency_store_def)
next
  fix a k h res cache retention s u s'
  assume "dynamo_inv s" "0 < retention"
    "ids_complete (dynamo_idempotency_store (map_dynamo tm)) a k h res cache retention s = (u, s')"
  then show "u = Inr () \<and>
      dynamo_live tm s' = (dynamo_live tm s)((a, k) := (if cache then Some (Completed h res) else None)) \<and>
      dynamo_inv s'"
    by (cases cache) (auto simp: dynamo_idempotency_store_def dynamo_complete_def dynamo_release_def
        io_run map_table_def dynamo_live_upd dynamo_inv_upd entry_of_def status_in_progress_def status_completed_def)
next
  fix a k s u s'
  assume "dynamo_inv s" "ids_release (dynamo_idempotency_store (map_dynamo tm)) a k s = (u, s')"
  then show "u = Inr () \<and> dynamo_live tm s' = (dynamo_live tm s)((a, k) := None) \<and> dynamo_inv s'"
    by (auto simp: dynamo_idempotency_store_def dynamo_release_def map_table_def dynamo_live_upd dynamo_inv_upd)
qed

section \<open>Properties\<close>

text \<open>
  C12. The in-memory store refines the abstract store: what every operation returns and leaves is
  what the specification says of the entries that have not expired, and a key never affects
  another.
\<close>

theorem memory_store_refines:
  assumes "memory_inv s" and "0 < retention"
    and "memory_reserve (reading_clock tm) default_stale a k h s = (r, s1)"
    and "memory_complete (reading_clock tm) a k h res cache retention s = (u, s2)"
    and "memory_release a k s = (v, s3)"
  shows "r = Inr (fst (reserve_spec (memory_live tm s (a, k)) h)) \<and>
      memory_live tm s1 = (memory_live tm s)((a, k) := snd (reserve_spec (memory_live tm s (a, k)) h)) \<and>
      u = Inr () \<and>
      memory_live tm s2 = (memory_live tm s)((a, k) := (if cache then Some (Completed h res) else None)) \<and>
      v = Inr () \<and> memory_live tm s3 = (memory_live tm s)((a, k) := None) \<and>
      memory_inv s1 \<and> memory_inv s2 \<and> memory_inv s3"
  using memory_store.reserve_law[OF assms(1), of tm a k h r s1]
    memory_store.complete_law[OF assms(1,2), of tm a k h res cache u s2]
    memory_store.release_law[OF assms(1), of tm a k v s3] assms(3-5)
  by (simp add: in_memory_idempotency_store_def)

definition some_result :: inference_result where
  "some_result =
     \<lparr>res_decision =
        \<lparr>dec_decision_id = ''dec_1'', dec_application_id = ''app'', dec_created_at = 0, dec_policy_id = ''p'',
         dec_policy_version = 1, dec_capability = ''c'', dec_selected_model_alias = None, dec_provider = None,
         dec_fallback_used = False, dec_reason_codes = [NO_ELIGIBLE_MODEL], dec_considered_candidates = [],
         dec_estimated_usage = None, dec_estimated_cost = None\<rparr>,
      res_response = None, res_invocation_attempts = []\<rparr>"

theorem memory_store_refines_witness:
  "\<exists>s1. memory_reserve (reading_clock id) default_stale ''app'' ''k'' ''h'' (Map.empty, 0) =
      (Inr (reservation Outcome_NEW None), s1) \<and>
     memory_live id s1 (''app'', ''k'') = Some (In_Progress ''h'')"
proof -
  obtain r s1 where r: "memory_reserve (reading_clock id) default_stale ''app'' ''k'' ''h'' (Map.empty, 0) = (r, s1)"
    by (rule prod.exhaust)
  obtain u s2 where u: "memory_complete (reading_clock id) ''app'' ''k'' ''h'' some_result True 300 (Map.empty, 0) = (u, s2)"
    by (rule prod.exhaust)
  obtain v s3 where v: "memory_release ''app'' ''k'' (Map.empty, 0 :: datetime) = (v, s3)" by (rule prod.exhaust)
  have inv: "memory_inv (Map.empty, 0 :: datetime)" by (simp add: memory_inv_def)
  have "memory_live id (Map.empty, 0) (''app'', ''k'') = None" by (simp add: memory_live_def)
  then show ?thesis using memory_store_refines[OF inv _ r u v] r by auto
qed



text \<open>
  The stores disagree at the very moment of expiry: at the time a reservation expires the
  in-memory store grants the key anew, the DynamoDB store still reports it as in progress.
\<close>

theorem expiry_boundary_differs:
  "fst (memory_reserve (reading_clock id) default_stale a k h
      ([(a, k) \<mapsto> \<lparr>idr_request_hash = h, idr_in_progress = True, idr_result = None, idr_expires_at = seconds 300\<rparr>],
       seconds 300)) = Inr (reservation Outcome_NEW None) \<and>
   fst (dynamo_reserve (map_dynamo id) a k h
      ([(a, k) \<mapsto> \<lparr>idi_request_hash = h, idi_status = status_in_progress, idi_result = None, idi_expires_at = 300\<rparr>],
       300)) = Inr (reservation Outcome_IN_PROGRESS None)"
  by (simp add: memory_reserve_def io_run seconds_def dynamo_reserve_def max_reserve_attempts_def
      numeral_2_eq_2 dynamo_try_reserve_map existing_reservation_def int_trunc_def)

section \<open>Interleavings\<close>

text \<open>
  Several requests share the in-memory store.  A request that was granted a key is active until
  it completes or releases; \<open>sys_active\<close> keeps its key, its hash and when it was granted.
\<close>

record idempotency_system =
  sys_records :: idempotency_records
  sys_now :: datetime
  sys_active :: "nat \<rightharpoonup> idempotency_key \<times> str \<times> datetime"

abbreviation sys_store :: "idempotency_system \<Rightarrow> idempotency_records \<times> datetime" where
  "sys_store y \<equiv> (sys_records y, sys_now y)"

inductive idempotency_step :: "int \<Rightarrow> idempotency_system \<Rightarrow> idempotency_system \<Rightarrow> bool" for stale where
  tick: "0 \<le> dt \<Longrightarrow> idempotency_step stale y (y\<lparr>sys_now := sys_now y + dt\<rparr>)"
| granted: "sys_active y c = None \<Longrightarrow>
     memory_reserve (reading_clock id) stale a k h (sys_store y) = (Inr r, (recs, t)) \<Longrightarrow>
     rsv_outcome r = Outcome_NEW \<Longrightarrow>
     idempotency_step stale y (y\<lparr>sys_records := recs, sys_active := (sys_active y)(c \<mapsto> ((a, k), h, sys_now y))\<rparr>)"
| refused: "memory_reserve (reading_clock id) stale a k h (sys_store y) = (Inr r, (recs, t)) \<Longrightarrow>
     rsv_outcome r \<noteq> Outcome_NEW \<Longrightarrow>
     idempotency_step stale y (y\<lparr>sys_records := recs\<rparr>)"
| completed: "sys_active y c = Some ((a, k), h, t) \<Longrightarrow>
     memory_complete (reading_clock id) a k h res cache retention (sys_store y) = (Inr (), (recs, t')) \<Longrightarrow>
     idempotency_step stale y (y\<lparr>sys_records := recs, sys_active := (sys_active y)(c := None)\<rparr>)"
| released: "sys_active y c = Some ((a, k), h, t) \<Longrightarrow>
     memory_release a k (sys_store y) = (Inr (), (recs, t')) \<Longrightarrow>
     idempotency_step stale y (y\<lparr>sys_records := recs, sys_active := (sys_active y)(c := None)\<rparr>)"

inductive_cases idempotency_stepE: "idempotency_step stale y y'"

text \<open>A state in which no active request has outlived its reservation.\<close>

definition timely :: "int \<Rightarrow> idempotency_system \<Rightarrow> bool" where
  "timely stale y \<longleftrightarrow> (\<forall>c k h t. sys_active y c = Some (k, h, t) \<longrightarrow> sys_now y < t + stale)"

definition idle_system :: idempotency_system where
  "idle_system = \<lparr>sys_records = Map.empty, sys_now = 0, sys_active = Map.empty\<rparr>"

inductive timely_reachable :: "int \<Rightarrow> idempotency_system \<Rightarrow> bool" for stale where
  start: "timely_reachable stale idle_system"
| step: "timely_reachable stale y \<Longrightarrow> idempotency_step stale y y' \<Longrightarrow> timely stale y' \<Longrightarrow>
     timely_reachable stale y'"

text \<open>Every active request still holds its own record, and no two hold the same key.\<close>

definition exclusion_inv :: "int \<Rightarrow> idempotency_system \<Rightarrow> bool" where
  "exclusion_inv stale y \<longleftrightarrow>
     (\<forall>c k h t. sys_active y c = Some (k, h, t) \<longrightarrow>
        sys_records y k = Some \<lparr>idr_request_hash = h, idr_in_progress = True, idr_result = None,
          idr_expires_at = t + stale\<rparr>) \<and>
     (\<forall>c d k h t h' t'. sys_active y c = Some (k, h, t) \<longrightarrow> sys_active y d = Some (k, h', t') \<longrightarrow> c = d)"

lemma exclusion_held:
  "exclusion_inv stale y \<Longrightarrow> sys_active y c = Some (k, h, t) \<Longrightarrow>
   sys_records y k = Some \<lparr>idr_request_hash = h, idr_in_progress = True, idr_result = None,
     idr_expires_at = t + stale\<rparr>"
  unfolding exclusion_inv_def by blast

lemma exclusion_unique:
  "exclusion_inv stale y \<Longrightarrow> sys_active y c = Some (k, h, t) \<Longrightarrow> sys_active y d = Some (k, h', t') \<Longrightarrow> c = d"
  unfolding exclusion_inv_def by blast

lemma memory_reserve_new:
  assumes "memory_reserve (reading_clock id) stale a k h (recs, now) = (Inr r, (recs', t))"
    and "rsv_outcome r = Outcome_NEW"
  shows "recs' = recs((a, k) \<mapsto> \<lparr>idr_request_hash = h, idr_in_progress = True, idr_result = None,
      idr_expires_at = now + stale\<rparr>) \<and>
    (\<forall>x. recs (a, k) = Some x \<longrightarrow> idr_expires_at x \<le> now)"
  using assms by (auto simp: memory_reserve_def io_run Let_def reservation_def split: option.splits if_splits)

lemma memory_reserve_refused:
  assumes "memory_reserve (reading_clock id) stale a k h (recs, now) = (Inr r, (recs', t))"
    and "rsv_outcome r \<noteq> Outcome_NEW"
  shows "recs' = recs"
  using assms by (auto simp: memory_reserve_def io_run Let_def reservation_def split: option.splits if_splits)

lemma exclusion_finish:
  assumes "exclusion_inv stale y" and "sys_active y c = Some (k, h, t)" and "\<And>j. j \<noteq> k \<Longrightarrow> recs j = sys_records y j"
  shows "exclusion_inv stale (y\<lparr>sys_records := recs, sys_active := (sys_active y)(c := None)\<rparr>)"
proof -
  have "j \<noteq> k" if "sys_active y d = Some (j, h', t')" "d \<noteq> c" for d j h' t'
    using assms(1,2) that unfolding exclusion_inv_def by blast
  then show ?thesis
    using assms(1,3) unfolding exclusion_inv_def by (auto split: if_splits)
qed

lemma exclusion_grant:
  assumes "exclusion_inv stale y" and "\<And>d j h' t'. sys_active y d = Some (j, h', t') \<Longrightarrow> j \<noteq> k"
    and "recs = (sys_records y)(k \<mapsto> \<lparr>idr_request_hash = h, idr_in_progress = True, idr_result = None,
      idr_expires_at = sys_now y + stale\<rparr>)"
  shows "exclusion_inv stale (y\<lparr>sys_records := recs, sys_active := (sys_active y)(c \<mapsto> (k, h, sys_now y))\<rparr>)"
    (is "exclusion_inv stale ?y")
proof -
  have "sys_records ?y j = Some \<lparr>idr_request_hash = h', idr_in_progress = True, idr_result = None,
      idr_expires_at = t' + stale\<rparr>" if act: "sys_active ?y d = Some (j, h', t')" for d j h' t'
  proof (cases "d = c")
    case True
    then show ?thesis using act assms(3) by simp
  next
    case False
    then have "sys_active y d = Some (j, h', t')" using act by simp
    then show ?thesis using exclusion_held[OF assms(1)] assms(2)[of d j h' t'] assms(3) by simp
  qed
  moreover have "d = e" if "sys_active ?y d = Some (j, h', t')" "sys_active ?y e = Some (j, h'', t'')"
    for d e j h' t' h'' t''
    using that assms(2)[of d] assms(2)[of e] exclusion_unique[OF assms(1)]
    by (cases "d = c"; cases "e = c") auto
  ultimately show ?thesis unfolding exclusion_inv_def by blast
qed

lemma exclusion_step:
  assumes inv: "exclusion_inv stale y" and "timely stale y" and "idempotency_step stale y y'"
  shows "exclusion_inv stale y'"
  using assms(3)
proof cases
  case (tick dt)
  then show ?thesis using inv by (simp add: exclusion_inv_def)
next
  case (granted c a k h r recs t)
  note new = memory_reserve_new[OF granted(3,4)]
  have "j \<noteq> (a, k)" if "sys_active y d = Some (j, h', t')" for d j h' t'
  proof
    assume j: "j = (a, k)"
    then have "sys_records y (a, k) = Some \<lparr>idr_request_hash = h', idr_in_progress = True,
        idr_result = None, idr_expires_at = t' + stale\<rparr>"
      using exclusion_held[OF inv that] by simp
    then have "t' + stale \<le> sys_now y" using new by simp
    moreover have "sys_now y < t' + stale" using assms(2) that unfolding timely_def by blast
    ultimately show False by simp
  qed
  then show ?thesis
    unfolding granted(1) using exclusion_grant[OF inv] new by blast
next
  case (refused a k h r recs t)
  then show ?thesis using inv memory_reserve_refused[OF refused(2,3)] by simp
next
  case (completed c a k h t res cache retention recs t')
  have "recs j = sys_records y j" if "j \<noteq> (a, k)" for j
    using completed(3) that
    by (cases cache) (auto simp: memory_complete_def memory_release_def io_run)
  then show ?thesis using exclusion_finish[OF inv completed(2)] completed(1) by blast
next
  case (released c a k h t recs t')
  have "recs j = sys_records y j" if "j \<noteq> (a, k)" for j
    using released(3) that by (auto simp: memory_release_def)
  then show ?thesis using exclusion_finish[OF inv released(2)] released(1) by blast
qed

lemma timely_reachable_inv: "timely_reachable stale y \<Longrightarrow> exclusion_inv stale y \<and> timely stale y"
proof (induction rule: timely_reachable.induct)
  case start
  show ?case by (simp add: exclusion_inv_def idle_system_def timely_def)
next
  case (step y y')
  then show ?case using exclusion_step by blast
qed

text \<open>
  C10. Mutual exclusion: whatever the interleaving of reservations, completions, releases and
  the passing of time, as long as every active request ends before its reservation expires, no two
  requests that were told to run hold the same key of the same application.
\<close>

theorem timely_requests_exclude:
  assumes "timely_reachable stale y"
    and "sys_active y c = Some (key, h, t)" and "sys_active y d = Some (key, h', t')"
  shows "c = d"
  using timely_reachable_inv[OF assms(1)] exclusion_unique[OF _ assms(2,3)] by blast

definition held_record :: "str \<Rightarrow> datetime \<Rightarrow> idempotency_record" where
  "held_record h expires =
     \<lparr>idr_request_hash = h, idr_in_progress = True, idr_result = None, idr_expires_at = expires\<rparr>"

lemma memory_reserve_expired:
  "(\<And>x. recs (a, k) = Some x \<Longrightarrow> idr_expires_at x \<le> now) \<Longrightarrow>
   memory_reserve (reading_clock id) stale a k h (recs, now) =
     (Inr (reservation Outcome_NEW None), (recs((a, k) \<mapsto> held_record h (now + stale)), now))"
  by (auto simp: memory_reserve_def io_run Let_def held_record_def split: option.split) 

lemma granted_step:
  assumes "sys_active y c = None" and "\<And>x. sys_records y (a, k) = Some x \<Longrightarrow> idr_expires_at x \<le> sys_now y"
    and "y' = y\<lparr>sys_records := (sys_records y)((a, k) \<mapsto> held_record h (sys_now y + stale)),
                 sys_active := (sys_active y)(c \<mapsto> ((a, k), h, sys_now y))\<rparr>"
  shows "idempotency_step stale y y'"
  unfolding assms(3)
  by (rule idempotency_step.granted[OF assms(1) memory_reserve_expired[OF assms(2)]])
    (simp_all add: reservation_def)

lemma released_step:
  assumes "sys_active y c = Some ((a, k), h, t)"
    and "y' = y\<lparr>sys_records := (sys_records y)((a, k) := None), sys_active := (sys_active y)(c := None)\<rparr>"
  shows "idempotency_step stale y y'"
  unfolding assms(2) by (rule idempotency_step.released[OF assms(1)]) (simp add: memory_release_def)

definition one_holder :: idempotency_system where
  "one_holder = \<lparr>sys_records = [(''app'', ''k'') \<mapsto> held_record ''h'' default_stale], sys_now = 0,
     sys_active = [0 \<mapsto> ((''app'', ''k''), ''h'', 0)]\<rparr>"

theorem timely_requests_exclude_witness:
  "timely_reachable default_stale one_holder \<and>
   {c. \<exists>h t. sys_active one_holder c = Some ((''app'', ''k''), h, t)} = {0}"
proof -
  have "idempotency_step default_stale idle_system one_holder"
    by (rule granted_step[where c = 0 and a = "''app''" and k = "''k''" and h = "''h''"])
      (simp_all add: idle_system_def one_holder_def)
  moreover have "timely default_stale one_holder"
    by (auto simp: timely_def one_holder_def default_stale_def seconds_def split: if_splits)
  ultimately have "timely_reachable default_stale one_holder"
    by (rule timely_reachable.step[OF timely_reachable.start])
  moreover have "sys_active one_holder 0 = Some ((''app'', ''k''), ''h'', 0)" by (simp add: one_holder_def)
  ultimately show ?thesis using timely_requests_exclude[of default_stale one_holder] by blast
qed

text \<open>
  The condition on time is needed, and one late request breaks the exclusion of others: when
  the request \<open>0\<close> outlives its reservation, the request \<open>1\<close> is granted the key; the late release
  of \<open>0\<close> then removes the record of \<open>1\<close>, because \<open>release\<close> checks no ownership, and the request \<open>2\<close>
  is granted the key while the reservation of \<open>1\<close> has not expired.
\<close>

theorem late_release_breaks_exclusion:
  "\<exists>y. (idempotency_step default_stale)\<^sup>*\<^sup>* idle_system y \<and>
     sys_active y = [1 \<mapsto> (key, h, default_stale), 2 \<mapsto> (key, h, default_stale)] \<and>
     timely default_stale y"
proof (intro exI conjI)
  obtain a k where key: "key = (a, k)" by (rule prod.exhaust)
  let ?late = "held_record h default_stale" and ?second = "held_record h (default_stale + default_stale)"
  let ?y1 = "\<lparr>sys_records = [key \<mapsto> ?late], sys_now = 0, sys_active = [0 \<mapsto> (key, h, 0)]\<rparr>"
  let ?y2 = "?y1\<lparr>sys_now := default_stale\<rparr>"
  let ?y3 = "?y2\<lparr>sys_records := [key \<mapsto> ?second],
     sys_active := [0 \<mapsto> (key, h, 0), 1 \<mapsto> (key, h, default_stale)]\<rparr>"
  let ?y4 = "?y3\<lparr>sys_records := Map.empty, sys_active := [1 \<mapsto> (key, h, default_stale)]\<rparr>"
  let ?y = "?y4\<lparr>sys_records := [key \<mapsto> ?second],
     sys_active := [1 \<mapsto> (key, h, default_stale), 2 \<mapsto> (key, h, default_stale)]\<rparr>"
  have "idempotency_step default_stale idle_system ?y1"
    by (rule granted_step[where c = 0 and a = a and k = k and h = h]) (simp_all add: idle_system_def key)
  moreover have "idempotency_step default_stale ?y1 ?y2"
    using idempotency_step.tick[of default_stale default_stale ?y1] by (simp add: default_stale_def seconds_def)
  moreover have "idempotency_step default_stale ?y2 ?y3"
    by (rule granted_step[where c = 1 and a = a and k = k and h = h]) (simp_all add: key held_record_def)
  moreover have "idempotency_step default_stale ?y3 ?y4"
    by (rule released_step[where c = 0 and a = a and k = k and h = h and t = 0])
      (simp_all add: key fun_eq_iff)
  moreover have "idempotency_step default_stale ?y4 ?y"
    by (rule granted_step[where c = 2 and a = a and k = k and h = h]) (simp_all add: key)
  ultimately show "(idempotency_step default_stale)\<^sup>*\<^sup>* idle_system ?y"
    by (meson converse_rtranclp_into_rtranclp rtranclp.rtrancl_refl)
  show "sys_active ?y = [1 \<mapsto> (key, h, default_stale), 2 \<mapsto> (key, h, default_stale)]" by simp
  show "timely default_stale ?y"
    by (auto simp: timely_def default_stale_def seconds_def split: if_splits)
qed

end
