(* ===== verification/Decision_Store.thy ===== *)
theory Decision_Store
  imports Idempotency_Store Invocation_Results
begin

text \<open>
  The audit trail: \<open>src/adapters/memory/in_memory_decision_repository.py\<close> and
  \<open>src/adapters/dynamodb/dynamodb_decision_repository.py\<close>.  Both keep the contract of a map from
  decision identifiers to records; every invocation that returns has left its record there.
\<close>

section \<open>The in-memory repository\<close>

type_synonym decision_records = "str \<rightharpoonup> audit_record"

definition memory_save :: "audit_record \<Rightarrow> (decision_records \<times> 'w, unit) op" where
  "memory_save rec =
     (\<lambda>s. (Inr (), ((fst s)(dec_decision_id (aud_decision rec) \<mapsto> rec), snd s)))"

definition memory_get :: "str \<Rightarrow> (decision_records \<times> 'w, audit_record option) op" where
  "memory_get decision_id = (\<lambda>s. (Inr (fst s decision_id), s))"

definition in_memory_decision_repository :: "(decision_records \<times> 'w) routing_decision_repository" where
  "in_memory_decision_repository = \<lparr>rd_save = memory_save, rd_get = memory_get\<rparr>"

section \<open>The DynamoDB repository\<close>

record 'j decision_item =
  dci_application_id :: str
  dci_record :: 'j
  dci_expires_at :: int

definition default_retention_seconds :: int where
  "default_retention_seconds = 30 * 24 * 60 * 60"

record ('s, 'j) dynamo_decisions =
  ddc_table :: "('s, str, 'j decision_item) table_port"
  ddc_retention_seconds :: int
  ddc_clock_seconds :: "('s, rat) op"
  ddc_dump_record :: "audit_record \<Rightarrow> 'j"
  ddc_validate_record :: "'j \<Rightarrow> audit_record result"

definition dynamo_save :: "('s, 'j) dynamo_decisions \<Rightarrow> audit_record \<Rightarrow> ('s, unit) op" where
  "dynamo_save cfg rec =
     bind_io (ddc_clock_seconds cfg) (\<lambda>t.
       tb_put (ddc_table cfg) (dec_decision_id (aud_decision rec))
         \<lparr>dci_application_id = dec_application_id (aud_decision rec),
          dci_record = ddc_dump_record cfg rec,
          dci_expires_at = int_trunc t + ddc_retention_seconds cfg\<rparr>)"

definition dynamo_get :: "('s, 'j) dynamo_decisions \<Rightarrow> str \<Rightarrow> ('s, audit_record option) op" where
  "dynamo_get cfg decision_id =
     bind_io (tb_get (ddc_table cfg) decision_id) (\<lambda>item.
       case item of
         None \<Rightarrow> return_io None
       | Some i \<Rightarrow> bind_io (lift_r (ddc_validate_record cfg (dci_record i))) (\<lambda>r. return_io (Some r)))"

definition dynamo_decision_repository :: "('s, 'j) dynamo_decisions \<Rightarrow> 's routing_decision_repository" where
  "dynamo_decision_repository cfg = \<lparr>rd_save = dynamo_save cfg, rd_get = dynamo_get cfg\<rparr>"

section \<open>The contract\<close>

locale decision_contract =
  fixes repo :: "'s routing_decision_repository" and lookup :: "'s \<Rightarrow> decision_records"
  assumes save_law: "rd_save repo rec s = (u, s') \<Longrightarrow>
      u = Inr () \<and> lookup s' = (lookup s)(dec_decision_id (aud_decision rec) \<mapsto> rec)"
    and get_law: "rd_get repo i s = (Inr (lookup s i), s)"
begin

lemma save_then_get:
  "rd_save repo rec s = (u, s') \<Longrightarrow> rd_get repo (dec_decision_id (aud_decision rec)) s' = (Inr (Some rec), s')"
  using save_law[of rec s u s'] by (simp add: get_law)

lemma save_keeps_others:
  "rd_save repo rec s = (u, s') \<Longrightarrow> i \<noteq> dec_decision_id (aud_decision rec) \<Longrightarrow>
   fst (rd_get repo i s') = fst (rd_get repo i s)"
  using save_law[of rec s u s'] by (simp add: get_law)

text \<open>
  An invocation persists last but for the metrics and the event; where these leave the records
  alone, the record of the result can be read back.
\<close>

lemma finish_auditable:
  assumes run: "finish orc r s = (Inr r', s')"
    and repo: "orc_decision_repository orc = Some repo"
    and mx: "\<And>mx x t. orc_metrics_publisher orc = Some mx \<Longrightarrow> preserves_io (\<lambda>s. lookup s = t) (mx_publish mx x)"
    and ev: "\<And>dp x t. orc_decision_event_publisher orc = Some dp \<Longrightarrow> preserves_io (\<lambda>s. lookup s = t) (dp_publish dp x)"
  shows "rd_get repo (dec_decision_id (res_decision r')) s' =
    (Inr (Some \<lparr>aud_decision = res_decision r', aud_invocation_attempts = res_invocation_attempts r'\<rparr>), s')"
proof -
  have r: "r' = r" using run by (rule finish_Inr)
  let ?rec = "\<lparr>aud_decision = res_decision r, aud_invocation_attempts = res_invocation_attempts r\<rparr>"
  obtain u1 s1 u2 s2 u3 where st: "rd_save repo ?rec s = (Inr u1, s1)"
    "publish_metrics orc r s1 = (Inr u2, s2)" "publish_decision_event orc r s2 = (Inr u3, s')"
    using run by (auto simp: finish_def persist_def repo io_inv run_when_some)
  have s1: "lookup s1 = (lookup s)(dec_decision_id (res_decision r) \<mapsto> ?rec)" (is "_ = ?t")
    using save_law[OF st(1)] by simp
  have "preserves_io (\<lambda>s. lookup s = ?t) (publish_metrics orc r)"
    unfolding publish_metrics_def by (rule preserves_when_some) (rule mx)
  then have s2: "lookup s2 = ?t" using s1 st(2) by (rule preserves_ioD)
  have "preserves_io (\<lambda>s. lookup s = ?t) (publish_decision_event orc r)"
    unfolding publish_decision_event_def by (rule preserves_when_some) (rule ev)
  then have "lookup s' = ?t" using s2 st(3) by (rule preserves_ioD)
  then show ?thesis by (simp add: get_law r)
qed

lemma invoke_auditable:
  assumes run: "invoke_uncached orc request s = (Inr r, s')"
    and repo: "orc_decision_repository orc = Some repo"
    and mx: "\<And>mx x t. orc_metrics_publisher orc = Some mx \<Longrightarrow> preserves_io (\<lambda>s. lookup s = t) (mx_publish mx x)"
    and ev: "\<And>dp x t. orc_decision_event_publisher orc = Some dp \<Longrightarrow> preserves_io (\<lambda>s. lookup s = t) (dp_publish dp x)"
  shows "rd_get repo (dec_decision_id (res_decision r)) s' =
    (Inr (Some \<lparr>aud_decision = res_decision r, aud_invocation_attempts = res_invocation_attempts r\<rparr>), s')"
  using run
proof (cases rule: invoke_uncached_cases)
  case (no_chain d s1 p s2)
  show ?thesis by (rule finish_auditable[OF no_chain(5) repo]) (fact mx, fact ev)
next
  case (chain d s1 p s2 prg s3 f)
  show ?thesis by (rule finish_auditable[OF chain(7) repo]) (fact mx, fact ev)
qed

end

interpretation memory_decisions: decision_contract in_memory_decision_repository fst
  by unfold_locales (auto simp: in_memory_decision_repository_def memory_save_def memory_get_def)

definition map_decisions :: "('w \<Rightarrow> rat) \<Rightarrow> ((str \<rightharpoonup> audit_record decision_item) \<times> 'w, audit_record) dynamo_decisions" where
  "map_decisions tm =
     \<lparr>ddc_table = map_table, ddc_retention_seconds = default_retention_seconds,
      ddc_clock_seconds = (\<lambda>s. (Inr (tm (snd s)), s)),
      ddc_dump_record = (\<lambda>r. r), ddc_validate_record = Inr\<rparr>"

interpretation dynamo_decisions: decision_contract
  "dynamo_decision_repository (map_decisions tm)" "\<lambda>s i. map_option dci_record (fst s i)" for tm
  by unfold_locales
    (auto simp: dynamo_decision_repository_def dynamo_save_def dynamo_get_def map_decisions_def map_table_def
      io_run fun_eq_iff split: option.splits)

section \<open>Properties\<close>

text \<open>
  Both repositories return what was saved: after a record is saved, reading its decision
  identifier gives that record and reading any other identifier gives what it gave before.  For
  DynamoDB the table behaves as documented and pydantic reads back the JSON text it wrote.
\<close>

theorem saved_decision_read_back:
  assumes "ddc_table cfg = map_table" and "\<And>z. ddc_clock_seconds cfg z = (Inr (tm z), z)"
    and "\<And>r. ddc_validate_record cfg (ddc_dump_record cfg r) = Inr r"
  shows "(\<exists>s'. memory_save rec s = (Inr (), s') \<and>
      memory_get i s' = (Inr (if i = dec_decision_id (aud_decision rec) then Some rec else fst s i), s')) \<and>
    (\<exists>z'. dynamo_save cfg rec z = (Inr (), z') \<and>
      dynamo_get cfg i z' =
        (if i = dec_decision_id (aud_decision rec) then Inr (Some rec) else fst (dynamo_get cfg i z), z'))"
  using assms
  by (simp add: memory_save_def memory_get_def dynamo_save_def dynamo_get_def map_table_def io_run
      split: option.split sum.split)

definition some_audit_record :: audit_record where
  "some_audit_record = \<lparr>aud_decision = res_decision some_result, aud_invocation_attempts = []\<rparr>"

theorem saved_decision_read_back_witness:
  "\<exists>z'. dynamo_save (map_decisions (\<lambda>w. 0)) some_audit_record (Map.empty, ()) = (Inr (), z') \<and>
     dynamo_get (map_decisions (\<lambda>w. 0)) ''dec_1'' z' = (Inr (Some some_audit_record), z')"
proof -
  have "dec_decision_id (aud_decision some_audit_record) = ''dec_1''"
    by (simp add: some_audit_record_def some_result_def)
  then show ?thesis
    using conjunct2[OF saved_decision_read_back[of "map_decisions (\<lambda>w. 0)" "\<lambda>z. 0" some_audit_record
        "(Map.empty, ())" "''dec_1''" "(Map.empty, ())"]]
    by (simp add: map_decisions_def)
qed

text \<open>
  C15. Every invocation is auditable: with a decision repository that keeps its contract, an
  invocation that returns has stored its final decision and its attempts under the decision
  identifier it returns, whatever branch it took, provided that publishing metrics and events
  does not change the records.
\<close>

theorem invocation_auditable:
  assumes "decision_contract repo lookup" and "orc_decision_repository orc = Some repo"
    and "invoke_uncached orc request s = (Inr r, s')"
    and "\<And>mx x t. orc_metrics_publisher orc = Some mx \<Longrightarrow> preserves_io (\<lambda>s. lookup s = t) (mx_publish mx x)"
    and "\<And>dp x t. orc_decision_event_publisher orc = Some dp \<Longrightarrow> preserves_io (\<lambda>s. lookup s = t) (dp_publish dp x)"
  shows "rd_get repo (dec_decision_id (res_decision r)) s' =
    (Inr (Some \<lparr>aud_decision = res_decision r, aud_invocation_attempts = res_invocation_attempts r\<rparr>), s')"
  using decision_contract.invoke_auditable[OF assms(1,3,2)] assms(4,5) by blast

text \<open>The sample world with an in-memory decision repository in it.\<close>

record audited_world = sample_world +
  aw_decisions :: decision_records

definition audited_repository :: "'m audited_world_scheme routing_decision_repository" where
  "audited_repository =
     \<lparr>rd_save = (\<lambda>rec. on_part (\<lambda>w. (aw_decisions w, ())) (\<lambda>p w. w\<lparr>aw_decisions := fst p\<rparr>) (memory_save rec)),
      rd_get = (\<lambda>i. on_part (\<lambda>w. (aw_decisions w, ())) (\<lambda>p w. w\<lparr>aw_decisions := fst p\<rparr>) (memory_get i))\<rparr>"

interpretation audited: decision_contract audited_repository aw_decisions
  by unfold_locales (auto simp: audited_repository_def memory_save_def memory_get_def io_run)

definition audited_orchestrator :: "'m audited_world_scheme orchestrator" where
  "audited_orchestrator = sample_orchestrator\<lparr>orc_decision_repository := Some audited_repository\<rparr>"

definition audited_start :: audited_world where
  "audited_start = \<lparr>sw_policies = new_policy_repository, sw_counter = 0, aw_decisions = Map.empty\<rparr>"

lemma audited_start_new: "sw_policies audited_start = new_policy_repository"
  by (simp add: audited_start_def)

interpretation audited_env: orchestrator_environment audited_orchestrator "\<lambda>w. 1"
  by unfold_locales
    (auto simp: audited_orchestrator_def sample_orchestrator_def sample_provider_def total_io_def audited_repository_def
      memory_save_def io_run split: if_splits)

lemma audited_invoke:
  assumes "sw_policies w = new_policy_repository"
  shows "\<exists>r s'. invoke_uncached audited_orchestrator (sample_request ''support-assistant'' key) w = (Inr r, s')"
proof -
  obtain d w1 where "evaluate_route sample_service (sample_request ''support-assistant'' key) w = (Inr d, w1)"
    "rp_resolve sample_policies ''support-assistant'' w1 = (Inr support_assistant_policy, w1)"
    using sample_invoke_from[OF assms] by blast
  then show ?thesis
    by (intro audited_env.invocation_total[where d = d and ?s1.0 = w1 and p = support_assistant_policy and ?s2.0 = w1])
      (simp_all add: audited_orchestrator_def, simp add: sample_request_def)
qed

theorem invocation_auditable_witness:
  "\<exists>r s'. invoke_uncached audited_orchestrator (sample_request ''support-assistant'' None) audited_start = (Inr r, s') \<and>
     aw_decisions s' (dec_decision_id (res_decision r)) =
       Some \<lparr>aud_decision = res_decision r, aud_invocation_attempts = res_invocation_attempts r\<rparr>"
proof -
  obtain r s' where r: "invoke_uncached audited_orchestrator (sample_request ''support-assistant'' None) audited_start = (Inr r, s')"
    using audited_invoke[OF audited_start_new, of None] by (elim exE)
  have "rd_get audited_repository (dec_decision_id (res_decision r)) s' =
      (Inr (Some \<lparr>aud_decision = res_decision r, aud_invocation_attempts = res_invocation_attempts r\<rparr>), s')"
    by (rule invocation_auditable[OF audited.decision_contract_axioms _ r])
      (simp_all add: audited_orchestrator_def sample_orchestrator_def)
  then show ?thesis using r unfolding audited.get_law by simp
qed

end
