(* ===== verification/Idempotent_Invocation.thy ===== *)
theory Idempotent_Invocation
  imports Decision_Store
begin

text \<open>
  Idempotency end to end: \<open>invoke\<close> of \<open>src/application/invocation_orchestrator.py\<close> over any store
  that keeps the contract of \<open>idempotency_contract\<close>.  A first group of lemmas shows that an
  invocation keeps every invariant that its ports keep, so that the records of the store survive
  the invocation in between.
\<close>

section \<open>Invariants the ports keep\<close>

definition service_preserves :: "('s \<Rightarrow> bool) \<Rightarrow> 's route_evaluation_service \<Rightarrow> bool" where
  "service_preserves P svc \<longleftrightarrow>
     (\<forall>a. preserves_io P (rp_resolve (svc_policy_repository svc) a)) \<and>
     preserves_io P (ck_now (svc_clock svc)) \<and>
     (\<forall>p. preserves_io P (ig_new_id (svc_identifier_generator svc) p)) \<and>
     (\<forall>h a. svc_model_health_repository svc = Some h \<longrightarrow> preserves_io P (mh_get_health h a))"

definition ports_preserve :: "('s \<Rightarrow> bool) \<Rightarrow> 's orchestrator \<Rightarrow> bool" where
  "ports_preserve P orc \<longleftrightarrow>
     service_preserves P (orc_route_evaluation_service orc) \<and>
     (\<forall>a. preserves_io P (rp_resolve (orc_policy_repository orc) a)) \<and>
     (\<forall>pr. preserves_io P (mp_invoke (orc_model_provider orc) pr)) \<and>
     preserves_io P (orc_monotonic orc) \<and>
     (\<forall>h a st. orc_model_health_repository orc = Some h \<longrightarrow> preserves_io P (mh_record_outcome h a st)) \<and>
     (\<forall>rd rec. orc_decision_repository orc = Some rd \<longrightarrow> preserves_io P (rd_save rd rec)) \<and>
     (\<forall>mx r. orc_metrics_publisher orc = Some mx \<longrightarrow> preserves_io P (mx_publish mx r)) \<and>
     (\<forall>dp r. orc_decision_event_publisher orc = Some dp \<longrightarrow> preserves_io P (dp_publish dp r))"

lemma evaluate_route_preserves:
  assumes "service_preserves P svc"
  shows "preserves_io P (evaluate_route svc request)"
proof -
  have build: "preserves_io P (build_decision svc request p c sel cs codes)" for p c sel cs codes
    using assms by (auto simp: build_decision_def Let_def service_preserves_def intro!: io_keep)
  have "preserves_io P (candidate_health (svc_model_health_repository svc) m)" for m
    using assms by (auto simp: candidate_health_def service_preserves_def intro!: io_keep split: option.split)
  then have "preserves_io P (build_route_candidates ms eff p te ce msgs (svc_model_health_repository svc))"
    for ms eff p te ce msgs
    unfolding build_route_candidates_def by (intro io_keep)
  then show ?thesis
    using assms build unfolding evaluate_route_def Let_def service_preserves_def by (intro io_keep) auto
qed

lemma close_attempt_preserves:
  "ports_preserve P orc \<Longrightarrow> preserves_io P (close_attempt orc a st t)"
  unfolding close_attempt_def record_health_outcome_def ports_preserve_def by (intro io_keep) auto

lemma invoke_attempt_preserves:
  assumes "ports_preserve P orc"
  shows "preserves_io P (invoke_attempt orc request d eff a)"
  using assms close_attempt_preserves[OF assms]
  unfolding invoke_attempt_def ports_preserve_def
  by (intro io_keep) (auto intro!: io_keep split: sum.split option.split)

lemma attempt_chain_preserves:
  assumes "ports_preserve P orc"
  shows "preserves_io P (attempt_chain orc request d eff chain ats codes)"
proof (induction chain arbitrary: ats codes)
  case (Cons a chain)
  then show ?case
    using invoke_attempt_preserves[OF assms] by (auto intro!: io_keep split: attempt_step.split)
qed (simp add: io_keep)

lemma finish_preserves: "ports_preserve P orc \<Longrightarrow> preserves_io P (finish orc r)"
  unfolding finish_def persist_def publish_metrics_def publish_decision_event_def ports_preserve_def
  by (intro io_keep) auto

lemma invoke_uncached_preserves:
  assumes "ports_preserve P orc"
  shows "preserves_io P (invoke_uncached orc request)"
proof -
  have "preserves_io P (evaluate_route (orc_route_evaluation_service orc) request)"
    "\<And>a. preserves_io P (rp_resolve (orc_policy_repository orc) a)"
    using assms evaluate_route_preserves by (auto simp: ports_preserve_def)
  then show ?thesis
    unfolding invoke_uncached_def Let_def
    using attempt_chain_preserves[OF assms] finish_preserves[OF assms] by (intro io_keep)
qed

section \<open>Idempotent invocation over the contract\<close>

locale idempotent_orchestrator = idempotency_contract store inv live
  for store :: "'s idempotency_store" and inv live +
  fixes orc :: "'s orchestrator"
  assumes store_used: "orc_idempotency_store orc = Some store"
    and ports_keep: "ports_preserve inv orc"
begin

lemma invoke_keyed:
  "ir_idempotency_key request = Some key \<Longrightarrow> invoke orc request = invoke_with_idempotency orc request key store"
  by (simp add: invoke_def store_used)

text \<open>A key that is held: the answer is read off the entry and nothing runs.\<close>

lemma invoke_held:
  assumes "inv s" and "ir_idempotency_key request = Some key" and "live s (ir_application_id request, key) = Some e"
  shows "invoke orc request s =
    ((case e of
        In_Progress h \<Rightarrow> Inl (if h = compute_request_hash request
          then IdempotencyInProgressError (in_progress_message (py_repr key))
          else IdempotencyConflictError (conflict_message (py_repr key)))
      | Completed h r \<Rightarrow> (if h = compute_request_hash request then Inr r
          else Inl (IdempotencyConflictError (conflict_message (py_repr key))))), s)"
proof -
  let ?h = "compute_request_hash request" and ?a = "ir_application_id request"
  obtain x s' where x: "ids_reserve store ?a key ?h s = (x, s')" by (rule prod.exhaust)
  have "x = Inr (fst (reserve_spec (Some e) ?h))" "s' = s"
    using reserve_law[OF assms(1) x] reserve_held[OF assms(1) _ x] assms(3) by simp_all
  then show ?thesis
    using x by (cases e) (simp_all add: invoke_keyed[OF assms(2)] invoke_with_idempotency_def io_run reservation_def)
qed

text \<open>A key that is free: reserved, then released on an exception or completed on a result.\<close>

lemma invoke_free:
  assumes "inv s" and "ir_idempotency_key request = Some key" and "live s (ir_application_id request, key) = None"
  obtains s1 where
    "live s1 = (live s)((ir_application_id request, key) \<mapsto> In_Progress (compute_request_hash request))" "inv s1"
    "invoke orc request s = run_reserved orc request key store s1"
proof -
  let ?h = "compute_request_hash request" and ?a = "ir_application_id request"
  obtain x s1 where x: "ids_reserve store ?a key ?h s = (x, s1)" by (rule prod.exhaust)
  have "x = Inr (reservation Outcome_NEW None)" "live s1 = (live s)((?a, key) \<mapsto> In_Progress ?h)" "inv s1"
    using reserve_law[OF assms(1) x] assms(3) by simp_all
  with x show ?thesis
    by (intro that) (simp_all add: invoke_keyed[OF assms(2)] invoke_with_idempotency_def io_run reservation_def)
qed

lemma invoke_free_returns:
  assumes "inv s" and "ir_idempotency_key request = Some key" and "live s (ir_application_id request, key) = None"
    and "invoke orc request s = (Inr r, s')"
    and pol: "\<And>t p t'. rp_resolve (orc_policy_repository orc) (ir_application_id request) t = (Inr p, t') \<Longrightarrow>
      idp_allow_response_caching (pol_idempotency_policy p) = cache \<and> 0 < idp_retention_seconds (pol_idempotency_policy p)"
  shows "inv s' \<and> live s' (ir_application_id request, key) =
    (if cache then Some (Completed (compute_request_hash request) r) else None)"
proof -
  let ?h = "compute_request_hash request" and ?a = "ir_application_id request"
  obtain s1 where s1: "inv s1" and run: "run_reserved orc request key store s1 = (Inr r, s')"
    using invoke_free[OF assms(1-3)] assms(4) by metis
  obtain x s2 where x: "invoke_uncached orc request s1 = (x, s2)" by (rule prod.exhaust)
  have s2: "inv s2" using preserves_ioD[OF invoke_uncached_preserves[OF ports_keep] s1 x] .
  obtain res where res: "x = Inr res" using run x by (cases x) (auto simp: run_reserved_def Let_def io_inv)
  obtain p s3 u where p: "rp_resolve (orc_policy_repository orc) ?a s2 = (Inr p, s3)"
    "ids_complete store ?a key ?h res (idp_allow_response_caching (pol_idempotency_policy p))
       (idp_retention_seconds (pol_idempotency_policy p)) s3 = (Inr u, s')" "res = r"
    using run x res by (auto simp: run_reserved_def Let_def io_inv)
  have "preserves_io inv (rp_resolve (orc_policy_repository orc) ?a)"
    using ports_keep by (simp add: ports_preserve_def)
  then have "inv s3" using s2 p(1) by (rule preserves_ioD)
  then show ?thesis using complete_law[OF _ _ p(2)] pol[OF p(1)] p(3) by simp
qed

lemma invoke_free_raises:
  assumes "inv s" and "ir_idempotency_key request = Some key" and "live s (ir_application_id request, key) = None"
    and "\<And>t. inv t \<Longrightarrow> \<exists>t'. invoke_uncached orc request t = (Inl e, t')"
  shows "\<exists>s'. invoke orc request s = (Inl e, s') \<and> inv s' \<and> live s' (ir_application_id request, key) = None"
proof -
  let ?a = "ir_application_id request"
  obtain s1 where s1: "inv s1" and run: "invoke orc request s = run_reserved orc request key store s1"
    using invoke_free[OF assms(1-3)] by metis
  obtain s2 where x: "invoke_uncached orc request s1 = (Inl e, s2)" using assms(4)[OF s1] by blast
  have s2: "inv s2" using preserves_ioD[OF invoke_uncached_preserves[OF ports_keep] s1 x] .
  obtain u s3 where rel: "ids_release store ?a key s2 = (u, s3)" by (rule prod.exhaust)
  have "u = Inr ()" "live s3 (?a, key) = None" "inv s3" using release_law[OF s2 rel] by simp_all
  then show ?thesis using run x rel by (simp add: run_reserved_def Let_def io_run)
qed

lemma replay:
  assumes "inv s" and "ir_idempotency_key request = Some key" and "live s (ir_application_id request, key) = None"
    and "invoke orc request s = (Inr r, s1)"
    and "\<And>t p t'. rp_resolve (orc_policy_repository orc) (ir_application_id request) t = (Inr p, t') \<Longrightarrow>
      idp_allow_response_caching (pol_idempotency_policy p) \<and> 0 < idp_retention_seconds (pol_idempotency_policy p)"
    and "ir_idempotency_key request' = Some key" and "ir_application_id request' = ir_application_id request"
  shows "invoke orc request' s1 =
    (if compute_request_hash request' = compute_request_hash request then Inr r
     else Inl (IdempotencyConflictError (conflict_message (py_repr key))), s1)"
proof -
  have "inv s1" "live s1 (ir_application_id request', key) = Some (Completed (compute_request_hash request) r)"
    using invoke_free_returns[OF assms(1-4), of True] assms(5,7) by simp_all
  from invoke_held[OF this(1) assms(6) this(2)] show ?thesis by auto
qed

end

section \<open>An orchestrator with an in-memory store\<close>

text \<open>
  The audited orchestrator of the shipped configuration with response caching switched on in the
  policy and the in-memory store, whose clock is the world's counter.
\<close>

record keyed_world = audited_world +
  kw_records :: idempotency_records

definition keyed_part :: "(idempotency_records \<times> keyed_world, 'a) op \<Rightarrow> (keyed_world, 'a) op" where
  "keyed_part = on_part (\<lambda>w. (kw_records w, w)) (\<lambda>p w. (snd p)\<lparr>kw_records := fst p\<rparr>)"

definition keyed_time :: "keyed_world \<Rightarrow> datetime" where
  "keyed_time w = int (sw_counter w)"

definition keyed_store :: "keyed_world idempotency_store" where
  "keyed_store =
     (let st = in_memory_idempotency_store (reading_clock keyed_time) default_stale
      in \<lparr>ids_reserve = (\<lambda>a k h. keyed_part (ids_reserve st a k h)),
          ids_complete = (\<lambda>a k h r c n. keyed_part (ids_complete st a k h r c n)),
          ids_release = (\<lambda>a k. keyed_part (ids_release st a k))\<rparr>)"

definition caching_policy :: routing_policy where
  "caching_policy = support_assistant_policy
     \<lparr>pol_idempotency_policy := \<lparr>idp_allow_response_caching = True, idp_retention_seconds = 300\<rparr>\<rparr>"

definition keyed_orchestrator :: "keyed_world orchestrator" where
  "keyed_orchestrator = audited_orchestrator
     \<lparr>orc_policy_repository := \<lparr>rp_resolve = (\<lambda>app w. (Inr caching_policy, w))\<rparr>,
      orc_idempotency_store := Some keyed_store\<rparr>"

definition keyed_inv :: "keyed_world \<Rightarrow> bool" where
  "keyed_inv w \<longleftrightarrow> memory_inv (kw_records w, w)"

definition keyed_live :: "keyed_world \<Rightarrow> idempotency_key \<Rightarrow> entry option" where
  "keyed_live w = memory_live keyed_time (kw_records w, w)"

lemma memory_live_time: "tm w = tm v \<Longrightarrow> memory_live tm (recs, w) = memory_live tm (recs, v)"
  by (rule ext) (simp add: memory_live_def split: option.split)

lemma keyed_part_run:
  assumes "keyed_part m w = (r, w')" and "\<And>x s'. m (kw_records w, w) = (x, s') \<Longrightarrow> snd s' = w"
  obtains recs where "m (kw_records w, w) = (r, (recs, w))" "w' = w\<lparr>kw_records := recs\<rparr>"
    "keyed_live w' = memory_live keyed_time (recs, w)" "keyed_inv w' = memory_inv (recs, w)"
proof -
  obtain recs v where m: "m (kw_records w, w) = (r, (recs, v))" and w': "w' = v\<lparr>kw_records := recs\<rparr>"
    using assms(1) by (auto simp: keyed_part_def io_inv)
  have v: "v = w" using assms(2)[OF m] by simp
  have "keyed_time (w\<lparr>kw_records := recs\<rparr>) = keyed_time w" by (simp add: keyed_time_def)
  then have "keyed_live w' = memory_live keyed_time (recs, w)" "keyed_inv w' = memory_inv (recs, w)"
    by (simp_all add: w' v keyed_live_def keyed_inv_def memory_inv_def memory_live_time[of keyed_time "w\<lparr>kw_records := recs\<rparr>" w])
  with m w' show ?thesis by (auto simp: v intro: that)
qed

lemma memory_store_keeps_world:
  "ids_reserve (in_memory_idempotency_store (reading_clock tm) st) a k h s = (x, s') \<Longrightarrow> snd s' = snd s"
  "ids_complete (in_memory_idempotency_store (reading_clock tm) st) a k h r c n s = (y, s') \<Longrightarrow> snd s' = snd s"
  "ids_release (in_memory_idempotency_store (reading_clock tm) st) a k s = (y, s') \<Longrightarrow> snd s' = snd s"
  by (auto simp: in_memory_idempotency_store_def memory_reserve_def memory_complete_def memory_release_def
      io_run Let_def split: option.splits if_splits)

interpretation keyed: idempotency_contract keyed_store keyed_inv keyed_live
proof
  fix a k h s r s'
  assume inv: "keyed_inv s" and run: "ids_reserve keyed_store a k h s = (r, s')"
  from run obtain recs where "ids_reserve (in_memory_idempotency_store (reading_clock keyed_time) default_stale) a k h
      (kw_records s, s) = (r, (recs, s))" "keyed_live s' = memory_live keyed_time (recs, s)" "keyed_inv s' = memory_inv (recs, s)"
    unfolding keyed_store_def Let_def idempotency_store.select_convs
    by (rule keyed_part_run) (auto dest: memory_store_keeps_world(1))
  then show "r = Inr (fst (reserve_spec (keyed_live s (a, k)) h)) \<and>
      keyed_live s' = (keyed_live s)((a, k) := snd (reserve_spec (keyed_live s (a, k)) h)) \<and> keyed_inv s'"
    using memory_store.reserve_law[of "(kw_records s, s)"] inv by (simp add: keyed_live_def keyed_inv_def)
next
  fix a k h s r s'
  assume inv: "keyed_inv s" and live: "keyed_live s (a, k) \<noteq> None" and run: "ids_reserve keyed_store a k h s = (r, s')"
  from run obtain recs where "ids_reserve (in_memory_idempotency_store (reading_clock keyed_time) default_stale) a k h
      (kw_records s, s) = (r, (recs, s))" "s' = s\<lparr>kw_records := recs\<rparr>"
    unfolding keyed_store_def Let_def idempotency_store.select_convs
    by (rule keyed_part_run) (auto dest: memory_store_keeps_world(1))
  moreover from this have "(recs, s) = (kw_records s, s)"
    using inv live unfolding keyed_inv_def keyed_live_def by (intro memory_store.reserve_held)
  ultimately show "s' = s" by simp
next
  fix a k h res cache retention s u s'
  assume inv: "keyed_inv s" and ret: "0 < (retention :: int)"
    and run: "ids_complete keyed_store a k h res cache retention s = (u, s')"
  from run obtain recs where "ids_complete (in_memory_idempotency_store (reading_clock keyed_time) default_stale) a k h
      res cache retention (kw_records s, s) = (u, (recs, s))" "keyed_live s' = memory_live keyed_time (recs, s)"
      "keyed_inv s' = memory_inv (recs, s)"
    unfolding keyed_store_def Let_def idempotency_store.select_convs
    by (rule keyed_part_run) (auto dest: memory_store_keeps_world(2))
  then show "u = Inr () \<and> keyed_live s' = (keyed_live s)((a, k) := (if cache then Some (Completed h res) else None)) \<and>
      keyed_inv s'"
    using memory_store.complete_law[of "(kw_records s, s)"] inv ret by (simp add: keyed_live_def keyed_inv_def)
next
  fix a k s u s'
  assume inv: "keyed_inv s" and run: "ids_release keyed_store a k s = (u, s')"
  from run obtain recs where "ids_release (in_memory_idempotency_store (reading_clock keyed_time) default_stale) a k
      (kw_records s, s) = (u, (recs, s))" "keyed_live s' = memory_live keyed_time (recs, s)"
      "keyed_inv s' = memory_inv (recs, s)"
    unfolding keyed_store_def Let_def idempotency_store.select_convs
    by (rule keyed_part_run) (auto dest: memory_store_keeps_world(3))
  then show "u = Inr () \<and> keyed_live s' = (keyed_live s)((a, k) := None) \<and> keyed_inv s'"
    using memory_store.release_law[of "(kw_records s, s)"] inv by (simp add: keyed_live_def keyed_inv_def)
qed

lemma keyed_ports: "ports_preserve keyed_inv keyed_orchestrator"
  by (auto simp: ports_preserve_def service_preserves_def keyed_orchestrator_def audited_orchestrator_def
      sample_orchestrator_def sample_service_def sample_policies_def sample_clock_def sample_identifiers_def
      sample_provider_def audited_repository_def memory_save_def preserves_io_def io_inv keyed_inv_def memory_inv_def
      split: if_splits)

interpretation keyed_orc: idempotent_orchestrator keyed_store keyed_inv keyed_live keyed_orchestrator
  by unfold_locales (simp_all add: keyed_ports, simp add: keyed_orchestrator_def)

section \<open>Properties\<close>



definition keyed_start :: keyed_world where
  "keyed_start = \<lparr>sw_policies = new_policy_repository, sw_counter = 0, aw_decisions = Map.empty, kw_records = Map.empty\<rparr>"

lemma keyed_start_empty: "kw_records keyed_start k = None"
  by (simp add: keyed_start_def)

interpretation keyed_env: orchestrator_environment keyed_orchestrator "\<lambda>w. 1"
  by unfold_locales
    (auto simp: keyed_orchestrator_def audited_orchestrator_def sample_orchestrator_def sample_provider_def
      total_io_def audited_repository_def memory_save_def io_run split: if_splits)

lemma caching_policy_ok: "policy_ok caching_policy"
  using shipped_policies_ok(4) by (simp add: policy_ok_iff routing_policy_fields_ok_def caching_policy_def)

lemma keyed_invoke:
  assumes "sw_policies w = new_policy_repository"
  shows "\<exists>r w'. invoke_uncached keyed_orchestrator (sample_request ''support-assistant'' key) w = (Inr r, w')"
proof -
  obtain d w1 where "evaluate_route sample_service (sample_request ''support-assistant'' key) w = (Inr d, w1)"
    using sample_invoke_from[OF assms] by blast
  then show ?thesis
    by (intro keyed_env.invocation_total[where d = d and ?s1.0 = w1 and p = caching_policy and ?s2.0 = w1])
      (simp_all add: keyed_orchestrator_def audited_orchestrator_def caching_policy_ok, simp add: sample_request_def)
qed

lemma keyed_reserve:
  assumes "kw_records w (a, k) = None"
  shows "\<exists>recs. ids_reserve keyed_store a k h w = (Inr (reservation Outcome_NEW None), w\<lparr>kw_records := recs\<rparr>)"
  using assms
  by (auto simp: keyed_store_def Let_def keyed_part_def in_memory_idempotency_store_def memory_reserve_def io_run)

lemma keyed_complete: "\<exists>w'. ids_complete keyed_store a k h r c n w = (Inr (), w')"
  by (simp add: keyed_store_def Let_def keyed_part_def in_memory_idempotency_store_def memory_complete_def
      memory_release_def io_run)

lemma keyed_returns:
  "\<exists>r w'. invoke keyed_orchestrator (sample_request ''support-assistant'' (Some key)) keyed_start = (Inr r, w')"
proof -
  let ?req = "sample_request ''support-assistant'' (Some key)"
  obtain recs where res: "ids_reserve keyed_store ''support-assistant'' key (compute_request_hash ?req) keyed_start =
      (Inr (reservation Outcome_NEW None), keyed_start\<lparr>kw_records := recs\<rparr>)"
    using keyed_reserve[OF keyed_start_empty] by (rule exE)
  have "sw_policies (keyed_start\<lparr>kw_records := recs\<rparr>) = new_policy_repository" by (simp add: keyed_start_def)
  from keyed_invoke[OF this, of "Some key"] obtain r w1
    where r: "invoke_uncached keyed_orchestrator ?req (keyed_start\<lparr>kw_records := recs\<rparr>) = (Inr r, w1)" by (elim exE)
  obtain w2 where "ids_complete keyed_store ''support-assistant'' key (compute_request_hash ?req) r True 300 w1 = (Inr (), w2)"
    using keyed_complete by (rule exE)
  moreover have "rp_resolve (orc_policy_repository keyed_orchestrator) a w = (Inr caching_policy, w)" for a w
    by (simp add: keyed_orchestrator_def)
  ultimately have "run_reserved keyed_orchestrator ?req key keyed_store (keyed_start\<lparr>kw_records := recs\<rparr>) = (Inr r, w2)"
    using r by (simp add: run_reserved_def Let_def io_run caching_policy_def)
  then show ?thesis
    using res by (simp add: keyed_orc.invoke_keyed[of ?req key] invoke_with_idempotency_def io_run reservation_def)
qed

lemma keyed_start_free: "keyed_inv keyed_start" "keyed_live keyed_start k = None"
  by (simp_all add: keyed_inv_def keyed_live_def memory_inv_def memory_live_def keyed_start_def)



end
