(* ===== verification/Api_Handler.thy ===== *)
theory Api_Handler
  imports Request_Mapping Idempotent_Invocation
begin

text \<open>
  \<open>src/handlers/error_mapping.py\<close> and \<open>src/handlers/api_handler.py\<close>: from an API Gateway event to
  the response.  A response is its status and the value passed to \<open>json.dumps\<close>; the event is an
  untyped value.  Parameters, in \<open>handler_env\<close>: \<open>json.loads\<close> with decimals, base64 and UTF-8
  decoding (its texts go beyond the code points of the model), the shortest text of a float, the
  body limit read from the environment, and pydantic's conversions.  Log records are left out.
\<close>

section \<open>Error mapping\<close>

definition error_response_body :: "str \<Rightarrow> str \<Rightarrow> str \<Rightarrow> str list option \<Rightarrow> pyval" where
  "error_response_body request_id error_code message reason_codes = PV_Dict
     ([(''requestId'', PV_Str request_id), (''errorCode'', PV_Str error_code), (''message'', PV_Str message)]
      @ (case reason_codes of None \<Rightarrow> [] | Some cs \<Rightarrow> [(''reasonCodes'', PV_List (map PV_Str cs))]))"

fun map_exception_to_status_and_body :: "exn \<Rightarrow> str \<Rightarrow> int \<times> pyval" where
  "map_exception_to_status_and_body RoutingPolicyNotFoundError request_id =
     (403, error_response_body request_id ''POLICY_DENIED''
        ''No routing policy is configured for this application.'' None)"
| "map_exception_to_status_and_body (IdempotencyConflictError m) request_id =
     (409, error_response_body request_id ''IDEMPOTENCY_CONFLICT''
        ''This idempotency key was already used for a different request.'' None)"
| "map_exception_to_status_and_body (IdempotencyInProgressError m) request_id =
     (409, error_response_body request_id ''IDEMPOTENCY_IN_PROGRESS''
        ''A request with this idempotency key is already being processed.'' None)"
| "map_exception_to_status_and_body ConfigurationError request_id =
     (500, error_response_body request_id ''INTERNAL_ERROR''
        ''The router's configuration could not be loaded.'' None)"
| "map_exception_to_status_and_body (ProviderError m c) request_id =
     (502, error_response_body request_id ''PROVIDER_UNAVAILABLE''
        ''The model provider is currently unavailable.'' None)"
| "map_exception_to_status_and_body _ request_id =
     (500, error_response_body request_id ''INTERNAL_ERROR'' ''An unexpected error occurred.'' None)"

definition cost_rejected_only :: "routing_decision \<Rightarrow> bool" where
  "cost_rejected_only decision \<longleftrightarrow>
     dec_considered_candidates decision \<noteq> [] \<and>
     list_all (\<lambda>c. \<not> rc_eligible c \<and> COST_LIMIT_EXCEEDED \<in> set (rc_reason_codes c)) (dec_considered_candidates decision)"

definition map_no_selection_to_status_and_body :: "routing_decision \<Rightarrow> bool \<Rightarrow> str \<Rightarrow> int \<times> pyval" where
  "map_no_selection_to_status_and_body decision invocation_attempted request_id =
     (let reason_codes = Some (map routing_reason_code_value (dec_reason_codes decision))
      in if invocation_attempted
         then (502, error_response_body request_id ''PROVIDER_UNAVAILABLE''
                 ''The selected model and all approved fallbacks failed.'' reason_codes)
         else if REQUIRED_CAPABILITY_UNAVAILABLE \<in> set (dec_reason_codes decision)
         then (422, error_response_body request_id ''REQUIRED_CAPABILITY_UNAVAILABLE''
                 ''The requested capability is not available to this application.'' reason_codes)
         else if cost_rejected_only decision
         then (402, error_response_body request_id ''COST_LIMIT_EXCEEDED''
                 ''No eligible route satisfies the requested cost limit.'' reason_codes)
         else (404, error_response_body request_id ''NO_ELIGIBLE_MODEL''
                 ''No eligible model is available for this request.'' reason_codes))"

section \<open>Services, environment and responses\<close>

record 's handler_services =
  hs_catalogue :: model_catalogue
  hs_route_service :: "'s route_evaluation_service"
  hs_orchestrator :: "'s orchestrator"
  hs_decision_repository :: "'s routing_decision_repository"

record handler_env =
  env_json_loads :: "str \<Rightarrow> pyval result"
  env_b64decode :: "pyval \<Rightarrow> str result"
  env_float_repr :: "rat \<Rightarrow> str"
  env_max_request_body_bytes :: int
  env_coercions :: coercions

definition default_max_request_body_bytes :: int where
  "default_max_request_body_bytes = 256 * 1024"

record http_response =
  rsp_status_code :: int
  rsp_headers :: "(str \<times> str) list"
  rsp_body :: pyval

definition respond :: "int \<Rightarrow> pyval \<Rightarrow> http_response" where
  "respond status_code body =
     \<lparr>rsp_status_code = status_code, rsp_headers = [(''Content-Type'', ''application/json'')], rsp_body = body\<rparr>"

definition respond_pair :: "int \<times> pyval \<Rightarrow> http_response" where
  "respond_pair p = respond (fst p) (snd p)"

section \<open>The event\<close>

text \<open>\<open>repr(v)\<close> and \<open>str(v)\<close>.\<close>

fun py_repr_value :: "(rat \<Rightarrow> str) \<Rightarrow> pyval \<Rightarrow> str" where
  "py_repr_value fr PV_None = ''None''"
| "py_repr_value fr (PV_Bool b) = (if b then ''True'' else ''False'')"
| "py_repr_value fr (PV_Int i) = int_str i"
| "py_repr_value fr (PV_Dec d) = ''Decimal('' @ py_repr (decimal_str d) @ '')''"
| "py_repr_value fr (PV_Float q) = fr q"
| "py_repr_value fr (PV_Str s) = py_repr s"
| "py_repr_value fr (PV_List xs) = ''['' @ str_join '', '' (map (py_repr_value fr) xs) @ '']''"
| "py_repr_value fr (PV_Dict kvs) =
     ''{'' @ str_join '', '' (map (\<lambda>kv. py_repr (fst kv) @ '': '' @ py_repr_value fr (snd kv)) kvs) @ ''}''"

fun py_str :: "(rat \<Rightarrow> str) \<Rightarrow> pyval \<Rightarrow> str" where
  "py_str fr (PV_Str s) = s"
| "py_str fr (PV_Dec d) = decimal_str d"
| "py_str fr v = py_repr_value fr v"

definition extract_body :: "handler_env \<Rightarrow> pyval \<Rightarrow> str result" where
  "extract_body env event =
     bind_r (get_or event ''body'' PV_None) (\<lambda>raw.
     let body = (if truthy raw then raw else PV_Str [])
     in bind_r (get_or event ''isBase64Encoded'' PV_None) (\<lambda>encoded.
        if truthy encoded then env_b64decode env body else Inr (py_str (env_float_repr env) body)))"

definition request_id_of :: "handler_env \<Rightarrow> pyval \<Rightarrow> str result" where
  "request_id_of env event =
     bind_r (get_or event ''requestContext'' (PV_Dict [])) (\<lambda>context.
     bind_r (get_or context ''requestId'' (PV_Str ''unknown'')) (\<lambda>i. Inr (py_str (env_float_repr env) i)))"

definition caller_principal_arn :: "handler_env \<Rightarrow> pyval \<Rightarrow> str result" where
  "caller_principal_arn env event =
     bind_r (get_or event ''requestContext'' (PV_Dict [])) (\<lambda>context.
     bind_r (get_or context ''identity'' (PV_Dict [])) (\<lambda>identity.
     bind_r (get_or (or_empty identity) ''userArn'' PV_None) (\<lambda>arn.
       Inr (if truthy arn then py_str (env_float_repr env) arn else ''none''))))"

text \<open>\<open>len(text.encode("utf-8"))\<close> for code points below 256.\<close>

definition utf8_length :: "str \<Rightarrow> int" where
  "utf8_length s = sum_list (map (\<lambda>c. if (of_char c :: nat) < 128 then 1 else 2) s)"

text \<open>The parsed body, or the response to give.\<close>

definition parse_body_or_400 :: "handler_env \<Rightarrow> pyval \<Rightarrow> str \<Rightarrow> (http_response + pyval) result" where
  "parse_body_or_400 env event request_id =
     bind_r (extract_body env event) (\<lambda>raw_body.
       if env_max_request_body_bytes env < utf8_length raw_body
       then Inr (Inl (respond 400 (error_response_body request_id ''INVALID_REQUEST''
              ''Request body exceeds the maximum allowed size.'' None)))
       else case env_json_loads env raw_body of
              Inr body \<Rightarrow> Inr (Inr body)
            | Inl e \<Rightarrow>
                if e \<in> {Json_Decode_Error, Type_Error}
                then Inr (Inl (respond 400 (error_response_body request_id ''INVALID_REQUEST''
                       ''Request body is not valid JSON.'' None)))
                else Inl e)"

section \<open>The handlers\<close>

definition handle_health :: http_response where
  "handle_health = respond 200 (PV_Dict [(''status'', PV_Str ''ok'')])"

definition handle_ready :: "'s handler_services \<Rightarrow> http_response" where
  "handle_ready services = respond 200 (PV_Dict
     [(''status'', PV_Str ''ready''), (''modelCatalogueVersion'', PV_Int (mc_catalogue_version (hs_catalogue services)))])"

text \<open>
  The first half of both POST handlers: the request, or the response to give.  The \<open>except\<close>
  clause lists \<open>ValidationError\<close>, \<open>KeyError\<close>, \<open>TypeError\<close> and \<open>ValueError\<close>; \<open>JSONDecodeError\<close>
  is a \<open>ValueError\<close> the parser does not raise.
\<close>

definition read_request :: "handler_env \<Rightarrow> pyval \<Rightarrow> str \<Rightarrow> (http_response + inference_request) result" where
  "read_request env event request_id =
     bind_r (parse_body_or_400 env event request_id) (\<lambda>parsed.
       case parsed of
         Inl error \<Rightarrow> Inr (Inl error)
       | Inr body \<Rightarrow>
           (case parse_inference_request (env_coercions env) body of
              Inr request \<Rightarrow> Inr (Inr request)
            | Inl e \<Rightarrow>
                if e \<in> {Validation_Error, Key_Error, Type_Error, Value_Error}
                then Inr (Inl (respond 400 (error_response_body request_id ''INVALID_REQUEST''
                       ''Request failed validation.'' None)))
                else Inl e))"

definition handle_inference ::
  "handler_env \<Rightarrow> pyval \<Rightarrow> str \<Rightarrow> 's handler_services \<Rightarrow> ('s, http_response) op" where
  "handle_inference env event request_id services =
     bind_io (lift_r (read_request env event request_id)) (\<lambda>parsed.
       case parsed of
         Inl error \<Rightarrow> return_io error
       | Inr request \<Rightarrow>
           bind_io (attempt_io (invoke (hs_orchestrator services) request)) (\<lambda>outcome.
             case outcome of
               Inl exc \<Rightarrow> return_io (respond_pair (map_exception_to_status_and_body exc request_id))
             | Inr result \<Rightarrow>
                 return_io
                   (if dec_selected_model_alias (res_decision result) = None
                    then respond_pair (map_no_selection_to_status_and_body (res_decision result)
                           (res_invocation_attempts result \<noteq> []) request_id)
                    else respond 200 (serialize_inference_result result request_id))))"

definition handle_routes_evaluate ::
  "handler_env \<Rightarrow> pyval \<Rightarrow> str \<Rightarrow> 's handler_services \<Rightarrow> ('s, http_response) op" where
  "handle_routes_evaluate env event request_id services =
     bind_io (lift_r (read_request env event request_id)) (\<lambda>parsed.
       case parsed of
         Inl error \<Rightarrow> return_io error
       | Inr request \<Rightarrow>
           bind_io (attempt_io (evaluate_route (hs_route_service services) request)) (\<lambda>outcome.
             case outcome of
               Inl exc \<Rightarrow> return_io (respond_pair (map_exception_to_status_and_body exc request_id))
             | Inr decision \<Rightarrow> return_io (respond 200 (serialize_route_evaluation decision request_id))))"

definition handle_models :: "str \<Rightarrow> 's handler_services \<Rightarrow> http_response result" where
  "handle_models request_id services =
     bind_r (serialize_models_response (mc_all_models (hs_catalogue services)) request_id) (\<lambda>body. Inr (respond 200 body))"

text \<open>\<open>(event.get(group) or {}).get(k)\<close>.\<close>

definition event_parameter :: "str \<Rightarrow> pyval \<Rightarrow> str \<Rightarrow> pyval result" where
  "event_parameter group_name event k =
     bind_r (get_or event group_name PV_None) (\<lambda>params. get_or (or_empty params) k PV_None)"

text \<open>
  The path parameter is passed to the repository as it is; API Gateway makes it a string, and the
  repository port takes one, so any other truthy value is a \<open>TypeError\<close> here.
\<close>

definition handle_get_decision ::
  "pyval \<Rightarrow> str \<Rightarrow> 's handler_services \<Rightarrow> ('s, http_response) op" where
  "handle_get_decision event request_id services =
     bind_io (lift_r (event_parameter ''pathParameters'' event ''decisionId'')) (\<lambda>decision_id.
     if \<not> truthy decision_id
     then return_io (respond 400 (error_response_body request_id ''INVALID_REQUEST'' ''decisionId is required.'' None))
     else bind_io (lift_r (event_parameter ''queryStringParameters'' event ''applicationId'')) (\<lambda>caller_application_id.
     bind_io (lift_r (py_as_str decision_id)) (\<lambda>i.
     bind_io (rd_get (hs_decision_repository services) i) (\<lambda>found.
       return_io (case found of
           None \<Rightarrow> respond 404 (error_response_body request_id ''NOT_FOUND'' ''No such routing decision.'' None)
         | Some audit_record \<Rightarrow>
             if caller_application_id \<noteq> PV_Str (dec_application_id (aud_decision audit_record))
             then respond 403 (error_response_body request_id ''POLICY_DENIED''
                    ''You are not authorized to view this decision.'' None)
             else respond 200 (serialize_audit_record audit_record request_id))))))"

section \<open>Dispatch\<close>

definition route_event ::
  "handler_env \<Rightarrow> 's handler_services \<Rightarrow> pyval \<Rightarrow> str \<Rightarrow> pyval \<times> pyval \<Rightarrow> ('s, http_response) op" where
  "route_event env services event request_id target =
     (if target = (PV_Str ''GET'', PV_Str ''/health'') then return_io handle_health
      else if target = (PV_Str ''GET'', PV_Str ''/ready'') then return_io (handle_ready services)
      else if target = (PV_Str ''POST'', PV_Str ''/v1/inference'') then handle_inference env event request_id services
      else if target = (PV_Str ''POST'', PV_Str ''/v1/routes/evaluate'')
      then handle_routes_evaluate env event request_id services
      else if target = (PV_Str ''GET'', PV_Str ''/v1/models'') then lift_r (handle_models request_id services)
      else if target = (PV_Str ''GET'', PV_Str ''/v1/decisions/{decisionId}'')
      then handle_get_decision event request_id services
      else return_io (respond 404 (error_response_body request_id ''NOT_FOUND'' ''Unknown route.'' None)))"

definition dispatch :: "handler_env \<Rightarrow> pyval \<Rightarrow> 's handler_services \<Rightarrow> ('s, http_response) op" where
  "dispatch env event services =
     bind_io (lift_r (request_id_of env event)) (\<lambda>request_id.
     bind_io (lift_r (get_or event ''httpMethod'' (PV_Str []))) (\<lambda>m.
     bind_io (lift_r (get_or event ''resource'' (PV_Str []))) (\<lambda>r.
     bind_io (lift_r (caller_principal_arn env event)) (\<lambda>_.
     bind_io (attempt_io (route_event env services event request_id (m, r))) (\<lambda>outcome.
       case outcome of
         Inr response \<Rightarrow> return_io response
       | Inl e \<Rightarrow> return_io (respond 500 (error_response_body request_id ''INTERNAL_ERROR''
                    ''An unexpected error occurred.'' None)))))))"

text \<open>
  \<open>handler\<close>: the module's \<open>_SERVICES\<close> is part of the state; \<open>build\<close> is \<open>build_services\<close>.  The
  configuration of logging and tracing is left out.
\<close>

definition lambda_handler ::
  "handler_env \<Rightarrow> ('s, 's handler_services) op \<Rightarrow> pyval \<Rightarrow> ('s \<times> 's handler_services option, http_response) op" where
  "lambda_handler env build event = (\<lambda>(s, cached).
     case cached of
       Some services \<Rightarrow> on_part fst (\<lambda>t (_, c). (t, c)) (dispatch env event services) (s, cached)
     | None \<Rightarrow>
         (case build s of
            (Inl e, s') \<Rightarrow> (Inl e, (s', None))
          | (Inr services, s') \<Rightarrow>
              on_part fst (\<lambda>t (_, c). (t, c)) (dispatch env event services) (s', Some services)))"

section \<open>Every response is serializable\<close>

text \<open>What \<open>json.dumps\<close> serializes: it raises \<open>TypeError\<close> on a \<open>Decimal\<close>.\<close>

fun json_safe :: "pyval \<Rightarrow> bool" where
  "json_safe (PV_Dec d) = False"
| "json_safe (PV_List xs) = list_all json_safe xs"
| "json_safe (PV_Dict kvs) = list_all (\<lambda>kv. json_safe (snd kv)) kvs"
| "json_safe _ = True"

named_theorems serializable "values and responses that can be serialized"

lemma json_safe_opt [serializable]: "(\<And>a. json_safe (f a)) \<Longrightarrow> json_safe (opt_value f x)"
  by (cases x) (simp_all add: opt_value_def)

lemma json_safe_codes [serializable]: "json_safe (serialize_codes cs)"
  by (simp add: serialize_codes_def list_all_iff)

lemma json_safe_route [serializable]: "json_safe (serialize_route d)"
  by (simp add: serialize_route_def serializable)

lemma json_safe_usage [serializable]: "json_safe (serialize_usage d)"
  by (simp add: serialize_usage_def split: option.split)

lemma json_safe_result [serializable]: "json_safe (serialize_inference_result r i)"
  by (simp add: serialize_inference_result_def serializable)

lemma json_safe_evaluation [serializable]: "json_safe (serialize_route_evaluation d i)"
  by (simp add: serialize_route_evaluation_def serialize_considered_candidate_def serializable list_all_iff)

lemma json_safe_audit [serializable]: "json_safe (serialize_audit_record a i)"
  by (simp add: serialize_audit_record_def serialize_attempt_def Let_def serializable list_all_iff)

lemma json_safe_error [serializable]: "json_safe (error_response_body i c m rs)"
  by (cases rs) (simp_all add: error_response_body_def list_all_iff)

lemma json_safe_models [serializable]: "json_safe (models_summary C i)"
  by (simp add: models_summary_def capability_summary_def list_all_iff)

text \<open>A response the gateway can return: a documented status and a serializable body.\<close>

definition api_statuses :: "int list" where
  "api_statuses = [200, 400, 402, 403, 404, 409, 422, 500, 502]"

definition proper_response :: "http_response \<Rightarrow> bool" where
  "proper_response resp \<longleftrightarrow> rsp_status_code resp \<in> set api_statuses \<and> json_safe (rsp_body resp)"

lemma proper_respond: "proper_response (respond n body) \<longleftrightarrow> n \<in> set api_statuses \<and> json_safe body"
  by (simp add: proper_response_def respond_def)

lemma proper_exception [serializable]: "proper_response (respond_pair (map_exception_to_status_and_body e i))"
  by (cases e) (simp_all add: respond_pair_def proper_respond api_statuses_def serializable)

lemma proper_no_selection [serializable]:
  "proper_response (respond_pair (map_no_selection_to_status_and_body d a i))"
  by (simp add: respond_pair_def map_no_selection_to_status_and_body_def Let_def proper_respond api_statuses_def serializable)

lemma proper_handlers [serializable]:
  "proper_response handle_health" "proper_response (handle_ready svc)"
  by (simp_all add: handle_health_def handle_ready_def proper_respond api_statuses_def)

section \<open>Reading the request\<close>

lemma read_request_error_response:
  assumes "read_request env event i = Inr (Inl resp)"
  shows "rsp_status_code resp = 400 \<and> proper_response resp"
  using assms
  by (auto simp: read_request_def parse_body_or_400_def proper_respond api_statuses_def serializable respond_def
      proper_response_def split: if_splits sum.splits)

lemma handle_models_response: "\<exists>resp. handle_models i svc = Inr resp \<and> proper_response resp"
  by (simp add: handle_models_def models_response_exact proper_respond api_statuses_def serializable)

lemma handle_inference_cases [consumes 1, case_names rejected raised unselected answered]:
  assumes "handle_inference env event i svc s = (Inr resp, s')"
  obtains
    (rejected) "read_request env event i = Inr (Inl resp)" "s' = s"
  | (raised) request e where "read_request env event i = Inr (Inr request)"
      "invoke (hs_orchestrator svc) request s = (Inl e, s')"
      "resp = respond_pair (map_exception_to_status_and_body e i)"
  | (unselected) request r where "read_request env event i = Inr (Inr request)"
      "invoke (hs_orchestrator svc) request s = (Inr r, s')" "dec_selected_model_alias (res_decision r) = None"
      "resp = respond_pair (map_no_selection_to_status_and_body (res_decision r) (res_invocation_attempts r \<noteq> []) i)"
  | (answered) request r where "read_request env event i = Inr (Inr request)"
      "invoke (hs_orchestrator svc) request s = (Inr r, s')" "dec_selected_model_alias (res_decision r) \<noteq> None"
      "resp = respond 200 (serialize_inference_result r i)"
proof (cases "read_request env event i")
  case (Inl e)
  then show ?thesis using assms by (simp add: handle_inference_def io_run)
next
  case (Inr parsed)
  note read = Inr
  show ?thesis
  proof (cases parsed)
    case (Inl error)
    then show ?thesis using assms read that(1) by (simp add: handle_inference_def io_run)
  next
    case (Inr request)
    obtain x s1 where run: "invoke (hs_orchestrator svc) request s = (x, s1)" by (rule prod.exhaust)
    have out: "s' = s1" "resp = (case x of
        Inl e \<Rightarrow> respond_pair (map_exception_to_status_and_body e i)
      | Inr r \<Rightarrow> (if dec_selected_model_alias (res_decision r) = None
          then respond_pair (map_no_selection_to_status_and_body (res_decision r) (res_invocation_attempts r \<noteq> []) i)
          else respond 200 (serialize_inference_result r i)))"
      using assms read Inr run by (auto simp: handle_inference_def io_run split: sum.splits)
    show ?thesis
    proof (cases x)
      case (Inl e)
      then show ?thesis using that(2) read Inr run out \<open>parsed = Inr request\<close> by simp
    next
      case (Inr r)
      then show ?thesis using that(3,4) read run out \<open>parsed = Inr request\<close>
        by (cases "dec_selected_model_alias (res_decision r)") simp_all
    qed
  qed
qed

lemma handle_inference_proper:
  assumes "handle_inference env event i svc s = (Inr resp, s')"
  shows "proper_response resp"
  using assms read_request_error_response[of env event i resp]
  by (cases rule: handle_inference_cases) (simp_all add: proper_respond api_statuses_def serializable)

lemma handle_routes_evaluate_proper:
  assumes "handle_routes_evaluate env event i svc s = (Inr resp, s')"
  shows "proper_response resp"
proof -
  obtain parsed where read: "read_request env event i = Inr parsed"
    using assms by (cases "read_request env event i") (auto simp: handle_routes_evaluate_def io_run)
  show ?thesis
  proof (cases parsed)
    case (Inl error)
    then show ?thesis using assms read read_request_error_response by (auto simp: handle_routes_evaluate_def io_run)
  next
    case (Inr request)
    obtain x s1 where run: "evaluate_route (hs_route_service svc) request s = (x, s1)" by (rule prod.exhaust)
    show ?thesis
      using assms read Inr run
      by (cases x) (auto simp: handle_routes_evaluate_def io_run proper_respond api_statuses_def serializable)
  qed
qed

lemma handle_get_decision_proper:
  "handle_get_decision event i svc s = (Inr resp, s') \<Longrightarrow> proper_response resp"
  by (auto simp: handle_get_decision_def io_inv proper_respond api_statuses_def serializable
      split: if_splits option.splits)

lemma route_event_proper:
  assumes "route_event env svc event i t s = (Inr resp, s')"
  shows "proper_response resp"
  using assms handle_models_response[of i svc]
  unfolding route_event_def
  by (auto simp: io_inv serializable proper_respond api_statuses_def split: if_splits
      dest: handle_inference_proper handle_routes_evaluate_proper handle_get_decision_proper)

section \<open>Dispatch never raises\<close>

text \<open>
  What the code outside the \<open>try\<close> of \<open>dispatch\<close> relies on, and API Gateway documents: the event and
  its request context are objects, and so is the identity where there is one.
\<close>

definition is_dict :: "pyval \<Rightarrow> bool" where
  "is_dict v \<longleftrightarrow> (case v of PV_Dict kvs \<Rightarrow> True | _ \<Rightarrow> False)"

definition proxy_event :: "pyval \<Rightarrow> bool" where
  "proxy_event event \<longleftrightarrow>
     (case event of
        PV_Dict kvs \<Rightarrow>
          (case map_of kvs ''requestContext'' of
             None \<Rightarrow> True
           | Some (PV_Dict cs) \<Rightarrow>
               (case map_of cs ''identity'' of None \<Rightarrow> True | Some v \<Rightarrow> truthy v \<longrightarrow> is_dict v)
           | Some _ \<Rightarrow> False)
      | _ \<Rightarrow> False)"

lemma proxy_event_reads:
  assumes "proxy_event event"
  obtains i m r arn where "request_id_of env event = Inr i" "get_or event ''httpMethod'' (PV_Str []) = Inr m"
    "get_or event ''resource'' (PV_Str []) = Inr r" "caller_principal_arn env event = Inr arn"
proof -
  obtain kvs where kvs: "event = PV_Dict kvs" using assms by (cases event) (auto simp: proxy_event_def)
  obtain cs where cs: "get_or event ''requestContext'' (PV_Dict []) = Inr (PV_Dict cs)"
      "\<And>v. map_of cs ''identity'' = Some v \<Longrightarrow> truthy v \<Longrightarrow> is_dict v"
  proof (cases "map_of kvs ''requestContext''")
    case None
    then show ?thesis using that[of "[]"] by (simp add: kvs)
  next
    case (Some v)
    then show ?thesis using that assms by (cases v) (auto simp: kvs proxy_event_def split: option.splits)
  qed
  have "\<exists>ids. or_empty (case map_of cs ''identity'' of None \<Rightarrow> PV_Dict [] | Some v \<Rightarrow> v) = PV_Dict ids"
    using cs(2) by (auto simp: or_empty_def is_dict_def split: option.split pyval.splits)
  then have "\<exists>arn. caller_principal_arn env event = Inr arn" by (auto simp: caller_principal_arn_def cs(1))
  moreover have "\<exists>i. request_id_of env event = Inr i" by (simp add: request_id_of_def cs(1))
  ultimately show ?thesis using that by (auto simp: kvs)
qed

lemma dispatch_run:
  assumes "request_id_of env event = Inr i" "get_or event ''httpMethod'' (PV_Str []) = Inr m"
    "get_or event ''resource'' (PV_Str []) = Inr r" "caller_principal_arn env event = Inr arn"
  shows "dispatch env event svc s =
    (case route_event env svc event i (m, r) s of
       (Inr resp, s') \<Rightarrow> (Inr resp, s')
     | (Inl e, s') \<Rightarrow> (Inr (respond 500 (error_response_body i ''INTERNAL_ERROR'' ''An unexpected error occurred.'' None)), s'))"
  using assms by (simp add: dispatch_def io_run split: prod.split sum.split)

text \<open>
  C22. Whatever the collaborators do, an API Gateway event is answered: dispatching never raises, the
  status is one of the documented ones, and the body holds no value the JSON encoder would refuse,
  so serializing the response cannot raise either.
\<close>

theorem dispatch_always_answers:
  assumes "proxy_event event"
  shows "\<exists>resp s'. dispatch env event svc s = (Inr resp, s') \<and>
    rsp_status_code resp \<in> {200, 400, 402, 403, 404, 409, 422, 500, 502} \<and> json_safe (rsp_body resp)"
proof -
  obtain i m r arn where reads: "request_id_of env event = Inr i" "get_or event ''httpMethod'' (PV_Str []) = Inr m"
    "get_or event ''resource'' (PV_Str []) = Inr r" "caller_principal_arn env event = Inr arn"
    using assms by (rule proxy_event_reads)
  obtain x s' where run: "route_event env svc event i (m, r) s = (x, s')" by (rule prod.exhaust)
  have "\<exists>resp. dispatch env event svc s = (Inr resp, s') \<and> proper_response resp"
  proof (cases x)
    case (Inl e)
    then show ?thesis by (simp add: dispatch_run[OF reads] run proper_respond api_statuses_def serializable)
  next
    case (Inr resp)
    then show ?thesis using route_event_proper run by (auto simp: dispatch_run[OF reads])
  qed
  then show ?thesis by (auto simp: proper_response_def api_statuses_def)
qed

end
