(* ===== verification/Provider_Common.thy ===== *)
theory Provider_Common
  imports Request_Hash Local_Config Ports Py_Value
begin

text \<open>
  \<open>src/adapters/common/\<close>: catalogue resolution, capability checks, fixed error messages and the
  bounded retry with full-jitter backoff that both provider adapters use around their client.  The
  loop is a function with a termination proof; its specification counts the calls it makes.
\<close>

section \<open>Messages\<close>

fun safe_message_for :: "provider_error_category \<Rightarrow> str" where
  "safe_message_for Category_THROTTLED = ''The model provider throttled this request.''"
| "safe_message_for Category_TRANSIENT = ''The model provider returned a transient error.''"
| "safe_message_for Category_TIMEOUT = ''The model provider timed out.''"
| "safe_message_for Category_PERMANENT = ''The model provider rejected this request.''"

definition permanent_error :: "str \<Rightarrow> exn" where
  "permanent_error m = ProviderError m Category_PERMANENT"

definition malformed_response_message :: str where
  "malformed_response_message = ''The model provider returned a malformed response.''"

section \<open>Catalogue resolution\<close>

definition resolve_model :: "str \<Rightarrow> model_catalogue \<Rightarrow> model_definition result" where
  "resolve_model model_alias catalogue =
     (case mc_get_by_alias catalogue model_alias of
        None \<Rightarrow> Inl (permanent_error (''Unknown model alias: '' @ py_repr model_alias))
      | Some model \<Rightarrow> Inr model)"

definition resolve_target_model_id :: "model_definition \<Rightarrow> model_catalogue \<Rightarrow> str result" where
  "resolve_target_model_id model catalogue =
     (let unresolved = Inl (permanent_error
            (''Router alias '' @ py_repr (md_model_alias model) @ '' does not resolve to an invocable model.''))
      in if mr_type (md_resolution model) \<noteq> Resolution_ROUTER_ALIAS then Inr (mr_value (md_resolution model))
         else case mc_get_by_alias catalogue (mr_value (md_resolution model)) of
                None \<Rightarrow> unresolved
              | Some target \<Rightarrow>
                  if mr_type (md_resolution target) = Resolution_ROUTER_ALIAS then unresolved
                  else Inr (mr_value (md_resolution target)))"

definition check_capabilities :: "provider_request \<Rightarrow> model_definition \<Rightarrow> unit result" where
  "check_capabilities request model =
     (if pr_requires_tool_use request \<and> \<not> cap_supports_tool_use (md_capabilities model)
      then Inl (permanent_error
        (''Model alias '' @ py_repr (md_model_alias model) @ '' does not support tool use.''))
      else if pr_requires_structured_output request \<and> \<not> cap_supports_structured_output (md_capabilities model)
      then Inl (permanent_error
        (''Model alias '' @ py_repr (md_model_alias model) @ '' does not support structured output.''))
      else Inr ())"

text \<open>The three steps both adapters start with.\<close>

definition resolve_request ::
  "model_catalogue \<Rightarrow> provider_request \<Rightarrow> (model_definition \<times> str) result" where
  "resolve_request catalogue request =
     bind_r (resolve_model (pr_model_alias request) catalogue) (\<lambda>model.
     bind_r (check_capabilities request model) (\<lambda>_.
     bind_r (resolve_target_model_id model catalogue) (\<lambda>target. Inr (model, target))))"

section \<open>Backoff\<close>

record retry_policy =
  rty_max_attempts :: int
  rty_base_delay_seconds :: rat
  rty_max_delay_seconds :: rat

definition default_retry_policy :: retry_policy where
  "default_retry_policy = \<lparr>rty_max_attempts = 3, rty_base_delay_seconds = 1 / 2, rty_max_delay_seconds = 8\<rparr>"

definition compute_backoff_delay :: "nat \<Rightarrow> retry_policy \<Rightarrow> rat \<Rightarrow> rat" where
  "compute_backoff_delay attempt_number policy jitter_fraction =
     (let capped_delay = min (rty_max_delay_seconds policy)
            (float_round (rty_base_delay_seconds policy * 2 ^ (attempt_number - 1)))
      in float_round (capped_delay * jitter_fraction))"

section \<open>The retry loop\<close>

definition retryable_categories :: "provider_error_category list" where
  "retryable_categories = [Category_THROTTLED, Category_TRANSIENT, Category_TIMEOUT]"

record 's retry_env =
  re_policy :: retry_policy
  re_sleep :: "rat \<Rightarrow> ('s, unit) op"
  re_jitter :: "('s, rat) op"

text \<open>
  \<open>while True: attempt += 1; try: call() ...\<close>; \<open>caught\<close> is the \<open>except\<close> clause with the
  classification of what it catches.  The first attempt is number one.
\<close>

function with_retries ::
  "'s retry_env \<Rightarrow> (exn \<Rightarrow> provider_error_category option) \<Rightarrow> ('s, 'a) op \<Rightarrow> nat \<Rightarrow> ('s, 'a) op" where
  "with_retries env caught call n =
     bind_io (attempt_io call) (\<lambda>outcome.
       case outcome of
         Inr x \<Rightarrow> return_io x
       | Inl e \<Rightarrow>
           (case caught e of
              None \<Rightarrow> raise_io e
            | Some category \<Rightarrow>
                if category \<notin> set retryable_categories \<or> rty_max_attempts (re_policy env) \<le> int n
                then raise_io (ProviderError (safe_message_for category) category)
                else bind_io (re_jitter env) (\<lambda>j.
                     bind_io (re_sleep env (compute_backoff_delay n (re_policy env) j)) (\<lambda>_.
                     with_retries env caught call (Suc n)))))"
  by pat_completeness auto
termination
  by (relation "measure (\<lambda>(env, caught, call, n). nat (rty_max_attempts (re_policy env) - int n))") auto

declare with_retries.simps [simp del]

section \<open>Resolution is total and permanent\<close>

lemma resolve_request_error: "resolve_request cat pr = Inl e \<Longrightarrow> provider_error_category_of e = Some Category_PERMANENT"
  by (auto simp: resolve_request_def resolve_model_def resolve_target_model_id_def check_capabilities_def
      permanent_error_def Let_def bind_r_def split: option.splits if_splits sum.splits)

lemma resolve_request_Inr:
  assumes "resolve_request cat pr = Inr (m, target)"
  shows "mc_get_by_alias cat (pr_model_alias pr) = Some m"
    and "pr_requires_tool_use pr \<Longrightarrow> cap_supports_tool_use (md_capabilities m)"
    and "pr_requires_structured_output pr \<Longrightarrow> cap_supports_structured_output (md_capabilities m)"
    and "\<exists>m'. (m' = m \<or> mr_type (md_resolution m) = Resolution_ROUTER_ALIAS \<and>
          mc_get_by_alias cat (mr_value (md_resolution m)) = Some m') \<and>
        mr_type (md_resolution m') \<noteq> Resolution_ROUTER_ALIAS \<and> target = mr_value (md_resolution m')"
  using assms
  by (auto simp: resolve_request_def resolve_model_def resolve_target_model_id_def check_capabilities_def
      Let_def split: option.splits if_splits)

section \<open>The backoff stays within its cap\<close>

text \<open>
  The delay before a retry is never negative and never above the configured maximum, in
  floating point, for every attempt and every jitter fraction: the product is rounded only after
  it was capped, and the cap is itself a floating-point number.
\<close>

theorem backoff_within_cap:
  assumes "0 \<le> j" and "j \<le> 1" and "0 \<le> rty_base_delay_seconds p" and "0 \<le> rty_max_delay_seconds p"
    and "float_round (rty_base_delay_seconds p) = rty_base_delay_seconds p"
    and "float_round (rty_max_delay_seconds p) = rty_max_delay_seconds p"
  shows "0 \<le> compute_backoff_delay n p j \<and> compute_backoff_delay n p j \<le> rty_max_delay_seconds p \<and>
    compute_backoff_delay n p j \<le> rty_base_delay_seconds p * 2 ^ (n - 1)"
proof -
  let ?b = "rty_base_delay_seconds p * 2 ^ (n - 1)"
  have b: "float_round ?b = ?b" using float_round_scale[OF assms(3)] assms(5) by simp
  define c where "c = min (rty_max_delay_seconds p) ?b"
  have c: "0 \<le> c" "float_round c = c" "c \<le> rty_max_delay_seconds p" "c \<le> ?b"
    using assms(3,4,6) b by (auto simp: c_def min_def)
  have "0 \<le> c * j" "c * j \<le> c" using c(1) assms(1,2) by (simp_all add: mult_left_le)
  then have "0 \<le> float_round (c * j)" "float_round (c * j) \<le> c"
    using float_round_nonneg float_round_mono[of "c * j" c] c(2) by simp_all
  then show ?thesis using c(3,4) unfolding compute_backoff_delay_def Let_def b c_def[symmetric] by simp
qed

theorem backoff_within_cap_witness:
  "compute_backoff_delay 9 default_retry_policy (3 / 4) \<le> 8"
proof -
  have "float_round (1 / 2) * 2 ^ 1 = float_round 1" using float_round_scale[of "1 / 2" 1] by simp
  then have h: "float_round (1 / 2) = 1 / 2" using float_round_of_int[of 1] by simp
  have "float_round 8 = 8" using float_round_of_int[of 8] by simp
  then show ?thesis
    using backoff_within_cap[of "3 / 4" default_retry_policy 9] h by (simp add: default_retry_policy_def)
qed

section \<open>What the loop does\<close>

text \<open>
  \<open>calls\<close> counts in the state: a call of the client adds one, drawing the jitter and sleeping
  leave it alone.
\<close>

definition counts_calls :: "('s \<Rightarrow> nat) \<Rightarrow> 's retry_env \<Rightarrow> ('s, 'a) op \<Rightarrow> bool" where
  "counts_calls calls env call \<longleftrightarrow>
     (\<forall>s r s'. call s = (r, s') \<longrightarrow> calls s' = Suc (calls s)) \<and>
     (\<forall>k. preserves_io (\<lambda>s. calls s = k) (re_jitter env)) \<and>
     (\<forall>d k. preserves_io (\<lambda>s. calls s = k) (re_sleep env d))"

definition pauses_return :: "'s retry_env \<Rightarrow> bool" where
  "pauses_return env \<longleftrightarrow> total_io (re_jitter env) \<and> (\<forall>d. total_io (re_sleep env d))"

text \<open>What the loop makes of the outcome \<open>x\<close> of the last call, the one with number \<open>k\<close>.\<close>

fun retry_verdict ::
  "(exn \<Rightarrow> provider_error_category option) \<Rightarrow> int \<Rightarrow> int \<Rightarrow> 'a result \<Rightarrow> 'a result \<Rightarrow> bool" where
  "retry_verdict caught max_attempts k (Inr y) r \<longleftrightarrow> r = Inr y"
| "retry_verdict caught max_attempts k (Inl e) r \<longleftrightarrow>
     (case caught e of
        None \<Rightarrow> r = Inl e
      | Some c \<Rightarrow> r = Inl (ProviderError (safe_message_for c) c) \<and>
          (c \<in> set retryable_categories \<longrightarrow> max_attempts \<le> k))"

lemma with_retries_outcome:
  assumes "counts_calls calls env call" and "pauses_return env" and "with_retries env caught call n s = (r, s')"
  shows "calls s < calls s' \<and> calls s' \<le> calls s + nat (max 1 (rty_max_attempts (re_policy env) - int n + 1)) \<and>
    (\<exists>t x. call t = (x, s') \<and>
       retry_verdict caught (rty_max_attempts (re_policy env)) (int n + int (calls s' - calls s) - 1) x r)"
  using assms
proof (induction env caught call n arbitrary: s rule: with_retries.induct)
  case (1 env caught call n)
  obtain x s1 where x: "call s = (x, s1)" by (rule prod.exhaust)
  have s1: "calls s1 = Suc (calls s)" using "1.prems"(1) x by (auto simp: counts_calls_def)
  show ?case
  proof (cases "\<exists>e c. x = Inl e \<and> caught e = Some c \<and> c \<in> set retryable_categories \<and>
      \<not> rty_max_attempts (re_policy env) \<le> int n")
    case False
    then have "s' = s1 \<and> retry_verdict caught (rty_max_attempts (re_policy env)) (int n) x r"
      using "1.prems"(3) x
      by (subst (asm) with_retries.simps) (cases x, auto simp: io_run split: option.splits if_splits)
    then show ?thesis using x s1 by auto
  next
    case True
    then obtain e c where e: "x = Inl e" "caught e = Some c" "c \<in> set retryable_categories"
      "\<not> rty_max_attempts (re_policy env) \<le> int n" by blast
    obtain j s2 where j: "re_jitter env s1 = (Inr j, s2)"
      using "1.prems"(2) unfolding pauses_return_def by (meson total_ioE)
    obtain u s3 where u: "re_sleep env (compute_backoff_delay n (re_policy env) j) s2 = (Inr u, s3)"
      using "1.prems"(2) unfolding pauses_return_def by (meson total_ioE)
    have keep: "preserves_io (\<lambda>s. calls s = k) (re_jitter env)" "preserves_io (\<lambda>s. calls s = k) (re_sleep env d)" for k d
      using "1.prems"(1) by (simp_all add: counts_calls_def)
    have s3: "calls s3 = Suc (calls s)"
      using preserves_ioD[OF keep(2) preserves_ioD[OF keep(1) s1 j] u] .
    have run: "with_retries env caught call (Suc n) s3 = (r, s')"
      using "1.prems"(3) x e j u by (subst (asm) with_retries.simps) (simp add: io_run)
    have again: "\<not> (c \<notin> set retryable_categories \<or> rty_max_attempts (re_policy env) \<le> int n)" using e(3,4) by simp
    note ih = "1.IH"[OF e(2) again "1.prems"(1,2) run, unfolded s3]
    have lt: "Suc (calls s) < calls s'" using ih by blast
    then have eq: "int (Suc n) + int (calls s' - Suc (calls s)) - 1 = int n + int (calls s' - calls s) - 1" by simp
    have "calls s' \<le> calls s + nat (max 1 (rty_max_attempts (re_policy env) - int n + 1))"
      using conjunct1[OF conjunct2[OF ih]] e(4) by (simp add: max_def split: if_splits)
    then show ?thesis using lt conjunct2[OF conjunct2[OF ih], unfolded eq] by (intro conjI) simp_all
  qed
qed

text \<open>The same without a counter.\<close>

lemma with_retries_last:
  assumes "pauses_return env" and "with_retries env caught call n s = (r, s')"
  shows "\<exists>t x k. call t = (x, s') \<and> retry_verdict caught (rty_max_attempts (re_policy env)) k x r"
  using assms
proof (induction env caught call n arbitrary: s rule: with_retries.induct)
  case (1 env caught call n)
  obtain x s1 where x: "call s = (x, s1)" by (rule prod.exhaust)
  show ?case
  proof (cases "\<exists>e c. x = Inl e \<and> caught e = Some c \<and> c \<in> set retryable_categories \<and>
      \<not> rty_max_attempts (re_policy env) \<le> int n")
    case False
    then have "s' = s1 \<and> retry_verdict caught (rty_max_attempts (re_policy env)) (int n) x r"
      using "1.prems"(2) x
      by (subst (asm) with_retries.simps) (cases x, auto simp: io_run split: option.splits if_splits)
    then show ?thesis using x by blast
  next
    case True
    then obtain e c where e: "x = Inl e" "caught e = Some c" "c \<in> set retryable_categories"
      "\<not> rty_max_attempts (re_policy env) \<le> int n" by blast
    obtain j s2 where j: "re_jitter env s1 = (Inr j, s2)"
      using "1.prems"(1) unfolding pauses_return_def by (meson total_ioE)
    obtain u s3 where u: "re_sleep env (compute_backoff_delay n (re_policy env) j) s2 = (Inr u, s3)"
      using "1.prems"(1) unfolding pauses_return_def by (meson total_ioE)
    have run: "with_retries env caught call (Suc n) s3 = (r, s')"
      using "1.prems"(2) x e j u by (subst (asm) with_retries.simps) (simp add: io_run)
    have again: "\<not> (c \<notin> set retryable_categories \<or> rty_max_attempts (re_policy env) \<le> int n)" using e(3,4) by simp
    show ?thesis using "1.IH"[OF e(2) again "1.prems"(1) run] .
  qed
qed

section \<open>The shape both adapters share\<close>

text \<open>
  An adapter resolves the request, calls its client with retries and reads the answer; \<open>call\<close> is
  the client applied to the payload built for the resolved model, \<open>parse\<close> reads its answer.
\<close>

locale retrying_adapter =
  fixes invoke :: "provider_request \<Rightarrow> ('s, provider_response) op" and catalogue :: model_catalogue
    and env :: "'s retry_env" and caught :: "exn \<Rightarrow> provider_error_category option"
    and call :: "provider_request \<Rightarrow> str \<Rightarrow> ('s, 'raw) op"
    and parse :: "provider_request \<Rightarrow> model_definition \<Rightarrow> 'raw \<Rightarrow> provider_response result"
  assumes invoke_shape: "invoke request =
      bind_io (lift_r (resolve_request catalogue request)) (\<lambda>(m, target).
      bind_io (with_retries env caught (call request target) 1) (\<lambda>raw. lift_r (parse request m raw)))"
begin

lemma invoke_unresolved:
  "resolve_request catalogue request = Inl e \<Longrightarrow> invoke request s = (Inl e, s)"
  by (simp add: invoke_shape io_run)

lemma invoke_resolved:
  assumes "resolve_request catalogue request = Inr (m, target)"
    and "with_retries env caught (call request target) 1 s = (y, s')"
  shows "invoke request s = (bind_r y (parse request m), s')"
  using assms(2) unfolding invoke_shape assms(1) bind_lift_Inr by (cases y; simp add: io_run)

lemma retries_bounded:
  assumes counts: "\<And>target. counts_calls calls env (call request target)" and "pauses_return env"
    and run: "invoke request s = (r, s')"
  defines "max_attempts \<equiv> rty_max_attempts (re_policy env)"
  shows "case resolve_request catalogue request of
      Inl e \<Rightarrow> r = Inl e \<and> provider_error_category_of e = Some Category_PERMANENT \<and> s' = s
    | Inr (m, target) \<Rightarrow>
        calls s < calls s' \<and> int (calls s' - calls s) \<le> max 1 max_attempts \<and>
        (\<exists>t x y. call request target t = (x, s') \<and>
           retry_verdict caught max_attempts (int (calls s' - calls s)) x y \<and> r = bind_r y (parse request m))"
proof (cases "resolve_request catalogue request")
  case (Inl e)
  then show ?thesis using run invoke_unresolved[OF Inl] resolve_request_error[OF Inl] by simp
next
  case (Inr mt)
  obtain m target where mt: "mt = (m, target)" by (rule prod.exhaust)
  obtain y s1 where y: "with_retries env caught (call request target) 1 s = (y, s1)" by (rule prod.exhaust)
  have s1: "s1 = s'" and r: "r = bind_r y (parse request m)"
    using run invoke_resolved[OF Inr[unfolded mt] y] by simp_all
  note out = with_retries_outcome[OF counts assms(2) y, unfolded s1, folded max_attempts_def]
  have "int (calls s' - calls s) \<le> max 1 max_attempts" using out by (auto simp: max_def split: if_splits)
  moreover have "int 1 + int (calls s' - calls s) - 1 = int (calls s' - calls s)" by simp
  ultimately have "calls s < calls s'" "int (calls s' - calls s) \<le> max 1 max_attempts"
    "\<exists>t x. call request target t = (x, s') \<and> retry_verdict caught max_attempts (int (calls s' - calls s)) x y"
    using out by (simp_all only:)
  then show ?thesis unfolding Inr mt r sum.case prod.case by blast
qed

text \<open>
  Nothing but provider errors leaves the adapter when the client raises nothing but the exceptions
  the adapter catches and the answers can be read up to provider errors.
\<close>

lemma raises_provider_errors:
  assumes "\<And>request target s e s'. call request target s = (Inl e, s') \<Longrightarrow> caught e \<noteq> None"
    and "\<And>request m target s raw s' e. call request target s = (Inr raw, s') \<Longrightarrow>
      parse request m raw = Inl e \<Longrightarrow> provider_error_category_of e \<noteq> None"
    and "pauses_return env" and "invoke request s = (Inl e, s')"
  shows "provider_error_category_of e \<noteq> None"
proof (cases "resolve_request catalogue request")
  case (Inl e')
  then show ?thesis using assms(4) invoke_unresolved[OF Inl] resolve_request_error[OF Inl] by simp
next
  case (Inr mt)
  obtain m target where mt: "mt = (m, target)" by (rule prod.exhaust)
  obtain y s1 where y: "with_retries env caught (call request target) 1 s = (y, s1)" by (rule prod.exhaust)
  have s1: "s1 = s'" and r: "bind_r y (parse request m) = Inl e"
    using assms(4) invoke_resolved[OF Inr[unfolded mt] y] by simp_all
  obtain t x k where x: "call request target t = (x, s')" "retry_verdict caught (rty_max_attempts (re_policy env)) k x y"
    using with_retries_last[OF assms(3) y] unfolding s1 by blast
  show ?thesis
  proof (cases x)
    case (Inl e')
    then obtain c where "caught e' = Some c" using assms(1) x(1) by blast
    then show ?thesis using x(2) r Inl by auto
  next
    case (Inr raw)
    then have "parse request m raw = Inl e" using x(2) r by simp
    then show ?thesis using assms(2) x(1) Inr by blast
  qed
qed

end

end
