(* ===== verification/Bedrock_Provider.thy ===== *)
theory Bedrock_Provider
  imports Provider_Common
begin

text \<open>
  \<open>src/adapters/bedrock/\<close>: the mapping between the domain's requests and responses and the
  Converse API, the classification of the client's exceptions and the provider itself.  The client
  is a parameter; what it returns is an untyped value, and every way in which reading it can fail
  is a branch.
\<close>

section \<open>Error mapping\<close>

definition throttled_codes :: "str list" where
  "throttled_codes = [''ThrottlingException'', ''TooManyRequestsException'']"

definition timeout_codes :: "str list" where
  "timeout_codes = [''ModelTimeoutException'']"

definition transient_codes :: "str list" where
  "transient_codes = [''ServiceUnavailableException'', ''InternalServerException'', ''ModelNotReadyException'']"

definition classify_client_error :: "str \<Rightarrow> provider_error_category" where
  "classify_client_error code =
     (if code \<in> set throttled_codes then Category_THROTTLED
      else if code \<in> set timeout_codes then Category_TIMEOUT
      else if code \<in> set transient_codes then Category_TRANSIENT
      else Category_PERMANENT)"

fun bedrock_classify :: "exn \<Rightarrow> provider_error_category" where
  "bedrock_classify (Client_Error code) = classify_client_error code"
| "bedrock_classify (Boto_Core_Error Connect_Timeout) = Category_TIMEOUT"
| "bedrock_classify (Boto_Core_Error Read_Timeout) = Category_TIMEOUT"
| "bedrock_classify (Boto_Core_Error Other_Boto_Core) = Category_TRANSIENT"
| "bedrock_classify _ = Category_PERMANENT"

text \<open>\<open>except (ClientError, BotoCoreError)\<close>.\<close>

fun bedrock_caught :: "exn \<Rightarrow> provider_error_category option" where
  "bedrock_caught (Client_Error code) = Some (bedrock_classify (Client_Error code))"
| "bedrock_caught (Boto_Core_Error b) = Some (bedrock_classify (Boto_Core_Error b))"
| "bedrock_caught _ = None"

section \<open>The Converse mapping\<close>

definition stop_reason_map :: "(str \<times> stop_reason) list" where
  "stop_reason_map =
     [(''end_turn'', Stop_END_TURN), (''max_tokens'', Stop_MAX_TOKENS), (''stop_sequence'', Stop_STOP_SEQUENCE),
      (''tool_use'', Stop_TOOL_USE), (''content_filtered'', Stop_CONTENT_FILTERED),
      (''guardrail_intervened'', Stop_GUARDRAIL_INTERVENED)]"

text \<open>\<open>dict.get\<close> of any value: an unhashable one raises \<open>TypeError\<close>.\<close>

definition map_stop_reason :: "pyval \<Rightarrow> stop_reason result" where
  "map_stop_reason raw =
     (if \<not> hashable raw then Inl Type_Error
      else case raw of
             PV_Str s \<Rightarrow> (case map_of stop_reason_map s of None \<Rightarrow> Inr Stop_OTHER | Some r \<Rightarrow> Inr r)
           | _ \<Rightarrow> Inr Stop_OTHER)"

definition opt_entry :: "str \<Rightarrow> ('a \<Rightarrow> pyval) \<Rightarrow> 'a option \<Rightarrow> (str \<times> pyval) list" where
  "opt_entry k f x = (case x of None \<Rightarrow> [] | Some a \<Rightarrow> [(k, f a)])"

text \<open>\<open>if request.system_prompt\<close>: neither \<open>None\<close> nor empty.\<close>

definition prompt_of :: "str option \<Rightarrow> str option" where
  "prompt_of p = (if p = Some [] then None else p)"

definition converse_message :: "message \<Rightarrow> pyval" where
  "converse_message m =
     PV_Dict [(''role'', PV_Str (role_value (msg_role m))),
              (''content'', PV_List [PV_Dict [(''text'', PV_Str (msg_content m))]])]"

definition build_converse_request :: "provider_request \<Rightarrow> str \<Rightarrow> pyval" where
  "build_converse_request request target_model_id =
     PV_Dict
       ([(''modelId'', PV_Str target_model_id),
         (''messages'', PV_List (map converse_message (pr_messages request))),
         (''inferenceConfig'', PV_Dict
            ([(''maxTokens'', PV_Int (pr_max_output_tokens request))]
             @ opt_entry ''temperature'' PV_Float (pr_temperature request)
             @ opt_entry ''topP'' PV_Float (pr_top_p request)))]
        @ opt_entry ''system'' (\<lambda>p. PV_List [PV_Dict [(''text'', PV_Str p)]]) (prompt_of (pr_system_prompt request)))"

text \<open>\<open>block["text"] for block in content_blocks if "text" in block\<close>, joined.\<close>

definition block_text :: "pyval \<Rightarrow> str result" where
  "block_text block =
     bind_r (py_in ''text'' block) (\<lambda>b.
       if b then bind_r (py_item block ''text'') py_as_str else Inr [])"

definition join_blocks :: "pyval \<Rightarrow> str result" where
  "join_blocks blocks = bind_r (py_iter blocks) (\<lambda>bs. bind_r (map_r block_text bs) (\<lambda>ts. Inr (concat ts)))"

definition read_converse_response :: "pyval \<Rightarrow> (str \<times> pyval \<times> pyval \<times> pyval) result" where
  "read_converse_response raw =
     bind_r (py_item raw ''output'') (\<lambda>out.
     bind_r (py_item out ''message'') (\<lambda>message_raw.
     bind_r (py_item message_raw ''content'') (\<lambda>content_blocks.
     bind_r (join_blocks content_blocks) (\<lambda>text.
     bind_r (py_item raw ''stopReason'') (\<lambda>stop_reason_raw.
     bind_r (py_item raw ''usage'') (\<lambda>usage_raw.
     bind_r (py_item usage_raw ''inputTokens'') (\<lambda>input_tokens.
     bind_r (py_item usage_raw ''outputTokens'') (\<lambda>output_tokens.
       Inr (text, stop_reason_raw, input_tokens, output_tokens)))))))))"

definition malformed_response :: exn where
  "malformed_response = permanent_error malformed_response_message"

definition coerce_usage :: "coercions \<Rightarrow> pyval \<Rightarrow> pyval \<Rightarrow> usage result" where
  "coerce_usage co input_tokens output_tokens =
     bind_r (field (co_int co) input_tokens) (\<lambda>i.
     bind_r (field (co_int co) output_tokens) (\<lambda>n. mk_usage i n))"

definition parse_converse_response ::
  "coercions \<Rightarrow> pyval \<Rightarrow> str \<Rightarrow> provider_name \<Rightarrow> provider_response result" where
  "parse_converse_response co raw model_alias provider =
     bind_r (case read_converse_response raw of
               Inl e \<Rightarrow> Inl (if e = Key_Error \<or> e = Type_Error then malformed_response else e)
             | Inr x \<Rightarrow> Inr x) (\<lambda>(text, stop_reason_raw, input_tokens, output_tokens).
     bind_r (map_stop_reason stop_reason_raw) (\<lambda>stop.
     bind_r (coerce_usage co input_tokens output_tokens) (\<lambda>u.
       Inr \<lparr>ps_model_alias = model_alias, ps_provider = provider,
            ps_message = \<lparr>msg_role = Role_ASSISTANT, msg_content = text\<rparr>,
            ps_stop_reason = stop, ps_usage = u\<rparr>)))"

section \<open>The event stream\<close>

text \<open>
  A stream of raw events: the events and how it ends, exhausted or raising.  A generator over it
  is the chunks it yields and how it ends in turn.
\<close>

type_synonym raw_stream = "pyval list \<times> exn option"
type_synonym chunk_stream = "provider_response_chunk list \<times> exn option"

definition text_chunk :: "str \<Rightarrow> provider_response_chunk" where
  "text_chunk t = \<lparr>ch_delta_text = t, ch_is_final = False, ch_stop_reason = None, ch_usage = None\<rparr>"

definition final_chunk :: "stop_reason \<Rightarrow> usage \<Rightarrow> provider_response_chunk" where
  "final_chunk r u = \<lparr>ch_delta_text = [], ch_is_final = True, ch_stop_reason = Some r, ch_usage = Some u\<rparr>"

text \<open>The three local variables of the generator; \<open>None\<close> and the value \<open>None\<close> are the same.\<close>

record stream_totals =
  tot_stop_reason :: pyval
  tot_input_tokens :: pyval
  tot_output_tokens :: pyval

definition no_totals :: stream_totals where
  "no_totals = \<lparr>tot_stop_reason = PV_None, tot_input_tokens = PV_None, tot_output_tokens = PV_None\<rparr>"

text \<open>One event: the text to yield, if any, and the totals.\<close>

definition converse_event :: "coercions \<Rightarrow> pyval \<Rightarrow> stream_totals \<Rightarrow> (str option \<times> stream_totals) result" where
  "converse_event co event tot =
     bind_r (py_in ''contentBlockDelta'' event) (\<lambda>is_delta.
     if is_delta then
       bind_r (py_item event ''contentBlockDelta'') (\<lambda>d.
       bind_r (get_or d ''delta'' (PV_Dict [])) (\<lambda>delta.
       bind_r (get_or delta ''text'' PV_None) (\<lambda>text.
         if truthy text then bind_r (field (co_str co) text) (\<lambda>t. Inr (Some t, tot)) else Inr (None, tot))))
     else bind_r (py_in ''messageStop'' event) (\<lambda>is_stop.
     if is_stop then
       bind_r (py_item event ''messageStop'') (\<lambda>m.
       bind_r (py_item m ''stopReason'') (\<lambda>r. Inr (None, tot\<lparr>tot_stop_reason := r\<rparr>)))
     else bind_r (py_in ''metadata'' event) (\<lambda>is_meta.
     if is_meta then
       bind_r (py_item event ''metadata'') (\<lambda>m.
       bind_r (get_or m ''usage'' PV_None) (\<lambda>u.
         if u = PV_None then Inr (None, tot)
         else bind_r (py_item u ''inputTokens'') (\<lambda>i.
              bind_r (py_item u ''outputTokens'') (\<lambda>n.
                Inr (None, tot\<lparr>tot_input_tokens := i, tot_output_tokens := n\<rparr>)))))
     else Inr (None, tot))))"

definition finish_totals :: "coercions \<Rightarrow> stream_totals \<Rightarrow> chunk_stream" where
  "finish_totals co tot =
     (if tot_stop_reason tot = PV_None \<or> tot_input_tokens tot = PV_None \<or> tot_output_tokens tot = PV_None
      then ([], Some malformed_response)
      else case bind_r (map_stop_reason (tot_stop_reason tot)) (\<lambda>r.
                bind_r (coerce_usage co (tot_input_tokens tot) (tot_output_tokens tot)) (\<lambda>u. Inr (final_chunk r u))) of
             Inl e \<Rightarrow> ([], Some e)
           | Inr c \<Rightarrow> ([c], None))"

fun converse_events :: "coercions \<Rightarrow> stream_totals \<Rightarrow> pyval list \<Rightarrow> exn option \<Rightarrow> chunk_stream" where
  "converse_events co tot [] (Some e) = ([], Some e)"
| "converse_events co tot [] None = finish_totals co tot"
| "converse_events co tot (event # events) fin =
     (case converse_event co event tot of
        Inl e \<Rightarrow> ([], Some e)
      | Inr (t, tot') \<Rightarrow>
          (case converse_events co tot' events fin of
             (cs, e) \<Rightarrow> ((case t of None \<Rightarrow> cs | Some x \<Rightarrow> text_chunk x # cs), e)))"

definition iter_converse_stream_events :: "coercions \<Rightarrow> raw_stream \<Rightarrow> chunk_stream" where
  "iter_converse_stream_events co events = converse_events co no_totals (fst events) (snd events)"

section \<open>The provider\<close>

text \<open>
  The client's operations as the adapter reads them: the answer of \<open>converse\<close>, and the \<open>stream\<close>
  entry of the answer of \<open>converse_stream\<close>.
\<close>

record 's bedrock_provider =
  bdp_converse :: "pyval \<Rightarrow> ('s, pyval) op"
  bdp_converse_stream :: "pyval \<Rightarrow> ('s, raw_stream) op"
  bdp_catalogue :: model_catalogue
  bdp_retry :: "'s retry_env"
  bdp_coercions :: coercions

definition bedrock_invoke :: "'s bedrock_provider \<Rightarrow> provider_request \<Rightarrow> ('s, provider_response) op" where
  "bedrock_invoke b request =
     bind_io (lift_r (resolve_request (bdp_catalogue b) request)) (\<lambda>(model, target_model_id).
     bind_io (with_retries (bdp_retry b) bedrock_caught
                (bdp_converse b (build_converse_request request target_model_id)) 1) (\<lambda>raw_response.
     lift_r (parse_converse_response (bdp_coercions b) raw_response (pr_model_alias request) (md_provider model))))"

text \<open>\<open>except (ClientError, BotoCoreError)\<close> around the delivery of the chunks.\<close>

definition reclassify :: "(exn \<Rightarrow> provider_error_category option) \<Rightarrow> chunk_stream \<Rightarrow> chunk_stream" where
  "reclassify caught cs =
     (fst cs, case snd cs of
                None \<Rightarrow> None
              | Some e \<Rightarrow> (case caught e of None \<Rightarrow> Some e | Some c \<Rightarrow> Some (ProviderError (safe_message_for c) c)))"

text \<open>The generator of \<open>_stream\<close>, drained: the call with its retries happens on the first pull.\<close>

definition bedrock_stream :: "'s bedrock_provider \<Rightarrow> pyval \<Rightarrow> ('s, chunk_stream) op" where
  "bedrock_stream b payload =
     bind_io (with_retries (bdp_retry b) bedrock_caught (bdp_converse_stream b payload) 1) (\<lambda>events.
       return_io (reclassify bedrock_caught (iter_converse_stream_events (bdp_coercions b) events)))"

definition bedrock_invoke_stream :: "'s bedrock_provider \<Rightarrow> provider_request \<Rightarrow> ('s, chunk_stream) op result" where
  "bedrock_invoke_stream b request =
     bind_r (resolve_request (bdp_catalogue b) request) (\<lambda>(model, target_model_id).
       Inr (bedrock_stream b (build_converse_request request target_model_id)))"

section \<open>Lemmas\<close>

lemma raises_join_blocks [raises]: "raises_only {Key_Error, Type_Error} (join_blocks v)"
  unfolding join_blocks_def block_text_def by (intro raises) simp_all

lemma read_converse_error: "read_converse_response raw = Inl e \<Longrightarrow> e = Key_Error \<or> e = Type_Error"
proof -
  have "raises_only {Key_Error, Type_Error} (read_converse_response raw)"
    unfolding read_converse_response_def by (intro raises) simp_all
  then show "read_converse_response raw = Inl e \<Longrightarrow> e = Key_Error \<or> e = Type_Error"
    by (auto dest: raises_onlyD)
qed

lemma parse_converse_error:
  "parse_converse_response co raw a p = Inl e \<Longrightarrow> e \<in> {malformed_response, Type_Error, Validation_Error}"
  by (auto simp: parse_converse_response_def coerce_usage_def mk_usage_def map_stop_reason_def bind_r_def
      split: sum.splits if_splits pyval.splits option.splits dest: read_converse_error)

interpretation bedrock: retrying_adapter "bedrock_invoke b" "bdp_catalogue b" "bdp_retry b" bedrock_caught
  "\<lambda>request target. bdp_converse b (build_converse_request request target)"
  "\<lambda>request m raw. parse_converse_response (bdp_coercions b) raw (pr_model_alias request) (md_provider m)" for b
  by unfold_locales (rule bedrock_invoke_def)

section \<open>Properties\<close>

text \<open>The shape of a response that can be read: text blocks, a stop reason and usage.\<close>

definition converse_response :: "str list \<Rightarrow> str \<Rightarrow> int \<Rightarrow> int \<Rightarrow> pyval" where
  "converse_response texts stop i n =
     PV_Dict
       [(''output'', PV_Dict [(''message'', PV_Dict
           [(''role'', PV_Str ''assistant''),
            (''content'', PV_List (map (\<lambda>t. PV_Dict [(''text'', PV_Str t)]) texts))])]),
        (''stopReason'', PV_Str stop),
        (''usage'', PV_Dict [(''inputTokens'', PV_Int i), (''outputTokens'', PV_Int n)])]"

text \<open>The events the Converse stream sends for the same answer.\<close>

definition converse_stream :: "str list \<Rightarrow> str \<Rightarrow> int \<Rightarrow> int \<Rightarrow> raw_stream" where
  "converse_stream texts stop i n =
     ([PV_Dict [(''messageStart'', PV_Dict [(''role'', PV_Str ''assistant'')])]]
      @ map (\<lambda>t. PV_Dict [(''contentBlockDelta'', PV_Dict [(''delta'', PV_Dict [(''text'', PV_Str t)])])]) texts
      @ [PV_Dict [(''messageStop'', PV_Dict [(''stopReason'', PV_Str stop)])],
         PV_Dict [(''metadata'', PV_Dict [(''usage'',
           PV_Dict [(''inputTokens'', PV_Int i), (''outputTokens'', PV_Int n)])])]], None)"

lemma join_text_blocks: "join_blocks (PV_List (map (\<lambda>t. PV_Dict [(''text'', PV_Str t)]) texts)) = Inr (concat texts)"
proof -
  have "map_r block_text (map (\<lambda>t. PV_Dict [(''text'', PV_Str t)]) texts) = Inr texts"
    by (induction texts) (auto simp: block_text_def)
  then show ?thesis by (simp add: join_blocks_def)
qed

lemma converse_deltas:
  assumes "coerces_exact co"
  shows "converse_events co tot
     (map (\<lambda>t. PV_Dict [(''contentBlockDelta'', PV_Dict [(''delta'', PV_Dict [(''text'', PV_Str t)])])]) texts @ evs) fin =
   (map text_chunk (filter (\<lambda>t. t \<noteq> []) texts) @ fst (converse_events co tot evs fin), snd (converse_events co tot evs fin))"
  using assms
  by (induction texts) (auto simp: converse_event_def get_or_def coerces_exact_def split: prod.split)

lemma concat_nonempty: "concat (filter (\<lambda>t. t \<noteq> []) ts) = concat ts"
  by (induction ts) auto

lemma converse_answer_parsed:
  assumes "coerces_exact co" and "0 \<le> i" and "0 \<le> n" and "map_stop_reason (PV_Str stop) = Inr sr"
  shows "parse_converse_response co (converse_response texts stop i n) a p =
      Inr \<lparr>ps_model_alias = a, ps_provider = p, ps_message = \<lparr>msg_role = Role_ASSISTANT, msg_content = concat texts\<rparr>,
           ps_stop_reason = sr, ps_usage = \<lparr>us_input_tokens = i, us_output_tokens = n\<rparr>\<rparr>"
  using assms
  by (simp add: parse_converse_response_def read_converse_response_def converse_response_def join_text_blocks
      coerce_usage_def coerces_exact_def)

lemma map_stop_reason_str: "\<exists>sr. map_stop_reason (PV_Str stop) = Inr sr"
  by (cases "map_of stop_reason_map stop") (auto simp: map_stop_reason_def)

text \<open>
  C38. Streaming and not streaming give the same answer: for every answer (its text blocks, its
  stop reason and its token counts) the response parsed from the Converse result and the chunks
  parsed from the Converse event stream agree.  The texts of the chunks in order are the text of the
  response, exactly one chunk is final, it is the last, and it carries the stop reason and the
  usage of the response.
\<close>

theorem converse_stream_agrees:
  assumes "coerces_exact co" and "0 \<le> i" and "0 \<le> n"
  shows "\<exists>r cs. parse_converse_response co (converse_response texts stop i n) a p = Inr r \<and>
    iter_converse_stream_events co (converse_stream texts stop i n) = (cs, None) \<and>
    concat (map ch_delta_text cs) = msg_content (ps_message r) \<and>
    cs \<noteq> [] \<and> (\<forall>c\<in>set (butlast cs). \<not> ch_is_final c) \<and> ch_is_final (last cs) \<and>
    ch_stop_reason (last cs) = Some (ps_stop_reason r) \<and> ch_usage (last cs) = Some (ps_usage r)"
proof -
  obtain sr where sr: "map_stop_reason (PV_Str stop) = Inr sr" using map_stop_reason_str by blast
  let ?u = "\<lparr>us_input_tokens = i, us_output_tokens = n\<rparr>"
  have u: "coerce_usage co (PV_Int i) (PV_Int n) = Inr ?u"
    using assms by (simp add: coerce_usage_def coerces_exact_def)
  note parse = converse_answer_parsed[OF assms sr, of texts a p]
  let ?deltas = "map text_chunk (filter (\<lambda>t. t \<noteq> []) texts)"
  have start: "converse_events co tot (PV_Dict [(''messageStart'', v)] # evs) fin = converse_events co tot evs fin" for tot v evs fin
    by (simp add: converse_event_def split: prod.split)
  have stop: "converse_events co no_totals
      [PV_Dict [(''messageStop'', PV_Dict [(''stopReason'', PV_Str stop)])],
       PV_Dict [(''metadata'', PV_Dict [(''usage'', PV_Dict [(''inputTokens'', PV_Int i), (''outputTokens'', PV_Int n)])])]] None =
      ([final_chunk sr ?u], None)"
    by (simp add: converse_event_def get_or_def finish_totals_def sr u)
  have stream: "iter_converse_stream_events co (converse_stream texts stop i n) = (?deltas @ [final_chunk sr ?u], None)"
    unfolding iter_converse_stream_events_def converse_stream_def fst_conv snd_conv append_Cons append_Nil start
      converse_deltas[OF assms(1)] stop by simp
  have "map ch_delta_text ?deltas = filter (\<lambda>t. t \<noteq> []) texts" by (simp add: text_chunk_def o_def)
  then have "concat (map ch_delta_text (?deltas @ [final_chunk sr ?u])) = concat texts"
    by (simp add: concat_nonempty final_chunk_def)
  then show ?thesis
    using parse stream by (intro exI conjI) (assumption+, auto simp: text_chunk_def final_chunk_def)
qed

theorem converse_stream_agrees_witness:
  "\<exists>cs. iter_converse_stream_events strict_coercions (converse_stream [''Hel'', [], ''lo''] ''end_turn'' 3 2) = (cs, None) \<and>
     concat (map ch_delta_text cs) = ''Hello''"
proof -
  obtain sr where sr: "map_stop_reason (PV_Str ''end_turn'') = Inr sr" using map_stop_reason_str by blast
  show ?thesis
    using converse_stream_agrees[OF strict_coercions_exact, of 3 2 "[''Hel'', [], ''lo'']" "''end_turn''" "''m''" Provider_BEDROCK]
      converse_answer_parsed[OF strict_coercions_exact _ _ sr, of 3 2 "[''Hel'', [], ''lo'']" "''m''" Provider_BEDROCK]
    by auto
qed

lemma converse_events_final:
  "converse_events co tot evs fin = (cs, None) \<Longrightarrow>
   fin = None \<and> cs \<noteq> [] \<and> ch_is_final (last cs) \<and> (\<forall>c\<in>set (butlast cs). \<not> ch_is_final c)"
proof (induction co tot evs fin arbitrary: cs rule: converse_events.induct)
  case (1 co tot e)
  then show ?case by simp
next
  case (2 co tot)
  then show ?case by (auto simp: finish_totals_def final_chunk_def split: if_splits sum.splits)
next
  case (3 co tot ev evs fin)
  obtain t tot' where t: "converse_event co ev tot = Inr (t, tot')"
    using "3.prems" by (cases "converse_event co ev tot") auto
  obtain cs' where cs': "converse_events co tot' evs fin = (cs', None)"
    "cs = (case t of None \<Rightarrow> cs' | Some x \<Rightarrow> text_chunk x # cs')"
    using "3.prems" t by (auto split: prod.splits)
  from "3.IH"[OF t refl cs'(1)] show ?case
    using cs'(2) by (cases t) (auto simp: text_chunk_def)
qed


text \<open>A client that throttles twice and then answers; the state counts the calls.\<close>

definition sample_bedrock :: "nat bedrock_provider" where
  "sample_bedrock =
     \<lparr>bdp_converse = (\<lambda>payload k. (if k < 2 then Inl (Client_Error ''ThrottlingException'')
        else Inr (converse_response [''On its way.''] ''end_turn'' 6 4), Suc k)),
      bdp_converse_stream = (\<lambda>payload k. (Inr (converse_stream [''On its way.''] ''end_turn'' 6 4), Suc k)),
      bdp_catalogue = shipped_catalogue,
      bdp_retry = \<lparr>re_policy = default_retry_policy, re_sleep = (\<lambda>d. return_io ()), re_jitter = return_io (1 / 2)\<rparr>,
      bdp_coercions = strict_coercions\<rparr>"

definition sample_provider_req :: "str \<Rightarrow> provider_request" where
  "sample_provider_req a =
     \<lparr>pr_model_alias = a, pr_messages = ir_messages (sample_request ''support-assistant'' None), pr_system_prompt = None,
      pr_max_output_tokens = 200, pr_temperature = None, pr_top_p = None,
      pr_requires_tool_use = False, pr_requires_structured_output = False\<rparr>"

lemma sample_bedrock_env:
  "counts_calls (\<lambda>k. k) (bdp_retry sample_bedrock) (bdp_converse sample_bedrock payload)"
  "pauses_return (bdp_retry sample_bedrock)"
  by (auto simp: sample_bedrock_def counts_calls_def pauses_return_def preserves_io_def io_inv)

lemma sample_bedrock_resolves:
  "\<exists>target. resolve_request shipped_catalogue (sample_provider_req ''balanced-text-primary'') =
     Inr (balanced_text_primary, target)"
  by (simp add: resolve_request_def resolve_model_def shipped_catalogue_def models_by_alias_def shipped_models_def
      shipped_model_defs sample_provider_req_def check_capabilities_def resolve_target_model_id_def Let_def)


lemma bedrock_unusable_usage:
  assumes "co_int co PV_None = None"
  shows "parse_converse_response co
     (PV_Dict [(''output'', PV_Dict [(''message'', PV_Dict [(''content'', PV_List [])])]), (''stopReason'', PV_Str s),
               (''usage'', PV_Dict [(''inputTokens'', PV_None), (''outputTokens'', PV_Int n)])]) a p = Inl Validation_Error"
  using assms
  by (simp add: parse_converse_response_def read_converse_response_def join_blocks_def map_stop_reason_def
      coerce_usage_def field_def split: option.split)

end
