(* ===== verification/OpenAI_Provider.thy ===== *)
theory OpenAI_Provider
  imports Bedrock_Provider
begin

text \<open>
  \<open>src/adapters/openai/\<close>: the mapping to the Chat Completions API, the classification of the SDK's
  exceptions and the provider, which shares its shape with the Bedrock adapter.  The SDK returns
  typed objects, records here.
\<close>

section \<open>Error mapping\<close>

definition transient_status_code_floor :: int where
  "transient_status_code_floor = 500"

text \<open>\<open>RateLimitError\<close> and \<open>APITimeoutError\<close> are subclasses; a value names the class the code tells apart.\<close>

fun openai_classify :: "exn \<Rightarrow> provider_error_category" where
  "openai_classify (OpenAI_Error RateLimitError) = Category_THROTTLED"
| "openai_classify (OpenAI_Error APITimeoutError) = Category_TIMEOUT"
| "openai_classify (OpenAI_Error APIConnectionError) = Category_TRANSIENT"
| "openai_classify (OpenAI_Error (APIStatusError status)) =
     (if transient_status_code_floor \<le> status then Category_TRANSIENT else Category_PERMANENT)"
| "openai_classify _ = Category_PERMANENT"

fun openai_caught :: "exn \<Rightarrow> provider_error_category option" where
  "openai_caught (OpenAI_Error x) = Some (openai_classify (OpenAI_Error x))"
| "openai_caught _ = None"

section \<open>The Chat Completions mapping\<close>

definition finish_reason_map :: "(str \<times> stop_reason) list" where
  "finish_reason_map =
     [(''stop'', Stop_END_TURN), (''length'', Stop_MAX_TOKENS), (''tool_calls'', Stop_TOOL_USE),
      (''function_call'', Stop_TOOL_USE), (''content_filter'', Stop_CONTENT_FILTERED)]"

definition map_finish_reason :: "str \<Rightarrow> stop_reason" where
  "map_finish_reason raw = (case map_of finish_reason_map raw of None \<Rightarrow> Stop_OTHER | Some r \<Rightarrow> r)"

definition chat_message :: "role \<Rightarrow> str \<Rightarrow> pyval" where
  "chat_message r content = PV_Dict [(''role'', PV_Str (role_value r)), (''content'', PV_Str content)]"

definition chat_request_items :: "provider_request \<Rightarrow> str \<Rightarrow> (str \<times> pyval) list" where
  "chat_request_items request target_model =
     [(''model'', PV_Str target_model),
      (''messages'', PV_List
         ((case prompt_of (pr_system_prompt request) of None \<Rightarrow> [] | Some p \<Rightarrow> [chat_message Role_SYSTEM p])
          @ map (\<lambda>m. chat_message (msg_role m) (msg_content m)) (pr_messages request))),
      (''max_tokens'', PV_Int (pr_max_output_tokens request))]
     @ opt_entry ''temperature'' PV_Float (pr_temperature request)
     @ opt_entry ''top_p'' PV_Float (pr_top_p request)"

definition build_chat_completion_request :: "provider_request \<Rightarrow> str \<Rightarrow> pyval" where
  "build_chat_completion_request request target_model = PV_Dict (chat_request_items request target_model)"

definition build_chat_completion_stream_request :: "provider_request \<Rightarrow> str \<Rightarrow> pyval" where
  "build_chat_completion_stream_request request target_model =
     PV_Dict (chat_request_items request target_model
       @ [(''stream'', PV_Bool True), (''stream_options'', PV_Dict [(''include_usage'', PV_Bool True)])])"

record completion_usage =
  cu_prompt_tokens :: int
  cu_completion_tokens :: int

record completion_choice =
  cch_content :: "str option"
  cch_finish_reason :: str

record chat_completion =
  cc_choices :: "completion_choice list"
  cc_usage :: "completion_usage option"

record chunk_choice =
  kch_delta_content :: "str option"
  kch_finish_reason :: "str option"

record completion_chunk =
  kc_choices :: "chunk_choice list"
  kc_usage :: "completion_usage option"

definition parse_chat_completion_response ::
  "chat_completion \<Rightarrow> str \<Rightarrow> provider_name \<Rightarrow> provider_response result" where
  "parse_chat_completion_response response model_alias provider =
     (case cc_choices response of
        [] \<Rightarrow> Inl malformed_response
      | choice # _ \<Rightarrow>
          (case cc_usage response of
             None \<Rightarrow> Inl malformed_response
           | Some u \<Rightarrow>
               bind_r (mk_usage (cu_prompt_tokens u) (cu_completion_tokens u)) (\<lambda>us.
                 Inr \<lparr>ps_model_alias = model_alias, ps_provider = provider,
                      ps_message = \<lparr>msg_role = Role_ASSISTANT,
                                    msg_content = (case cch_content choice of None \<Rightarrow> [] | Some c \<Rightarrow> c)\<rparr>,
                      ps_stop_reason = map_finish_reason (cch_finish_reason choice), ps_usage = us\<rparr>)))"

section \<open>The chunk stream\<close>

record chat_totals =
  ct_finish_reason :: "str option"
  ct_usage :: "completion_usage option"

text \<open>One chunk: the text to yield, if any, and the totals; the usage variables are set together.\<close>

definition chat_chunk :: "completion_chunk \<Rightarrow> chat_totals \<Rightarrow> str option \<times> chat_totals" where
  "chat_chunk chunk tot =
     (let text = (case kc_choices chunk of
                    [] \<Rightarrow> None
                  | choice # _ \<Rightarrow> (if kch_delta_content choice = Some [] then None else kch_delta_content choice));
          finish = (case kc_choices chunk of
                      [] \<Rightarrow> ct_finish_reason tot
                    | choice # _ \<Rightarrow> (case kch_finish_reason choice of None \<Rightarrow> ct_finish_reason tot | Some r \<Rightarrow> Some r));
          u = (case kc_usage chunk of None \<Rightarrow> ct_usage tot | Some u \<Rightarrow> Some u)
      in (text, \<lparr>ct_finish_reason = finish, ct_usage = u\<rparr>))"

definition finish_chat :: "chat_totals \<Rightarrow> chunk_stream" where
  "finish_chat tot =
     (case (ct_finish_reason tot, ct_usage tot) of
        (Some r, Some u) \<Rightarrow>
          (case mk_usage (cu_prompt_tokens u) (cu_completion_tokens u) of
             Inl e \<Rightarrow> ([], Some e)
           | Inr us \<Rightarrow> ([final_chunk (map_finish_reason r) us], None))
      | _ \<Rightarrow> ([], Some malformed_response))"

fun chat_chunks :: "chat_totals \<Rightarrow> completion_chunk list \<Rightarrow> exn option \<Rightarrow> chunk_stream" where
  "chat_chunks tot [] (Some e) = ([], Some e)"
| "chat_chunks tot [] None = finish_chat tot"
| "chat_chunks tot (chunk # chunks) fin =
     (case chat_chunk chunk tot of (t, tot') \<Rightarrow>
        (case chat_chunks tot' chunks fin of
           (cs, e) \<Rightarrow> ((case t of None \<Rightarrow> cs | Some x \<Rightarrow> text_chunk x # cs), e)))"

definition no_chat_totals :: chat_totals where
  "no_chat_totals = \<lparr>ct_finish_reason = None, ct_usage = None\<rparr>"

definition iter_chat_completion_stream_chunks :: "completion_chunk list \<times> exn option \<Rightarrow> chunk_stream" where
  "iter_chat_completion_stream_chunks chunks = chat_chunks no_chat_totals (fst chunks) (snd chunks)"

section \<open>The provider\<close>

record 's openai_provider =
  oap_create :: "pyval \<Rightarrow> ('s, chat_completion) op"
  oap_create_stream :: "pyval \<Rightarrow> ('s, completion_chunk list \<times> exn option) op"
  oap_catalogue :: model_catalogue
  oap_retry :: "'s retry_env"

definition openai_invoke :: "'s openai_provider \<Rightarrow> provider_request \<Rightarrow> ('s, provider_response) op" where
  "openai_invoke p request =
     bind_io (lift_r (resolve_request (oap_catalogue p) request)) (\<lambda>(model, target_model).
     bind_io (with_retries (oap_retry p) openai_caught
                (oap_create p (build_chat_completion_request request target_model)) 1) (\<lambda>raw_response.
     lift_r (parse_chat_completion_response raw_response (pr_model_alias request) (md_provider model))))"

definition openai_stream :: "'s openai_provider \<Rightarrow> pyval \<Rightarrow> ('s, chunk_stream) op" where
  "openai_stream p payload =
     bind_io (with_retries (oap_retry p) openai_caught (oap_create_stream p payload) 1) (\<lambda>chunks.
       return_io (reclassify openai_caught (iter_chat_completion_stream_chunks chunks)))"

definition openai_invoke_stream :: "'s openai_provider \<Rightarrow> provider_request \<Rightarrow> ('s, chunk_stream) op result" where
  "openai_invoke_stream p request =
     bind_r (resolve_request (oap_catalogue p) request) (\<lambda>(model, target_model).
       Inr (openai_stream p (build_chat_completion_stream_request request target_model)))"

interpretation openai: retrying_adapter "openai_invoke p" "oap_catalogue p" "oap_retry p" openai_caught
  "\<lambda>request target. oap_create p (build_chat_completion_request request target)"
  "\<lambda>request m raw. parse_chat_completion_response raw (pr_model_alias request) (md_provider m)" for p
  by unfold_locales (rule openai_invoke_def)

section \<open>Properties\<close>

text \<open>An answer, as one completion and as the chunks of a stream with usage included.\<close>

definition answer_completion :: "str list \<Rightarrow> str \<Rightarrow> int \<Rightarrow> int \<Rightarrow> chat_completion" where
  "answer_completion texts finish i n =
     \<lparr>cc_choices = [\<lparr>cch_content = Some (concat texts), cch_finish_reason = finish\<rparr>],
      cc_usage = Some \<lparr>cu_prompt_tokens = i, cu_completion_tokens = n\<rparr>\<rparr>"

definition answer_chunks :: "str list \<Rightarrow> str \<Rightarrow> int \<Rightarrow> int \<Rightarrow> completion_chunk list" where
  "answer_chunks texts finish i n =
     map (\<lambda>t. \<lparr>kc_choices = [\<lparr>kch_delta_content = Some t, kch_finish_reason = None\<rparr>], kc_usage = None\<rparr>) texts
     @ [\<lparr>kc_choices = [\<lparr>kch_delta_content = None, kch_finish_reason = Some finish\<rparr>], kc_usage = None\<rparr>,
        \<lparr>kc_choices = [], kc_usage = Some \<lparr>cu_prompt_tokens = i, cu_completion_tokens = n\<rparr>\<rparr>]"

lemma chat_deltas:
  "chat_chunks tot
     (map (\<lambda>t. \<lparr>kc_choices = [\<lparr>kch_delta_content = Some t, kch_finish_reason = None\<rparr>], kc_usage = None\<rparr>) texts @ rest) fin =
   (map text_chunk (filter (\<lambda>t. t \<noteq> []) texts) @ fst (chat_chunks tot rest fin), snd (chat_chunks tot rest fin))"
proof (induction texts)
  case (Cons t texts)
  have same: "\<lparr>ct_finish_reason = ct_finish_reason tot, ct_usage = ct_usage tot\<rparr> = tot" by simp
  show ?case using Cons.IH by (auto simp: chat_chunk_def same split: prod.split)
qed simp

text \<open>
  The OpenAI adapter, too, gives the same answer with and without streaming: the texts of the
  chunks in order are the text of the response, the last chunk is the only final one and carries
  its stop reason and its usage, although finish reason and usage arrive in different chunks.
\<close>

theorem chat_stream_agrees:
  assumes "0 \<le> i" and "0 \<le> n"
  shows "\<exists>r cs. parse_chat_completion_response (answer_completion texts finish i n) a p = Inr r \<and>
    iter_chat_completion_stream_chunks (answer_chunks texts finish i n, None) = (cs, None) \<and>
    concat (map ch_delta_text cs) = msg_content (ps_message r) \<and>
    cs \<noteq> [] \<and> (\<forall>c\<in>set (butlast cs). \<not> ch_is_final c) \<and> ch_is_final (last cs) \<and>
    ch_stop_reason (last cs) = Some (ps_stop_reason r) \<and> ch_usage (last cs) = Some (ps_usage r)"
proof -
  let ?u = "\<lparr>us_input_tokens = i, us_output_tokens = n\<rparr>" and ?deltas = "map text_chunk (filter (\<lambda>t. t \<noteq> []) texts)"
  have u: "mk_usage i n = Inr ?u" using assms by simp
  have parse: "parse_chat_completion_response (answer_completion texts finish i n) a p =
      Inr \<lparr>ps_model_alias = a, ps_provider = p, ps_message = \<lparr>msg_role = Role_ASSISTANT, msg_content = concat texts\<rparr>,
           ps_stop_reason = map_finish_reason finish, ps_usage = ?u\<rparr>"
    by (simp add: parse_chat_completion_response_def answer_completion_def u)
  have rest: "chat_chunks no_chat_totals
      [\<lparr>kc_choices = [\<lparr>kch_delta_content = None, kch_finish_reason = Some finish\<rparr>], kc_usage = None\<rparr>,
       \<lparr>kc_choices = [], kc_usage = Some \<lparr>cu_prompt_tokens = i, cu_completion_tokens = n\<rparr>\<rparr>] None =
      ([final_chunk (map_finish_reason finish) ?u], None)"
    by (simp add: chat_chunk_def finish_chat_def u Let_def)
  have stream: "iter_chat_completion_stream_chunks (answer_chunks texts finish i n, None) =
      (?deltas @ [final_chunk (map_finish_reason finish) ?u], None)"
    unfolding iter_chat_completion_stream_chunks_def answer_chunks_def fst_conv snd_conv chat_deltas rest by simp
  have "map ch_delta_text ?deltas = filter (\<lambda>t. t \<noteq> []) texts" by (simp add: text_chunk_def o_def)
  then have "concat (map ch_delta_text (?deltas @ [final_chunk (map_finish_reason finish) ?u])) = concat texts"
    by (simp add: concat_nonempty final_chunk_def)
  then show ?thesis
    using parse stream by (intro exI conjI) (assumption+, auto simp: text_chunk_def final_chunk_def)
qed

theorem chat_stream_agrees_witness:
  "\<exists>cs. iter_chat_completion_stream_chunks (answer_chunks [''Hel'', ''lo''] ''stop'' 3 2, None) = (cs, None) \<and>
     concat (map ch_delta_text cs) = ''Hello''"
  using chat_stream_agrees[of 3 2 "[''Hel'', ''lo'']" "''stop''" "''m''" Provider_OPENAI]
  by (auto simp: parse_chat_completion_response_def answer_completion_def mk_usage_def)

lemma chat_chunks_final:
  "chat_chunks tot chunks fin = (cs, None) \<Longrightarrow>
   fin = None \<and> cs \<noteq> [] \<and> ch_is_final (last cs) \<and> (\<forall>c\<in>set (butlast cs). \<not> ch_is_final c)"
proof (induction tot chunks fin arbitrary: cs rule: chat_chunks.induct)
  case (1 tot e)
  then show ?case by simp
next
  case (2 tot)
  then show ?case by (auto simp: finish_chat_def final_chunk_def split: option.splits sum.splits)
next
  case (3 tot ch chs fin)
  obtain t tot' where t: "chat_chunk ch tot = (t, tot')" by (rule prod.exhaust)
  obtain cs' where cs': "chat_chunks tot' chs fin = (cs', None)"
    "cs = (case t of None \<Rightarrow> cs' | Some x \<Rightarrow> text_chunk x # cs')"
    using "3.prems" t by (auto split: prod.splits)
  from "3.IH"[OF t[symmetric] cs'(1)] show ?case
    using cs'(2) by (cases t) (auto simp: text_chunk_def)
qed

end
