(* ===== verification/Composite_Provider.thy ===== *)
theory Composite_Provider
  imports OpenAI_Provider
begin

text \<open>
  \<open>src/adapters/composite_model_provider.py\<close>: dispatch to the adapter of the resolved model's
  provider.  An iterator is an object of its own, whichever adapter made it, so \<open>next\<close> is one
  operation for all.
\<close>

record 's composite_provider =
  cmp_catalogue :: model_catalogue
  cmp_providers :: "provider_name \<Rightarrow> 's model_provider option"
  cmp_next :: "nat \<Rightarrow> ('s, provider_response_chunk option) op"

definition composite_resolve_provider :: "'s composite_provider \<Rightarrow> provider_request \<Rightarrow> 's model_provider result" where
  "composite_resolve_provider c request =
     bind_r (resolve_model (pr_model_alias request) (cmp_catalogue c)) (\<lambda>model.
       case cmp_providers c (md_provider model) of
         None \<Rightarrow> Inl (permanent_error
           (''No provider adapter is registered for provider '' @ py_repr (provider_name_value (md_provider model))
            @ '' (model_alias '' @ py_repr (md_model_alias model) @ '').''))
       | Some provider \<Rightarrow> Inr provider)"

definition composite_invoke :: "'s composite_provider \<Rightarrow> provider_request \<Rightarrow> ('s, provider_response) op" where
  "composite_invoke c request =
     bind_io (lift_r (composite_resolve_provider c request)) (\<lambda>provider. mp_invoke provider request)"

definition composite_invoke_stream :: "'s composite_provider \<Rightarrow> provider_request \<Rightarrow> ('s, nat) op" where
  "composite_invoke_stream c request =
     bind_io (lift_r (resolve_model (pr_model_alias request) (cmp_catalogue c))) (\<lambda>model.
     bind_io (lift_r (composite_resolve_provider c request)) (\<lambda>provider.
       case mp_invoke_stream provider of
         None \<Rightarrow> raise_io (permanent_error
           (''The provider adapter for provider '' @ py_repr (provider_name_value (md_provider model))
            @ '' does not support streaming (model_alias '' @ py_repr (md_model_alias model) @ '').''))
       | Some start \<Rightarrow> start request))"

definition composite_model_provider :: "'s composite_provider \<Rightarrow> 's model_provider" where
  "composite_model_provider c =
     \<lparr>mp_invoke = composite_invoke c, mp_invoke_stream = Some (composite_invoke_stream c), mp_next = cmp_next c\<rparr>"

section \<open>Properties\<close>

lemma resolve_model_error: "resolve_model a cat = Inl e \<Longrightarrow> provider_error_category_of e = Some Category_PERMANENT"
  by (auto simp: resolve_model_def permanent_error_def split: option.splits)

lemma composite_resolve_error:
  "composite_resolve_provider c pr = Inl e \<Longrightarrow> provider_error_category_of e = Some Category_PERMANENT"
  by (auto simp: composite_resolve_provider_def bind_r_def permanent_error_def split: sum.splits option.splits
      dest: resolve_model_error)

lemma composite_raises:
  assumes "\<And>n p pr s e s'. cmp_providers c n = Some p \<Longrightarrow> mp_invoke p pr s = (Inl e, s') \<Longrightarrow>
      provider_error_category_of e \<noteq> None"
    and "composite_invoke c pr s = (Inl e, s')"
  shows "provider_error_category_of e \<noteq> None"
proof (cases "composite_resolve_provider c pr")
  case (Inl e')
  then show ?thesis using assms(2) composite_resolve_error[OF Inl] by (simp add: composite_invoke_def io_run)
next
  case (Inr p)
  then have "mp_invoke p pr s = (Inl e, s')" using assms(2) by (simp add: composite_invoke_def bind_lift_Inr)
  moreover obtain n where "cmp_providers c n = Some p"
    using Inr by (auto simp: composite_resolve_provider_def split: option.splits)
  ultimately show ?thesis using assms(1) by blast
qed

lemma parse_chat_error:
  "parse_chat_completion_response raw a p = Inl e \<Longrightarrow>
   (\<And>u. cc_usage raw = Some u \<Longrightarrow> 0 \<le> cu_prompt_tokens u \<and> 0 \<le> cu_completion_tokens u) \<Longrightarrow> e = malformed_response"
  by (auto simp: parse_chat_completion_response_def mk_usage_def split: list.splits option.splits)


lemma resolved_target_entry:
  assumes "build_catalogue v models = Inr cat" and "resolve_request cat pr = Inr (m, target)"
  obtains m' where "m \<in> set models" "md_model_alias m = pr_model_alias pr" "m' \<in> set models"
    "md_provider m' = md_provider m" "mr_type (md_resolution m') \<noteq> Resolution_ROUTER_ALIAS"
    "target = mr_value (md_resolution m')"
proof -
  have cat: "catalogue_contract cat" using assms(1) by (rule build_catalogue_contract)
  have all: "mc_all_models cat = models" and cross: "\<And>x. x \<in> set models \<Longrightarrow> \<not> router_alias_crosses_provider models x"
    and byalias: "mc_get_by_alias cat = models_by_alias models"
    using assms(1) by (auto simp: build_catalogue_Inr list_ex_iff)
  note get = catalogue_contract.get_iff[OF cat, unfolded all]
  note res = resolve_request_Inr[OF assms(2)]
  have m: "m \<in> set models" "md_model_alias m = pr_model_alias pr" using res(1) get by simp_all
  obtain m' where m': "m' = m \<or> mr_type (md_resolution m) = Resolution_ROUTER_ALIAS \<and>
        mc_get_by_alias cat (mr_value (md_resolution m)) = Some m'"
    "mr_type (md_resolution m') \<noteq> Resolution_ROUTER_ALIAS" "target = mr_value (md_resolution m')"
    using res(4) by blast
  have "m' \<in> set models \<and> md_provider m' = md_provider m"
    using m'(1)
  proof
    assume r: "mr_type (md_resolution m) = Resolution_ROUTER_ALIAS \<and> mc_get_by_alias cat (mr_value (md_resolution m)) = Some m'"
    then have "m' \<in> set models" using get by simp
    moreover have "md_provider m' = md_provider m"
      using cross[OF m(1)] r by (auto simp: router_alias_crosses_provider_def byalias split: option.splits)
    ultimately show ?thesis by simp
  qed (use m in simp)
  then show ?thesis using that m m' by blast
qed

text \<open>
  A model never leaves its provider: over a catalogue that was loaded, the identifier sent for a
  request belongs to an entry of the requested model's provider that is not itself a router
  alias, so an indirection is followed at most once and never crosses providers.
\<close>

theorem resolved_target_stays_with_provider:
  assumes "build_catalogue v models = Inr cat" and "resolve_request cat pr = Inr (m, target)"
  shows "m \<in> set models \<and> md_model_alias m = pr_model_alias pr \<and>
    (\<exists>m'\<in>set models. md_provider m' = md_provider m \<and> mr_type (md_resolution m') \<noteq> Resolution_ROUTER_ALIAS \<and>
       target = mr_value (md_resolution m')) \<and>
    (pr_requires_tool_use pr \<longrightarrow> cap_supports_tool_use (md_capabilities m)) \<and>
    (pr_requires_structured_output pr \<longrightarrow> cap_supports_structured_output (md_capabilities m))"
  using resolved_target_entry[OF assms] resolve_request_Inr[OF assms(2)] by metis

definition sample_openai_adapter :: "nat openai_provider" where
  "sample_openai_adapter =
     \<lparr>oap_create = (\<lambda>payload k. (Inr (answer_completion [''On its way.''] ''stop'' 6 4), Suc k)),
      oap_create_stream = (\<lambda>payload k. (Inr (answer_chunks [''On its way.''] ''stop'' 6 4, None), Suc k)),
      oap_catalogue = shipped_catalogue, oap_retry = bdp_retry sample_bedrock\<rparr>"

definition sample_composite :: "nat composite_provider" where
  "sample_composite =
     \<lparr>cmp_catalogue = shipped_catalogue,
      cmp_providers = (\<lambda>n. Some \<lparr>mp_invoke = (case n of Provider_BEDROCK \<Rightarrow> bedrock_invoke sample_bedrock
                                            | Provider_OPENAI \<Rightarrow> openai_invoke sample_openai_adapter),
                              mp_invoke_stream = None, mp_next = (\<lambda>h. return_io None)\<rparr>),
      cmp_next = (\<lambda>h. return_io None)\<rparr>"


theorem resolved_target_stays_with_provider_witness:
  "\<exists>m target. resolve_request shipped_catalogue (sample_provider_req ''balanced-text-primary'') = Inr (m, target) \<and>
     (\<exists>m'\<in>set shipped_models. md_provider m' = md_provider m \<and> target = mr_value (md_resolution m'))"
proof -
  obtain target where t: "resolve_request shipped_catalogue (sample_provider_req ''balanced-text-primary'') =
      Inr (balanced_text_primary, target)"
    using sample_bedrock_resolves by blast
  show ?thesis using resolved_target_stays_with_provider[OF shipped_catalogue_builds t] t by blast
qed

end
