(* ===== verification/Services.thy ===== *)
theory Services
  imports Api_Handler Composite_Provider Publishers
begin

text \<open>
  \<open>build_services\<close> of \<open>src/handlers/api_handler.py\<close>: the adapters wired into the services of one
  Lambda process.  The state is the process (the caches of the policy repository, the failure
  counters, the generators that were started) and the world outside it; an operation on the world
  cannot touch the process.  Parameters: the AWS and OpenAI clients, the clocks, randomness and
  pydantic's JSON (\<open>platform\<close>), the files (\<open>config_environment\<close>) and \<open>os.environ\<close>.  Creating a
  client or a table object does no I/O; reading the secret does.
\<close>

section \<open>The process\<close>

text \<open>
  A generator object: not started, suspended with the chunks to come, or finished.
\<close>

datatype 'w generator = Gen_Created "('w, chunk_stream) op" | Gen_Suspended chunk_stream | Gen_Finished

record 'w process =
  pc_policies :: policy_repository_state
  pc_health :: health_state
  pc_generators :: "'w generator list"
  pc_world :: 'w

definition on_world :: "('w, 'a) op \<Rightarrow> ('w process, 'a) op" where
  "on_world m = on_part pc_world (\<lambda>w p. p\<lparr>pc_world := w\<rparr>) m"

definition on_policies :: "(policy_repository_state, 'a) op \<Rightarrow> ('w process, 'a) op" where
  "on_policies m = on_part pc_policies (\<lambda>x p. p\<lparr>pc_policies := x\<rparr>) m"

definition on_health :: "(health_state, 'a) op \<Rightarrow> ('w process, 'a) op" where
  "on_health m = on_part pc_health (\<lambda>x p. p\<lparr>pc_health := x\<rparr>) m"

text \<open>Calling a generator function: its body does not run yet.  The handle is its address.\<close>

definition new_generator :: "('w, chunk_stream) op result \<Rightarrow> ('w process, nat) op" where
  "new_generator g =
     bind_io (lift_r g) (\<lambda>start p.
       (Inr (length (pc_generators p)), p\<lparr>pc_generators := pc_generators p @ [Gen_Created start]\<rparr>))"

text \<open>Resuming a started generator: the next chunk, its exception, or \<open>StopIteration\<close>.\<close>

fun resume :: "nat \<Rightarrow> chunk_stream \<Rightarrow> ('w process, provider_response_chunk option) op" where
  "resume h (c # cs, failure) = (\<lambda>p.
     (Inr (Some c), p\<lparr>pc_generators := (pc_generators p)[h := Gen_Suspended (cs, failure)]\<rparr>))"
| "resume h ([], failure) = (\<lambda>p.
     (case failure of None \<Rightarrow> Inr None | Some e \<Rightarrow> Inl e,
      p\<lparr>pc_generators := (pc_generators p)[h := Gen_Finished]\<rparr>))"

definition next_chunk :: "nat \<Rightarrow> ('w process, provider_response_chunk option) op" where
  "next_chunk h = (\<lambda>p.
     case (if h < length (pc_generators p) then pc_generators p ! h else Gen_Finished) of
       Gen_Created start \<Rightarrow>
         (case on_world start p of
            (Inl e, p') \<Rightarrow> (Inl e, p'\<lparr>pc_generators := (pc_generators p')[h := Gen_Finished]\<rparr>)
          | (Inr cs, p') \<Rightarrow> resume h cs p')
     | Gen_Suspended cs \<Rightarrow> resume h cs p
     | Gen_Finished \<Rightarrow> (Inr None, p))"

section \<open>The platform\<close>

record ('w, 'j) platform =
  pf_now :: "('w, datetime) op"
  pf_time :: "('w, rat) op"
  pf_monotonic :: "('w, rat) op"
  pf_uuid4_hex :: "('w, str) op"
  pf_sleep :: "rat \<Rightarrow> ('w, unit) op"
  pf_random :: "('w, rat) op"
  pf_print :: "pyval \<Rightarrow> ('w, unit) op"
  pf_converse :: "str \<Rightarrow> pyval \<Rightarrow> ('w, pyval) op"
  pf_converse_stream :: "str \<Rightarrow> pyval \<Rightarrow> ('w, raw_stream) op"
  pf_secret_string :: "str \<Rightarrow> str \<Rightarrow> ('w, str) op"
  pf_create :: "str \<Rightarrow> pyval \<Rightarrow> ('w, chat_completion) op"
  pf_create_stream :: "str \<Rightarrow> pyval \<Rightarrow> ('w, completion_chunk list \<times> exn option) op"
  pf_decisions_table :: "str \<Rightarrow> str \<Rightarrow> ('w, str, 'j decision_item) table_port"
  pf_idempotency_table :: "str \<Rightarrow> str \<Rightarrow> ('w, idempotency_key, 'j idempotency_item) table_port"
  pf_put_events :: "str \<Rightarrow> pyval \<Rightarrow> ('w, unit) op"
  pf_dump_result :: "inference_result \<Rightarrow> 'j"
  pf_validate_result :: "'j \<Rightarrow> inference_result result"
  pf_dump_record :: "audit_record \<Rightarrow> 'j"
  pf_validate_record :: "'j \<Rightarrow> audit_record result"
  pf_coercions :: coercions

text \<open>\<open>os.environ\<close>: \<open>get\<close> with a default, the subscript, and a variable that counts when it is not empty.\<close>

type_synonym environ = "str \<rightharpoonup> str"

definition environ_or :: "environ \<Rightarrow> str \<Rightarrow> str \<Rightarrow> str" where
  "environ_or env k d = (case env k of None \<Rightarrow> d | Some v \<Rightarrow> v)"

definition environ_item :: "environ \<Rightarrow> str \<Rightarrow> str result" where
  "environ_item env k = (case env k of None \<Rightarrow> Inl Key_Error | Some v \<Rightarrow> Inr v)"

definition environ_truthy :: "environ \<Rightarrow> str \<Rightarrow> str option" where
  "environ_truthy env k = (case env k of None \<Rightarrow> None | Some v \<Rightarrow> if v = [] then None else Some v)"

definition path_join :: "str \<Rightarrow> str \<Rightarrow> str" where
  "path_join dir name = (if dir = [] then name else dir @ ''/'' @ name)"

section \<open>The adapters over the process\<close>

definition lift_table :: "('w, 'k, 'v) table_port \<Rightarrow> ('w process, 'k, 'v) table_port" where
  "lift_table t =
     \<lparr>tb_put_if = (\<lambda>c k v. on_world (tb_put_if t c k v)), tb_put = (\<lambda>k v. on_world (tb_put t k v)),
      tb_get = (\<lambda>k. on_world (tb_get t k)), tb_delete = (\<lambda>k. on_world (tb_delete t k))\<rparr>"

definition process_policies :: "config_environment \<Rightarrow> str \<Rightarrow> str \<Rightarrow> 'w process routing_policy_repository" where
  "process_policies files applications_dir default_policy_path =
     \<lparr>rp_resolve = (\<lambda>a. on_policies (local_policy_resolve files applications_dir default_policy_path a))\<rparr>"

definition process_health :: "health_repository \<Rightarrow> 'w process model_health_repository" where
  "process_health cfg =
     \<lparr>mh_get_health = (\<lambda>a. on_health (get_health cfg a)), mh_record_outcome = (\<lambda>a st. on_health (record_outcome a st))\<rparr>"

text \<open>Default retry policy, \<open>time.sleep\<close> and \<open>random.random\<close>, as the constructors have them.\<close>

definition default_retries :: "('w, 'j) platform \<Rightarrow> 'w retry_env" where
  "default_retries pf = \<lparr>re_policy = default_retry_policy, re_sleep = pf_sleep pf, re_jitter = pf_random pf\<rparr>"

definition bedrock_adapter :: "('w, 'j) platform \<Rightarrow> str \<Rightarrow> model_catalogue \<Rightarrow> 'w bedrock_provider" where
  "bedrock_adapter pf region catalogue =
     \<lparr>bdp_converse = pf_converse pf region, bdp_converse_stream = pf_converse_stream pf region,
      bdp_catalogue = catalogue, bdp_retry = default_retries pf, bdp_coercions = pf_coercions pf\<rparr>"

definition openai_adapter :: "('w, 'j) platform \<Rightarrow> str \<Rightarrow> model_catalogue \<Rightarrow> 'w openai_provider" where
  "openai_adapter pf api_key catalogue =
     \<lparr>oap_create = pf_create pf api_key, oap_create_stream = pf_create_stream pf api_key,
      oap_catalogue = catalogue, oap_retry = default_retries pf\<rparr>"

definition process_provider ::
  "(provider_request \<Rightarrow> ('w, provider_response) op) \<Rightarrow> (provider_request \<Rightarrow> ('w, chunk_stream) op result) \<Rightarrow>
   'w process model_provider" where
  "process_provider call stream =
     \<lparr>mp_invoke = (\<lambda>r. on_world (call r)), mp_invoke_stream = Some (\<lambda>r. new_generator (stream r)), mp_next = next_chunk\<rparr>"

definition bedrock_process :: "'w bedrock_provider \<Rightarrow> 'w process model_provider" where
  "bedrock_process b = process_provider (bedrock_invoke b) (bedrock_invoke_stream b)"

definition openai_process :: "'w openai_provider \<Rightarrow> 'w process model_provider" where
  "openai_process p = process_provider (openai_invoke p) (openai_invoke_stream p)"

text \<open>
  \<open>providers\<close>: the Bedrock adapter, and the OpenAI adapter with the key of the secret when the
  environment names one.
\<close>

definition build_providers ::
  "('w, 'j) platform \<Rightarrow> environ \<Rightarrow> str \<Rightarrow> model_catalogue \<Rightarrow>
   ('w process, provider_name \<Rightarrow> 'w process model_provider option) op" where
  "build_providers pf env region catalogue =
     (let bedrock_only = [Provider_BEDROCK \<mapsto> bedrock_process (bedrock_adapter pf region catalogue)]
      in case environ_truthy env ''OPENAI_API_KEY_SECRET_ARN'' of
           None \<Rightarrow> return_io bedrock_only
         | Some arn \<Rightarrow>
             bind_io (on_world (pf_secret_string pf region arn)) (\<lambda>api_key.
               return_io (bedrock_only(Provider_OPENAI \<mapsto> openai_process (openai_adapter pf api_key catalogue)))))"

definition process_decisions ::
  "('w, 'j) platform \<Rightarrow> str \<Rightarrow> str \<Rightarrow> ('w process, 'j) dynamo_decisions" where
  "process_decisions pf region table_name =
     \<lparr>ddc_table = lift_table (pf_decisions_table pf region table_name),
      ddc_retention_seconds = default_retention_seconds, ddc_clock_seconds = on_world (pf_time pf),
      ddc_dump_record = pf_dump_record pf, ddc_validate_record = pf_validate_record pf\<rparr>"

definition process_idempotency ::
  "('w, 'j) platform \<Rightarrow> str \<Rightarrow> str \<Rightarrow> ('w process, 'j) dynamo_idempotency" where
  "process_idempotency pf region table_name =
     \<lparr>dyn_table = lift_table (pf_idempotency_table pf region table_name),
      dyn_stale_reservation_seconds = 300, dyn_clock_seconds = on_world (pf_time pf),
      dyn_dump_result = pf_dump_result pf, dyn_validate_result = pf_validate_result pf\<rparr>"

definition process_emf :: "('w, 'j) platform \<Rightarrow> str \<Rightarrow> 'w process emf_publisher" where
  "process_emf pf environment =
     \<lparr>emf_environment = environment, emf_time = on_world (pf_time pf), emf_print = (\<lambda>v. on_world (pf_print pf v))\<rparr>"

definition process_events :: "('w, 'j) platform \<Rightarrow> str \<Rightarrow> str \<Rightarrow> 'w process event_publisher" where
  "process_events pf region bus =
     \<lparr>evp_put_events = (\<lambda>v. on_world (pf_put_events pf region v)), evp_event_bus_name = bus\<rparr>"

section \<open>build_services\<close>

definition build_route_service ::
  "('w, 'j) platform \<Rightarrow> config_environment \<Rightarrow> str \<Rightarrow> model_catalogue \<Rightarrow> 'w process route_evaluation_service" where
  "build_route_service pf files policies_dir catalogue =
     \<lparr>svc_policy_repository = process_policies files (path_join policies_dir ''applications'')
        (path_join policies_dir ''default_policy.yaml''),
      svc_model_catalogue = catalogue,
      svc_token_estimator = default_token_estimator 4,
      svc_cost_estimator = default_cost_estimator,
      svc_clock = system_clock (on_world (pf_now pf)),
      svc_identifier_generator = uuid4_identifier_generator (on_world (pf_uuid4_hex pf)),
      svc_model_health_repository = Some (process_health default_health)\<rparr>"

text \<open>The new objects of the process: empty caches, no failures counted.\<close>

definition fresh_objects :: "('w process, unit) op" where
  "fresh_objects = (\<lambda>p. (Inr (), p\<lparr>pc_policies := new_policy_repository, pc_health := Map.empty\<rparr>))"

definition assemble_services ::
  "('w, 'j) platform \<Rightarrow> environ \<Rightarrow> str \<Rightarrow> model_catalogue \<Rightarrow> 'w process route_evaluation_service \<Rightarrow>
   (provider_name \<Rightarrow> 'w process model_provider option) \<Rightarrow> str \<Rightarrow> str \<Rightarrow> 'w process handler_services" where
  "assemble_services pf env region catalogue route_service providers decisions_name idempotency_name =
     (let decision_repository = dynamo_decision_repository (process_decisions pf region decisions_name)
      in \<lparr>hs_catalogue = catalogue,
          hs_route_service = route_service,
          hs_orchestrator =
            \<lparr>orc_route_evaluation_service = route_service,
             orc_policy_repository = svc_policy_repository route_service,
             orc_model_provider = composite_model_provider
               \<lparr>cmp_catalogue = catalogue, cmp_providers = providers, cmp_next = next_chunk\<rparr>,
             orc_idempotency_store = Some (dynamo_idempotency_store (process_idempotency pf region idempotency_name)),
             orc_decision_repository = Some decision_repository,
             orc_model_health_repository = Some (process_health default_health),
             orc_metrics_publisher = Some (emf_metrics_publisher
               (process_emf pf (environ_or env ''ENVIRONMENT_NAME'' ''dev''))),
             orc_decision_event_publisher =
               map_option (\<lambda>bus. eventbridge_publisher (process_events pf region bus))
                 (environ_truthy env ''DECISION_EVENTS_BUS_NAME''),
             orc_monotonic = on_world (pf_monotonic pf)\<rparr>,
          hs_decision_repository = decision_repository\<rparr>)"

definition build_services ::
  "('w, 'j) platform \<Rightarrow> config_environment \<Rightarrow> environ \<Rightarrow> ('w process, 'w process handler_services) op" where
  "build_services pf files env =
     (let policies_dir = environ_or env ''POLICIES_DIR'' ''policies'';
          region = environ_or env ''AWS_REGION'' ''us-east-1''
      in bind_io (lift_r (local_file_model_catalogue files (path_join policies_dir ''model_catalogue.yaml''))) (\<lambda>catalogue.
         bind_io fresh_objects (\<lambda>_.
         bind_io (build_providers pf env region catalogue) (\<lambda>providers.
         bind_io (lift_r (environ_item env ''DECISIONS_TABLE_NAME'')) (\<lambda>decisions_name.
         bind_io (lift_r (environ_item env ''IDEMPOTENCY_TABLE_NAME'')) (\<lambda>idempotency_name.
         return_io (assemble_services pf env region catalogue (build_route_service pf files policies_dir catalogue)
           providers decisions_name idempotency_name)))))))"

section \<open>Inversion\<close>

lemma build_providers_Inr:
  assumes "build_providers pf env region catalogue s = (Inr providers, s')"
  shows "\<exists>w. s' = s\<lparr>pc_world := w\<rparr>"
    and "(environ_truthy env ''OPENAI_API_KEY_SECRET_ARN'' = None \<and>
         providers = [Provider_BEDROCK \<mapsto> bedrock_process (bedrock_adapter pf region catalogue)]) \<or>
      (\<exists>arn key. environ_truthy env ''OPENAI_API_KEY_SECRET_ARN'' = Some arn \<and>
         providers = [Provider_BEDROCK \<mapsto> bedrock_process (bedrock_adapter pf region catalogue),
                      Provider_OPENAI \<mapsto> openai_process (openai_adapter pf key catalogue)])"
proof -
  have same: "s = s\<lparr>pc_world := pc_world s\<rparr>" by simp
  consider "environ_truthy env ''OPENAI_API_KEY_SECRET_ARN'' = None" "s' = s"
      "providers = [Provider_BEDROCK \<mapsto> bedrock_process (bedrock_adapter pf region catalogue)]"
    | arn key w where "environ_truthy env ''OPENAI_API_KEY_SECRET_ARN'' = Some arn" "s' = s\<lparr>pc_world := w\<rparr>"
      "providers = [Provider_BEDROCK \<mapsto> bedrock_process (bedrock_adapter pf region catalogue),
                    Provider_OPENAI \<mapsto> openai_process (openai_adapter pf key catalogue)]"
    using assms unfolding build_providers_def Let_def on_world_def
    by (cases "environ_truthy env ''OPENAI_API_KEY_SECRET_ARN''") (auto simp: io_inv)
  note found = this
  show "\<exists>w. s' = s\<lparr>pc_world := w\<rparr>"
    using found same by cases blast+
  show "(environ_truthy env ''OPENAI_API_KEY_SECRET_ARN'' = None \<and>
         providers = [Provider_BEDROCK \<mapsto> bedrock_process (bedrock_adapter pf region catalogue)]) \<or>
      (\<exists>arn key. environ_truthy env ''OPENAI_API_KEY_SECRET_ARN'' = Some arn \<and>
         providers = [Provider_BEDROCK \<mapsto> bedrock_process (bedrock_adapter pf region catalogue),
                      Provider_OPENAI \<mapsto> openai_process (openai_adapter pf key catalogue)])"
    using found by cases blast+
qed

lemma build_services_Inr:
  assumes "build_services pf files env s = (Inr svc, s')"
  obtains policies_dir region catalogue providers decisions_name idempotency_name s1 where
    "policies_dir = environ_or env ''POLICIES_DIR'' ''policies''" "region = environ_or env ''AWS_REGION'' ''us-east-1''"
    "local_file_model_catalogue files (path_join policies_dir ''model_catalogue.yaml'') = Inr catalogue"
    "build_providers pf env region catalogue (s\<lparr>pc_policies := new_policy_repository, pc_health := Map.empty\<rparr>) = (Inr providers, s')"
    "env ''DECISIONS_TABLE_NAME'' = Some decisions_name" "env ''IDEMPOTENCY_TABLE_NAME'' = Some idempotency_name"
    "svc = assemble_services pf env region catalogue (build_route_service pf files policies_dir catalogue) providers
       decisions_name idempotency_name"
  using assms
  by (auto simp: build_services_def Let_def io_inv fresh_objects_def environ_item_def split: option.splits)

end
