(* ===== verification/Api_Properties.thy ===== *)
theory Api_Properties
  imports Api_Handler Decision_Store
begin

text \<open>
  Properties of the HTTP interface: what each status means, who may read a decision, which bodies
  are rejected and how, and the path of a decision from the inference endpoint through the
  orchestrator and the decision repository to the audit endpoint.
\<close>

section \<open>Results\<close>

text \<open>A result carries a response exactly when it names a model.\<close>

definition answered :: "inference_result \<Rightarrow> bool" where
  "answered r \<longleftrightarrow> (res_response r \<noteq> None \<longleftrightarrow> dec_selected_model_alias (res_decision r) \<noteq> None)"

lemma evaluate_route_application:
  assumes "evaluate_route svc request s = (Inr d, s')"
  shows "dec_application_id d = ir_application_id request"
  using assms by (cases rule: evaluate_route_cases) (simp_all add: build_decision_Inr(1))

lemma invoke_uncached_result:
  assumes "invoke_uncached orc request s = (Inr r, s')"
  shows "answered r" and "dec_application_id (res_decision r) = ir_application_id request"
proof -
  have "answered r \<and> dec_application_id (res_decision r) = ir_application_id request"
    using assms
  proof (cases rule: invoke_uncached_cases)
    case (no_chain d s1 p s2)
    have "dec_selected_model_alias d = None"
      using no_chain(3) chain_starts_selected[of d _ "pol_fallback_policy p"]
      by (cases "dec_selected_model_alias d") auto
    then show ?thesis using no_chain(4) evaluate_route_application[OF no_chain(1)] by (simp add: answered_def)
  next
    case (chain d s1 p s2 prg s3 f)
    have "prg_response prg = None \<longleftrightarrow> prg_succeeded_alias prg = None"
      using attempt_chain_follows[OF chain(4)] by auto
    then show ?thesis
      using chain(6) aggregate_decision_Inr(1,6)[OF chain(5)] evaluate_route_application[OF chain(1)]
      by (auto simp: answered_def)
  qed
  then show "answered r" and "dec_application_id (res_decision r) = ir_application_id request" by simp_all
qed

text \<open>A store that replays only results with this property; those it was given by \<open>complete\<close> have it.\<close>

definition replays_answered :: "'s orchestrator \<Rightarrow> bool" where
  "replays_answered orc \<longleftrightarrow>
     (\<forall>store app key h s rsv s' r. orc_idempotency_store orc = Some store \<longrightarrow>
        ids_reserve store app key h s = (Inr rsv, s') \<longrightarrow> rsv_cached_result rsv = Some r \<longrightarrow> answered r)"

lemma run_reserved_returns:
  assumes "run_reserved orc request key store s = (Inr r, s')"
  shows "\<exists>s2. invoke_uncached orc request s = (Inr r, s2)"
proof -
  obtain x s2 where x: "invoke_uncached orc request s = (x, s2)" by (rule prod.exhaust)
  show ?thesis
    using assms x unfolding run_reserved_def Let_def bind_io_Inr_inv attempt_io_inv
    by (cases x) (auto simp: io_inv)
qed

lemma invoke_answered:
  assumes "replays_answered orc" and "invoke orc request s = (Inr r, s')"
  shows "answered r"
proof (cases "ir_idempotency_key request = None \<or> orc_idempotency_store orc = None")
  case True
  then have "invoke_uncached orc request s = (Inr r, s')"
    using assms(2) by (auto simp: invoke_def split: option.splits)
  then show ?thesis by (rule invoke_uncached_result)
next
  case False
  then obtain key store where ks: "ir_idempotency_key request = Some key" "orc_idempotency_store orc = Some store" by auto
  then obtain rsv s1 where rsv: "ids_reserve store (ir_application_id request) key (compute_request_hash request) s = (Inr rsv, s1)"
    using assms(2) by (auto simp: invoke_def invoke_with_idempotency_def io_inv)
  show ?thesis
  proof (cases "rsv_outcome rsv")
    case Outcome_NEW
    then have "run_reserved orc request key store s1 = (Inr r, s')"
      using assms(2) ks rsv by (simp add: invoke_def invoke_with_idempotency_def io_run)
    then have "\<exists>s2. invoke_uncached orc request s1 = (Inr r, s2)" by (rule run_reserved_returns)
    then obtain s2 where "invoke_uncached orc request s1 = (Inr r, s2)" ..
    then show ?thesis by (rule invoke_uncached_result)
  next
    case Outcome_COMPLETED
    then have "rsv_cached_result rsv = Some r"
      using assms(2) ks rsv by (auto simp: invoke_def invoke_with_idempotency_def io_run io_inv split: option.splits)
    then show ?thesis using assms(1) ks(2) rsv unfolding replays_answered_def by blast
  qed (use assms(2) ks rsv in \<open>simp_all add: invoke_def invoke_with_idempotency_def io_run\<close>)
qed

section \<open>Statuses\<close>

lemma map_exception_status: "fst (map_exception_to_status_and_body e i) \<in> {403, 409, 500, 502}"
  by (cases e) simp_all

lemma map_no_selection_status: "fst (map_no_selection_to_status_and_body d a i) \<in> {402, 404, 422, 502}"
  by (simp add: map_no_selection_to_status_and_body_def Let_def)

lemma respond_fields [simp]:
  "rsp_status_code (respond n b) = n" "rsp_body (respond n b) = b"
  "rsp_status_code (respond_pair p) = fst p" "rsp_body (respond_pair p) = snd p"
  by (simp_all add: respond_def respond_pair_def)


section \<open>Bodies that cannot be read\<close>

text \<open>
  A body that parses as JSON but not as a request never reaches a collaborator.  Where it is an
  object whose \<open>requirements\<close> are an object the client is told 400; any other JSON value, and any
  other truthy value as \<open>requirements\<close>, is answered 500, since the parser's attribute lookup
  raises an exception that the handlers do not catch.
\<close>

theorem invalid_body_status:
  assumes "extract_body env event = Inr raw" and "utf8_length raw \<le> env_max_request_body_bytes env"
    and "env_json_loads env raw = Inr body" and "parse_inference_request (env_coercions env) body = Inl e"
    and "request_id_of env event = Inr i" and "caller_principal_arn env event = Inr arn"
    and "get_or event ''httpMethod'' (PV_Str []) = Inr (PV_Str ''POST'')"
    and "get_or event ''resource'' (PV_Str []) \<in> {Inr (PV_Str ''/v1/inference''), Inr (PV_Str ''/v1/routes/evaluate'')}"
  shows "\<exists>resp. dispatch env event svc s = (Inr resp, s) \<and> rsp_status_code resp = (if object_body body then 400 else 500)"
proof -
  obtain r where r: "get_or event ''resource'' (PV_Str []) = Inr r"
    "r \<in> {PV_Str ''/v1/inference'', PV_Str ''/v1/routes/evaluate''}" using assms(8) by auto
  have parsed: "parse_body_or_400 env event i = Inr (Inr body)" using assms(1-3) by (simp add: parse_body_or_400_def)
  have route: "route_event env svc event i (PV_Str ''POST'', r) s =
      (case read_request env event i of
         Inl x \<Rightarrow> (Inl x, s) | Inr (Inl resp) \<Rightarrow> (Inr resp, s)
       | Inr (Inr request) \<Rightarrow> route_event env svc event i (PV_Str ''POST'', r) s)"
    using r(2)
    by (auto simp: route_event_def handle_inference_def handle_routes_evaluate_def io_run split: sum.split)
  show ?thesis
  proof (cases "object_body body")
    case True
    then have "e \<in> {Validation_Error, Key_Error, Type_Error, Value_Error}"
      using raises_onlyD[OF parse_inference_error assms(4)] by (simp add: invalid_request_exns_def)
    then have "\<exists>b. read_request env event i = Inr (Inl (respond 400 b))"
      using parsed assms(4) by (auto simp: read_request_def)
    then show ?thesis
      using True route by (auto simp: dispatch_run[OF assms(5,7) r(1) assms(6)])
  next
    case False
    then have "e = Attribute_Error" using parse_inference_attribute_error assms(4) by fastforce
    then have "read_request env event i = Inl Attribute_Error"
      using parsed assms(4) by (simp add: read_request_def)
    then show ?thesis
      using False route by (simp add: dispatch_run[OF assms(5,7) r(1) assms(6)])
  qed
qed

section \<open>Decisions are for their owner\<close>

lemma handle_get_decision_found:
  assumes "event_parameter ''pathParameters'' event ''decisionId'' = Inr (PV_Str d)" and "d \<noteq> []"
    and "event_parameter ''queryStringParameters'' event ''applicationId'' = Inr a"
    and "rd_get (hs_decision_repository svc) d s = (Inr (Some rec), s')"
  shows "handle_get_decision event i svc s =
    (Inr (if a \<noteq> PV_Str (dec_application_id (aud_decision rec))
          then respond 403 (error_response_body i ''POLICY_DENIED'' ''You are not authorized to view this decision.'' None)
          else respond 200 (serialize_audit_record rec i)), s')"
  using assms by (simp add: handle_get_decision_def io_run)

text \<open>
  C23. A decision is disclosed to its owner only: whenever the audit endpoint answers 200, the
  repository holds that record under the requested identifier and the caller named the application
  the decision was made for.  On any other answer the body is one of the fixed error bodies and
  depends on nothing in the record.
\<close>

theorem decisions_only_to_owner:
  assumes "handle_get_decision event i svc s = (Inr resp, s')"
  shows "(rsp_status_code resp = 200 \<longrightarrow>
      (\<exists>d rec. event_parameter ''pathParameters'' event ''decisionId'' = Inr (PV_Str d) \<and>
         rd_get (hs_decision_repository svc) d s = (Inr (Some rec), s') \<and>
         event_parameter ''queryStringParameters'' event ''applicationId'' =
           Inr (PV_Str (dec_application_id (aud_decision rec))) \<and>
         rsp_body resp = serialize_audit_record rec i)) \<and>
    (rsp_status_code resp \<noteq> 200 \<longrightarrow>
      (rsp_status_code resp, rsp_body resp) \<in>
        {(400, error_response_body i ''INVALID_REQUEST'' ''decisionId is required.'' None),
         (404, error_response_body i ''NOT_FOUND'' ''No such routing decision.'' None),
         (403, error_response_body i ''POLICY_DENIED'' ''You are not authorized to view this decision.'' None)})"
proof -
  obtain p where p: "event_parameter ''pathParameters'' event ''decisionId'' = Inr p"
    using assms by (auto simp: handle_get_decision_def io_inv)
  show ?thesis
  proof (cases "truthy p")
    case False
    then show ?thesis using assms p by (auto simp: handle_get_decision_def io_run)
  next
    case True
    then obtain a d found where r: "event_parameter ''queryStringParameters'' event ''applicationId'' = Inr a"
      "p = PV_Str d" "rd_get (hs_decision_repository svc) d s = (Inr found, s')"
      "resp = (case found of
           None \<Rightarrow> respond 404 (error_response_body i ''NOT_FOUND'' ''No such routing decision.'' None)
         | Some rec \<Rightarrow>
             if a \<noteq> PV_Str (dec_application_id (aud_decision rec))
             then respond 403 (error_response_body i ''POLICY_DENIED'' ''You are not authorized to view this decision.'' None)
             else respond 200 (serialize_audit_record rec i))"
      using assms p by (cases p) (auto simp: handle_get_decision_def io_inv)
    then show ?thesis using p by (cases found) auto
  qed
qed

section \<open>From the inference endpoint to the audit endpoint\<close>


section \<open>Error bodies are fixed\<close>

definition exception_answers :: "(int \<times> str \<times> str) list" where
  "exception_answers =
     [(403, ''POLICY_DENIED'', ''No routing policy is configured for this application.''),
      (409, ''IDEMPOTENCY_CONFLICT'', ''This idempotency key was already used for a different request.''),
      (409, ''IDEMPOTENCY_IN_PROGRESS'', ''A request with this idempotency key is already being processed.''),
      (500, ''INTERNAL_ERROR'', ''The router's configuration could not be loaded.''),
      (502, ''PROVIDER_UNAVAILABLE'', ''The model provider is currently unavailable.''),
      (500, ''INTERNAL_ERROR'', ''An unexpected error occurred.'')]"

text \<open>
  No exception text reaches a client: whatever is raised behind the inference or the evaluation
  endpoint is answered with one of six fixed statuses, codes and messages, and 500 is given to every
  exception that is not one of the domain's.
\<close>

theorem exception_texts_hidden:
  "(\<exists>(n, c, m)\<in>set exception_answers.
      map_exception_to_status_and_body e i = (n, error_response_body i c m None)) \<and>
   (fst (map_exception_to_status_and_body e i) \<noteq> 500 \<longrightarrow> is_domain_error e)"
  by (cases e) (simp_all add: exception_answers_def)

section \<open>A concrete service\<close>

text \<open>The shipped configuration, the audited sample world and an environment that knows two bodies.\<close>

definition sample_env :: handler_env where
  "sample_env =
     \<lparr>env_json_loads = (\<lambda>t. if t = ''request'' then Inr (request_body (sample_request ''support-assistant'' None))
                            else if t = ''[]'' then Inr (PV_List []) else Inl Json_Decode_Error),
      env_b64decode = (\<lambda>v. Inl Value_Error), env_float_repr = (\<lambda>q. ''0.0''),
      env_max_request_body_bytes = default_max_request_body_bytes, env_coercions = strict_coercions\<rparr>"

definition sample_services :: "audited_world handler_services" where
  "sample_services =
     \<lparr>hs_catalogue = shipped_catalogue, hs_route_service = sample_service,
      hs_orchestrator = audited_orchestrator, hs_decision_repository = audited_repository\<rparr>"

definition post_event :: "str \<Rightarrow> pyval" where
  "post_event body = PV_Dict
     [(''httpMethod'', PV_Str ''POST''), (''resource'', PV_Str ''/v1/inference''), (''body'', PV_Str body),
      (''requestContext'', PV_Dict [(''requestId'', PV_Str ''req_1'')])]"

definition decision_event :: "str \<Rightarrow> str \<Rightarrow> pyval" where
  "decision_event d app = PV_Dict
     [(''pathParameters'', PV_Dict [(''decisionId'', PV_Str d)]),
      (''queryStringParameters'', PV_Dict [(''applicationId'', PV_Str app)])]"

lemma attempt_chain_repository:
  "attempt_chain (orc\<lparr>orc_decision_repository := x\<rparr>) request d eff chain ats codes =
   attempt_chain orc request d eff chain ats codes"
proof (induction chain arbitrary: ats codes)
  case (Cons a chain)
  have same: "close_attempt (orc\<lparr>orc_decision_repository := x\<rparr>) = close_attempt orc"
    "orc_monotonic (orc\<lparr>orc_decision_repository := x\<rparr>) = orc_monotonic orc"
    "orc_model_provider (orc\<lparr>orc_decision_repository := x\<rparr>) = orc_model_provider orc"
    by (simp_all add: close_attempt_def record_health_outcome_def fun_eq_iff)
  have "invoke_attempt (orc\<lparr>orc_decision_repository := x\<rparr>) request d eff a = invoke_attempt orc request d eff a"
    unfolding invoke_attempt_def same ..
  then show ?case using Cons.IH by simp
qed simp

lemma invoke_uncached_repository:
  assumes run: "invoke_uncached orc request s = (Inr r, s1)"
    and none: "orc_decision_repository orc = None" "orc_metrics_publisher orc = None" "orc_decision_event_publisher orc = None"
    and save: "rd_save repo \<lparr>aud_decision = res_decision r, aud_invocation_attempts = res_invocation_attempts r\<rparr> s1 = (Inr (), s')"
  shows "invoke_uncached (orc\<lparr>orc_decision_repository := Some repo\<rparr>) request s = (Inr r, s')"
proof -
  have fin: "finish orc x t = (Inr x, t)" for x t
    by (simp add: finish_def persist_def publish_metrics_def publish_decision_event_def none io_run)
  have fin': "finish (orc\<lparr>orc_decision_repository := Some repo\<rparr>) r s1 = (Inr r, s')"
    by (simp add: finish_def persist_def publish_metrics_def publish_decision_event_def none io_run save)
  show ?thesis
    using run
  proof (cases rule: invoke_uncached_cases)
    case (no_chain d t p t')
    then show ?thesis using fin' by (simp add: invoke_uncached_def io_run fin)
  next
    case (chain d t p t' prg t3 f)
    then show ?thesis using fin' by (simp add: invoke_uncached_def io_run fin attempt_chain_repository)
  qed
qed

lemma sample_decision_id:
  assumes "invoke_uncached sample_orchestrator request s = (Inr r, s')"
  shows "dec_decision_id (res_decision r) \<noteq> []"
proof -
  have build: "dec_decision_id d \<noteq> []"
    if "build_decision sample_service q p cap sel cs codes w = (Inr d, w')" for q p cap sel cs codes w d w'
    using that by (auto simp: build_decision_def Let_def io_inv sample_service_def sample_identifiers_def)
  have eval: "dec_decision_id d \<noteq> []" if "evaluate_route sample_service request s = (Inr d, w)" for d w
    using that by (cases rule: evaluate_route_cases) (auto dest: build)
  show ?thesis
    using assms
    by (cases rule: invoke_uncached_cases) (auto dest!: eval simp: aggregate_decision_Inr(5))
qed

lemma sample_served:
  obtains r s' where "invoke audited_orchestrator (sample_request ''support-assistant'' None) audited_start = (Inr r, s')"
    "dec_selected_model_alias (res_decision r) = Some ''balanced-text-secondary''" "dec_decision_id (res_decision r) \<noteq> []"
proof -
  obtain r d w1 where r: "invoke_uncached sample_orchestrator (sample_request ''support-assistant'' None) audited_start = (Inr r, w1)"
    "dec_selected_model_alias (res_decision r) = Some ''balanced-text-secondary''"
    using sample_invoke_from[OF audited_start_new, of None] by (elim exE conjE)
  have "\<exists>s'. rd_save audited_repository rec w = (Inr (), s')" for rec :: audit_record and w :: audited_world
    by (simp add: audited_repository_def memory_save_def io_run)
  then obtain s' where "rd_save audited_repository
      \<lparr>aud_decision = res_decision r, aud_invocation_attempts = res_invocation_attempts r\<rparr> w1 = (Inr (), s')"
    by blast
  then have "invoke_uncached audited_orchestrator (sample_request ''support-assistant'' None) audited_start = (Inr r, s')"
    unfolding audited_orchestrator_def
    by (intro invoke_uncached_repository[OF r(1)]) (simp_all add: sample_orchestrator_def)
  then show ?thesis using that r(2) sample_decision_id[OF r(1)] by (simp add: invoke_def sample_request_def)
qed

lemma sample_reads:
  "extract_body sample_env (post_event b) = Inr b"
  "request_id_of sample_env (post_event b) = Inr ''req_1''"
  "caller_principal_arn sample_env (post_event b) = Inr ''none''"
  "get_or (post_event b) ''httpMethod'' (PV_Str []) = Inr (PV_Str ''POST'')"
  "get_or (post_event b) ''resource'' (PV_Str []) = Inr (PV_Str ''/v1/inference'')"
  "proxy_event (post_event b)"
  by (simp_all add: extract_body_def request_id_of_def caller_principal_arn_def post_event_def proxy_event_def
      or_empty_def Let_def)

lemma sample_read_request:
  "read_request sample_env (post_event ''request'') i = Inr (Inr (sample_request ''support-assistant'' None))"
proof -
  let ?r = "sample_request ''support-assistant'' None"
  have "validate_inference_request ?r = Inr ?r"
    by (simp add: validate_inference_request_def sample_request_def is_blank_def is_space_def routing_requirements_ok_def
        balanced_requirements_def)
  then have "parse_inference_request strict_coercions (request_body ?r) = Inr ?r"
    by (rule request_body_parsed[OF strict_coercions_exact]) (simp add: sample_request_def)
  then show ?thesis
    by (simp add: read_request_def parse_body_or_400_def sample_reads utf8_length_def)
      (simp add: sample_env_def default_max_request_body_bytes_def)
qed

lemma sample_inference:
  obtains r s' where "handle_inference sample_env (post_event ''request'') i sample_services audited_start =
      (Inr (respond 200 (serialize_inference_result r i)), s')" "dec_decision_id (res_decision r) \<noteq> []"
proof -
  obtain r s' where "invoke audited_orchestrator (sample_request ''support-assistant'' None) audited_start = (Inr r, s')"
    "dec_selected_model_alias (res_decision r) = Some ''balanced-text-secondary''"
    "dec_decision_id (res_decision r) \<noteq> []" by (rule sample_served)
  then show ?thesis
    using that by (simp add: handle_inference_def io_run sample_read_request sample_services_def)
qed

theorem dispatch_always_answers_witness:
  "\<exists>resp s'. dispatch sample_env (post_event ''[]'') sample_services audited_start = (Inr resp, s') \<and>
     json_safe (rsp_body resp)"
  using dispatch_always_answers[OF sample_reads(6)[of "''[]''"], of sample_env sample_services audited_start] by blast


theorem invalid_body_status_witness:
  "\<exists>resp. dispatch sample_env (post_event ''[]'') sample_services audited_start = (Inr resp, audited_start) \<and>
     rsp_status_code resp = 500"
proof -
  have "\<exists>resp. dispatch sample_env (post_event ''[]'') sample_services audited_start = (Inr resp, audited_start) \<and>
     rsp_status_code resp = (if object_body (PV_List []) then 400 else 500)"
  proof (rule invalid_body_status[OF sample_reads(1) _ _ _ sample_reads(2,3,4)])
    show "parse_inference_request (env_coercions sample_env) (PV_List []) = Inl Attribute_Error"
      by (rule parse_inference_attribute_error) (simp add: object_body_def)
    show "env_json_loads sample_env ''[]'' = Inr (PV_List [])" "utf8_length ''[]'' \<le> env_max_request_body_bytes sample_env"
      by (simp_all add: sample_env_def utf8_length_def default_max_request_body_bytes_def)
  qed (simp add: sample_reads)
  then show ?thesis by (simp add: object_body_def)
qed

definition audited_record_start :: audited_world where
  "audited_record_start = audited_start\<lparr>aw_decisions := [''dec_1'' \<mapsto> some_audit_record]\<rparr>"

lemma decision_event_reads:
  "event_parameter ''pathParameters'' (decision_event d a) ''decisionId'' = Inr (PV_Str d)"
  "event_parameter ''queryStringParameters'' (decision_event d a) ''applicationId'' = Inr (PV_Str a)"
  by (simp_all add: event_parameter_def decision_event_def or_empty_def)

theorem decisions_only_to_owner_witness:
  "\<exists>resp. handle_get_decision (decision_event ''dec_1'' ''other'') ''req_1'' sample_services audited_record_start =
     (Inr resp, audited_record_start) \<and> rsp_status_code resp \<noteq> 200"
proof -
  have got: "rd_get (hs_decision_repository sample_services) ''dec_1'' audited_record_start =
      (Inr (Some some_audit_record), audited_record_start)"
    by (simp add: sample_services_def audited.get_law audited_record_start_def)
  obtain resp where run: "handle_get_decision (decision_event ''dec_1'' ''other'') ''req_1'' sample_services audited_record_start =
      (Inr resp, audited_record_start)"
    using handle_get_decision_found[OF decision_event_reads(1) _ decision_event_reads(2) got] by auto
  have "dec_application_id (aud_decision some_audit_record) \<noteq> ''other''"
    by (simp add: some_audit_record_def some_result_def)
  then have "rsp_status_code resp \<noteq> 200"
    using conjunct1[OF decisions_only_to_owner[OF run]] by (simp only: decision_event_reads) (use got in force)
  then show ?thesis using run by blast
qed


theorem exception_texts_hidden_witness:
  "\<exists>(n, c, m)\<in>set exception_answers. map_exception_to_status_and_body (ProviderError ''secret'' Category_TIMEOUT) ''req_1'' =
     (n, error_response_body ''req_1'' c m None)"
  using exception_texts_hidden[of "ProviderError ''secret'' Category_TIMEOUT" "''req_1''"] by (rule conjunct1)

end
