(* ===== verification/Deployed_Service.thy ===== *)
theory Deployed_Service
  imports Services Api_Properties
begin

text \<open>
  The service \<open>build_services\<close> wires, as a whole: over a platform that behaves as documented the
  composed orchestrator meets the contracts its parts were verified against, the state of the
  process keeps its invariant over any sequence of events, and a valid request of an application
  with a policy is never answered with an internal error.
\<close>

section \<open>Operations on parts of the process\<close>

text \<open>A property of the process that does not look at the world.\<close>

definition world_free :: "('w process \<Rightarrow> bool) \<Rightarrow> bool" where
  "world_free P \<longleftrightarrow> (\<forall>p w. P (p\<lparr>pc_world := w\<rparr>) = P p)"

lemma preserves_on_world [io_keep]: "world_free P \<Longrightarrow> preserves_io P (on_world m)"
  by (auto simp: preserves_io_def on_world_def world_free_def io_inv)

lemma on_world_inv [io_inv]: "on_world m p = (r, p') \<longleftrightarrow> (\<exists>w. m (pc_world p) = (r, w) \<and> p' = p\<lparr>pc_world := w\<rparr>)"
  by (simp add: on_world_def io_inv)

lemma total_on_part: "total_io m \<Longrightarrow> total_io (on_part g h m)"
  by (simp add: total_io_def on_part_def) (metis (no_types, lifting) old.prod.case)

lemma total_on_world: "total_io m \<Longrightarrow> total_io (on_world m)"
  by (simp add: on_world_def total_on_part)

lemma total_on_health:
  "total_io (on_health (get_health cfg a))" "total_io (on_health (record_outcome a st))"
  unfolding on_health_def
  by (rule total_on_part, simp add: total_io_def get_health_def record_outcome_def)+

text \<open>Every policy in the caches passed its checks, and no failure counter is negative.\<close>

definition process_inv :: "'w process \<Rightarrow> bool" where
  "process_inv p \<longleftrightarrow>
     policy_repository_inv (pc_policies p) \<and> (\<forall>a n. pc_health p a = Some n \<longrightarrow> 0 \<le> n)"

lemma world_free_inv: "world_free process_inv" "world_free (\<lambda>p. pc_policies p = st)"
  by (simp_all add: world_free_def process_inv_def)

lemma preserves_on_health:
  "preserves_io process_inv (on_health (get_health cfg a))" "preserves_io process_inv (on_health (record_outcome a status))"
  "preserves_io (\<lambda>p. pc_policies p = st) (on_health m)"
  by (auto simp: preserves_io_def on_health_def process_inv_def io_inv get_health_def record_outcome_def
      consecutive_failures_def split: if_splits option.splits)

section \<open>Policies\<close>

lemma local_policy_resolve_inv:
  assumes "policy_repository_inv st" and "local_policy_resolve files dir dflt app st = (r, st')"
  shows "policy_repository_inv st' \<and> (\<forall>p. r = Inr p \<longrightarrow> policy_ok p)"
proof (cases "prs_cache st app")
  case (Some p)
  then show ?thesis using assms by (auto simp: local_policy_resolve_def policy_repository_inv_def)
next
  case no_cache: None
  show ?thesis
  proof (cases "find_application_policy_file files dir app")
    case (Some path)
    show ?thesis
    proof (cases "load_policy files path")
      case (Inr q)
      then show ?thesis
        using assms no_cache Some load_policy_ok[OF Inr]
        by (auto simp: local_policy_resolve_def policy_repository_inv_def split: if_splits)
    qed (use assms no_cache Some in \<open>auto simp: local_policy_resolve_def\<close>)
  next
    case None
    obtain q st1 where d: "load_default_policy files dflt st = (q, st1)" by fastforce
    show ?thesis
      using load_default_policy_inv[OF assms(1) d] assms(2) no_cache None d
      by (auto simp: local_policy_resolve_def split: sum.splits option.splits)
  qed
qed

lemma local_policy_resolve_again:
  assumes "local_policy_resolve files dir dflt app st = (Inr p, st')"
  shows "local_policy_resolve files dir dflt app st' = (Inr p, st')"
proof (cases "prs_cache st app")
  case (Some q)
  then show ?thesis using assms by (auto simp: local_policy_resolve_def)
next
  case no_cache: None
  show ?thesis
  proof (cases "find_application_policy_file files dir app")
    case (Some path)
    then show ?thesis
      using assms no_cache by (cases "load_policy files path") (auto simp: local_policy_resolve_def)
  next
    case None
    then have "load_default_policy files dflt st = (Inr (Some p), st')"
      using assms no_cache by (auto simp: local_policy_resolve_def split: prod.splits sum.splits option.splits)
    then have "prs_cache st' app = None" "load_default_policy files dflt st' = (Inr (Some p), st')"
      using no_cache by (auto simp: load_default_policy_def Let_def split: if_splits sum.splits)
    then show ?thesis using None by (simp add: local_policy_resolve_def)
  qed
qed

section \<open>Evaluation returns\<close>

lemma candidate_total:
  assumes "0 < eff_maximum_output_tokens eff" and "eff_maximum_output_tokens eff < 10 ^ 9"
    and "sum_list (map (\<lambda>x. int (length (msg_content x))) msgs) \<le> 3 * 10 ^ 9" and "pricing_in_range (md_pricing m)"
  shows "\<exists>c. evaluate_candidate m eff p (default_token_estimator 4) default_cost_estimator msgs h = Inr c"
proof -
  obtain u where u: "default_token_estimate 4 msgs (eff_maximum_output_tokens eff) = Inr u"
    "us_output_tokens u = eff_maximum_output_tokens eff" "1 \<le> us_input_tokens u"
    "\<forall>t\<ge>1. us_input_tokens u \<le> t \<longleftrightarrow> sum_list (map (\<lambda>x. int (length (msg_content x))) msgs) \<le> 4 * t"
    using token_estimate_ceiling[of 4 "eff_maximum_output_tokens eff" msgs] assms(1) by auto
  have "us_input_tokens u \<le> 75 * 10 ^ 7" using u(4)[rule_format, of "75 * 10 ^ 7"] assms(3) by simp
  then have "usage_in_range u" using u(2,3) assms(1,2) by (simp add: usage_in_range_def)
  then obtain c where "default_cost_estimate u (md_pricing m) = Inr c"
    using default_cost_estimate_eq[OF _ assms(4)] by blast
  then show ?thesis
    using u(1) by (simp add: evaluate_candidate_def Let_def default_token_estimator_def default_cost_estimator_def)
qed

lemma resolved_tokens_le: "eff_maximum_output_tokens (resolve_effective_requirements r p) \<le> pol_maximum_output_tokens p"
  by (simp add: resolve_effective_requirements_def Let_def split: option.split)

lemma evaluate_route_returns:
  fixes svc :: "'s route_evaluation_service"
  assumes res: "rp_resolve (svc_policy_repository svc) (ir_application_id request) s = (Inr p, s1)" and "policy_ok p"
    and ck: "total_io (ck_now (svc_clock svc))" "preserves_io P (ck_now (svc_clock svc))"
    and ig: "\<And>x. total_io (ig_new_id (svc_identifier_generator svc) x)" "\<And>x. preserves_io P (ig_new_id (svc_identifier_generator svc) x)"
    and mh: "\<And>h a. svc_model_health_repository svc = Some h \<Longrightarrow> total_io (mh_get_health h a)"
      "\<And>h a. svc_model_health_repository svc = Some h \<Longrightarrow> preserves_io P (mh_get_health h a)"
    and cand: "\<And>m h. m \<in> set (mc_find_by_capability (svc_model_catalogue svc) (req_capability (ir_requirements request))) \<Longrightarrow>
      \<exists>c. evaluate_candidate m (resolve_effective_requirements (ir_requirements request) p) p
            (svc_token_estimator svc) (svc_cost_estimator svc) (ir_messages request) h = Inr c"
    and "P s1"
  shows "\<exists>d s'. evaluate_route svc request s = (Inr d, s') \<and> P s'"
proof -
  have build: "total_io (build_decision svc request p c sel cs codes)" "preserves_io P (build_decision svc request p c sel cs codes)"
    for c sel cs codes
    unfolding build_decision_def Let_def
    by (intro total_io_bind total_io_return ck ig, intro io_keep ck ig)
  have health: "total_io (candidate_health (svc_model_health_repository svc) a)"
    "preserves_io P (candidate_health (svc_model_health_repository svc) a)" for a
    using mh by (auto simp: candidate_health_def intro: io_keep split: option.split)
  define eff where "eff = resolve_effective_requirements (ir_requirements request) p"
  define models where "models = mc_find_by_capability (svc_model_catalogue svc) (req_capability (ir_requirements request))"
  have cap: "eff_capability eff = req_capability (ir_requirements request)"
    by (simp add: eff_def resolve_effective_requirements_def Let_def)
  let ?cands = "build_route_candidates models eff p (svc_token_estimator svc) (svc_cost_estimator svc)
    (ir_messages request) (svc_model_health_repository svc)"
  have cands: "total_io ?cands" "preserves_io P ?cands"
    unfolding build_route_candidates_def
    by (rule total_io_map, rule total_io_bind[OF health(1)], simp add: total_io_lift cand[folded eff_def models_def])
      (intro io_keep health)
  have "total_io (lift_r (get_strategy t el p eff ctx))" for t el ctx
    using strategy_total[OF assms(2)] by (simp add: total_io_lift)
  note rest = cands build this
  obtain x s' where x: "evaluate_route svc request s = (x, s')" by (rule prod.exhaust)
  define go where "go =
    (if req_capability (ir_requirements request) \<notin> set (pol_allowed_capabilities p)
     then build_decision svc request p (req_capability (ir_requirements request)) no_selection [] [REQUIRED_CAPABILITY_UNAVAILABLE]
     else if models = []
     then build_decision svc request p (req_capability (ir_requirements request)) no_selection [] [REQUIRED_CAPABILITY_UNAVAILABLE]
     else bind_io ?cands (\<lambda>candidates.
       bind_io (lift_r (get_strategy (pol_routing_strategy p) (filter rc_eligible candidates) p eff
         \<lparr>ctx_application_id = ir_application_id request, ctx_conversation_id = ir_conversation_id request\<rparr>)) (\<lambda>selection.
       build_decision svc request p (req_capability (ir_requirements request)) selection candidates (selection_codes selection))))"
  have "evaluate_route svc request s = go s1"
    unfolding evaluate_route_def Let_def go_def models_def eff_def[symmetric] cap bind_io_def[of "rp_resolve _ _"]
    by (simp only: res prod.case sum.case eff_def[symmetric] cap)
  moreover have "total_io go" "preserves_io P go"
    unfolding go_def by (auto intro!: total_io_bind io_keep rest)
  ultimately show ?thesis
    using x preserves_ioD[of P go s1 x s'] assms(10) unfolding total_io_def by (metis Pair_inject)
qed

section \<open>The platform\<close>

text \<open>
  What the wired service relies on, and the libraries document.  The monotonic clock is part of
  the world and no call turns it back; sleeping, randomness, the clocks, identifiers and printing
  return; a Bedrock or OpenAI call raises nothing but the library's exceptions, its answers can be
  read or are malformed, and token counts are not negative; writing a decision returns.
  EventBridge may do anything.
\<close>

locale platform_contract =
  fixes pf :: "('w, 'j) platform" and ticks :: "'w \<Rightarrow> rat"
  assumes monotonic_reads: "pf_monotonic pf w = (Inr (ticks w), w)"
    and converse_forward: "preserves_io (\<lambda>w. c \<le> ticks w) (pf_converse pf region payload)"
    and create_forward: "preserves_io (\<lambda>w. c \<le> ticks w) (pf_create pf key payload)"
    and sleep_forward: "preserves_io (\<lambda>w. c \<le> ticks w) (pf_sleep pf d)"
    and random_forward: "preserves_io (\<lambda>w. c \<le> ticks w) (pf_random pf)"
    and returns: "total_io (pf_sleep pf d)" "total_io (pf_random pf)" "total_io (pf_now pf)" "total_io (pf_time pf)"
      "total_io (pf_uuid4_hex pf)" "total_io (pf_print pf v)" "total_io (tb_put (pf_decisions_table pf region name) k i)"
    and converse_raises: "pf_converse pf region payload w = (Inl e, w') \<Longrightarrow> bedrock_caught e \<noteq> None"
    and converse_answers: "pf_converse pf region payload w = (Inr raw, w') \<Longrightarrow>
      parse_converse_response (pf_coercions pf) raw a p = Inl e \<Longrightarrow> e = malformed_response"
    and create_raises: "pf_create pf key payload w = (Inl e, w') \<Longrightarrow> openai_caught e \<noteq> None"
    and create_counts: "pf_create pf key payload w = (Inr done, w') \<Longrightarrow> cc_usage done = Some u \<Longrightarrow>
      0 \<le> cu_prompt_tokens u \<and> 0 \<le> cu_completion_tokens u"
begin

lemma retries_forward:
  assumes "\<And>c. preserves_io (\<lambda>w. c \<le> ticks w) call"
  shows "preserves_io (\<lambda>w. c \<le> ticks w) (with_retries (default_retries pf) caught call n)"
  using assms
proof (induction "default_retries pf" caught call n rule: with_retries.induct)
  case (1 caught call n)
  have "preserves_io (\<lambda>w. c \<le> ticks w) (re_jitter (default_retries pf))"
    "preserves_io (\<lambda>w. c \<le> ticks w) (re_sleep (default_retries pf) d)" for d
    by (simp_all add: default_retries_def sleep_forward random_forward)
  then show ?case
    using 1 by (subst with_retries.simps) (intro io_keep; auto intro!: io_keep split: sum.split option.split)
qed

lemma adapters_forward:
  "preserves_io (\<lambda>w. c \<le> ticks w) (bedrock_invoke (bedrock_adapter pf region cat) pr)"
  "preserves_io (\<lambda>w. c \<le> ticks w) (openai_invoke (openai_adapter pf key cat) pr)"
  unfolding bedrock_invoke_def openai_invoke_def bedrock_adapter_def openai_adapter_def
  by (auto intro!: io_keep retries_forward converse_forward create_forward split: prod.split)

lemma adapters_raise:
  "bedrock_invoke (bedrock_adapter pf region cat) pr w = (Inl e, w') \<Longrightarrow> provider_error_category_of e \<noteq> None"
  "openai_invoke (openai_adapter pf key cat) pr w = (Inl e, w') \<Longrightarrow> provider_error_category_of e \<noteq> None"
proof -
  have mal: "provider_error_category_of malformed_response \<noteq> None"
    by (simp add: malformed_response_def permanent_error_def)
  have pauses: "pauses_return (default_retries pf)"
    by (simp add: pauses_return_def default_retries_def returns)
  show "bedrock_invoke (bedrock_adapter pf region cat) pr w = (Inl e, w') \<Longrightarrow> provider_error_category_of e \<noteq> None"
  proof (erule bedrock.raises_provider_errors[rotated -1])
    show "pauses_return (bdp_retry (bedrock_adapter pf region cat))" using pauses by (simp add: bedrock_adapter_def)
    show "provider_error_category_of e \<noteq> None" if "bdp_converse (bedrock_adapter pf region cat) (build_converse_request r t) w = (Inr raw, w')"
      "parse_converse_response (bdp_coercions (bedrock_adapter pf region cat)) raw (pr_model_alias r) (md_provider m) = Inl e"
      for r m t w raw w' e
      using converse_answers[of region "build_converse_request r t" w raw w' "pr_model_alias r" "md_provider m" e] that mal
      by (simp add: bedrock_adapter_def)
  qed (auto simp: bedrock_adapter_def dest: converse_raises)
  show "openai_invoke (openai_adapter pf key cat) pr w = (Inl e, w') \<Longrightarrow> provider_error_category_of e \<noteq> None"
  proof (erule openai.raises_provider_errors[rotated -1])
    show "pauses_return (oap_retry (openai_adapter pf key cat))" using pauses by (simp add: openai_adapter_def)
    show "provider_error_category_of e \<noteq> None" if "oap_create (openai_adapter pf key cat) (build_chat_completion_request r t) w = (Inr raw, w')"
      "parse_chat_completion_response raw (pr_model_alias r) (md_provider m) = Inl e" for r m t w raw w' e
      using parse_chat_error[OF that(2)] create_counts[of key _ w raw w'] that(1) mal by (auto simp: openai_adapter_def)
  qed (auto simp: openai_adapter_def dest: create_raises)
qed

text \<open>The composite over the adapters that were built.\<close>

lemma built_provider:
  assumes "build_providers pf env region cat s0 = (Inr providers, s1)"
    and "mp_invoke (composite_model_provider \<lparr>cmp_catalogue = cat, cmp_providers = providers, cmp_next = nx\<rparr>) pr s = (x, s')"
  shows "ticks (pc_world s) \<le> ticks (pc_world s')" and "x = Inl e \<Longrightarrow> provider_error_category_of e \<noteq> None"
proof -
  let ?c = "\<lparr>cmp_catalogue = cat, cmp_providers = providers, cmp_next = nx\<rparr>"
  have run: "composite_invoke ?c pr s = (x, s')" using assms(2) by (simp add: composite_model_provider_def)
  have adapter: "(\<exists>key. p = bedrock_process (bedrock_adapter pf region cat) \<or> p = openai_process (openai_adapter pf key cat))"
    if "providers n = Some p" for n p
    using build_providers_Inr(2)[OF assms(1)] that by (auto split: if_splits)
  have raises: "provider_error_category_of e \<noteq> None"
    if "cmp_providers ?c n = Some p" "mp_invoke p pr s = (Inl e, s')" for n p pr s e s'
    using adapter[of n p] that adapters_raise
    by (auto simp: bedrock_process_def openai_process_def process_provider_def io_inv)
  show "x = Inl e \<Longrightarrow> provider_error_category_of e \<noteq> None"
    using composite_raises[of ?c pr s e s'] raises run by blast
  show "ticks (pc_world s) \<le> ticks (pc_world s')"
  proof (cases "composite_resolve_provider ?c pr")
    case (Inl e)
    then show ?thesis using run by (simp add: composite_invoke_def io_run)
  next
    case (Inr p)
    then have "mp_invoke p pr s = (x, s')" using run by (simp add: composite_invoke_def bind_lift_Inr)
    moreover obtain n where "providers n = Some p"
      using Inr by (auto simp: composite_resolve_provider_def split: option.splits)
    ultimately show ?thesis
      using adapter[of n p] preserves_ioD[OF adapters_forward(1), of "ticks (pc_world s)" "pc_world s" region cat pr x]
        preserves_ioD[OF adapters_forward(2), of "ticks (pc_world s)" "pc_world s" _ cat pr x]
      by (auto simp: bedrock_process_def openai_process_def process_provider_def io_inv)
  qed
qed

text \<open>The environment of the orchestrator that \<open>build_services\<close> wires.\<close>

lemma built_environment:
  assumes "build_services pf files env s0 = (Inr svc, s1)"
  shows "orchestrator_environment (hs_orchestrator svc) (\<lambda>s. ticks (pc_world s))"
proof -
  obtain dir region cat providers dn idn where b:
    "build_providers pf env region cat (s0\<lparr>pc_policies := new_policy_repository, pc_health := Map.empty\<rparr>) = (Inr providers, s1)"
    "svc = assemble_services pf env region cat (build_route_service pf files dir cat) providers dn idn"
    using assms by (rule build_services_Inr)
  have emf: "total_io (emf_publish (process_emf pf e) r)" for e r
    by (rule emf_publish_total) (simp_all add: process_emf_def total_on_world returns)
  have save: "total_io (dynamo_save (process_decisions pf region dn) rec)" for rec
    unfolding dynamo_save_def process_decisions_def lift_table_def
    by (intro total_io_bind) (simp_all add: total_on_world returns)
  have events: "total_io (event_publish pub r)" for pub r
    by (auto simp: event_publish_def total_io_def io_run split: prod.split)
  show ?thesis
    by (unfold_locales; (simp add: b(2) assemble_services_def Let_def)?)
      (auto simp: on_world_def on_part_def monotonic_reads emf_metrics_publisher_def emf process_health_def total_on_health
        dynamo_decision_repository_def save eventbridge_publisher_def events dest: built_provider[OF b(1)])
qed

end

section \<open>The process keeps its invariant\<close>

lemma preserves_on_policies:
  "preserves_io process_inv (on_policies (local_policy_resolve files dir dflt a))"
  using local_policy_resolve_inv by (auto simp: preserves_io_def on_policies_def process_inv_def io_inv)

lemma preserves_lifted_table [io_keep]:
  assumes "world_free P"
  shows "preserves_io P (tb_put_if (lift_table t) c k v)" "preserves_io P (tb_put (lift_table t) k v)"
    "preserves_io P (tb_get (lift_table t) k)" "preserves_io P (tb_delete (lift_table t) k)"
  by (simp_all add: lift_table_def preserves_on_world[OF assms])

definition store_preserves :: "('s \<Rightarrow> bool) \<Rightarrow> 's idempotency_store \<Rightarrow> bool" where
  "store_preserves P store \<longleftrightarrow>
     (\<forall>a k h. preserves_io P (ids_reserve store a k h)) \<and>
     (\<forall>a k h r c n. preserves_io P (ids_complete store a k h r c n)) \<and> (\<forall>a k. preserves_io P (ids_release store a k))"

lemma lifted_store_preserves:
  assumes "world_free P"
  shows "store_preserves P (dynamo_idempotency_store (process_idempotency pf region n))"
proof -
  let ?cfg = "process_idempotency pf region n"
  have tab: "dyn_table ?cfg = lift_table (pf_idempotency_table pf region n)" "dyn_clock_seconds ?cfg = on_world (pf_time pf)"
    by (simp_all add: process_idempotency_def)
  have tries: "preserves_io P (dynamo_try_reserve ?cfg a k h)" for a k h
    unfolding dynamo_try_reserve_def tab Let_def
    by (intro io_keep assms) (auto intro!: io_keep assms split: sum.split option.split)
  have "preserves_io P (dynamo_reserve_loop m ?cfg a k h)" for m a k h
    by (induction m) (auto intro!: io_keep tries split: option.split)
  then show ?thesis
    unfolding store_preserves_def dynamo_idempotency_store_def dynamo_reserve_def dynamo_complete_def dynamo_release_def tab
    by (auto intro!: io_keep assms)
qed

lemma invoke_preserves:
  assumes "ports_preserve P orc" and "\<And>st. orc_idempotency_store orc = Some st \<Longrightarrow> store_preserves P st"
  shows "preserves_io P (invoke orc request)"
proof -
  have reserved: "preserves_io P (run_reserved orc request key st)" if "store_preserves P st" for key st
    using that assms(1) invoke_uncached_preserves[OF assms(1)]
    unfolding run_reserved_def Let_def store_preserves_def ports_preserve_def
    by (intro io_keep) (auto intro!: io_keep split: sum.split)
  have "preserves_io P (invoke_with_idempotency orc request key st)" if "store_preserves P st" for key st
    using that reserved[OF that]
    unfolding invoke_with_idempotency_def store_preserves_def
    by (intro io_keep) (auto intro!: io_keep split: idempotency_outcome.split option.split)
  then show ?thesis
    using assms invoke_uncached_preserves[OF assms(1)] unfolding invoke_def by (auto split: option.split)
qed

lemma dispatch_preserves:
  assumes "ports_preserve P (hs_orchestrator svc)" and "\<And>st. orc_idempotency_store (hs_orchestrator svc) = Some st \<Longrightarrow> store_preserves P st"
    and "service_preserves P (hs_route_service svc)" and "\<And>i. preserves_io P (rd_get (hs_decision_repository svc) i)"
  shows "preserves_io P (dispatch henv event svc)"
proof -
  have "preserves_io P (handle_inference henv event i svc)" for i
    using invoke_preserves[OF assms(1,2)] unfolding handle_inference_def
    by (intro io_keep) (auto intro!: io_keep split: sum.split)
  moreover have "preserves_io P (handle_routes_evaluate henv event i svc)" for i
    using evaluate_route_preserves[OF assms(3)] unfolding handle_routes_evaluate_def
    by (intro io_keep) (auto intro!: io_keep split: sum.split)
  moreover have "preserves_io P (handle_get_decision event i svc)" for i
    unfolding handle_get_decision_def by (intro io_keep assms(4))
  ultimately have "preserves_io P (route_event henv svc event i t)" for i t
    unfolding route_event_def by (intro io_keep)
  then show ?thesis
    unfolding dispatch_def by (intro io_keep) (auto intro!: io_keep split: sum.split)
qed

lemma emf_preserves:
  assumes "world_free P"
  shows "preserves_io P (emf_publish (process_emf pf e) r)"
  by (intro io_keep) (simp_all add: process_emf_def io_keep assms)

lemma built_preserves:
  assumes "build_services pf files env s0 = (Inr svc, s1)"
  shows "preserves_io process_inv (dispatch henv event svc)"
proof -
  obtain dir region cat providers dn idn where b:
    "build_providers pf env region cat (s0\<lparr>pc_policies := new_policy_repository, pc_health := Map.empty\<rparr>) = (Inr providers, s1)"
    "svc = assemble_services pf env region cat (build_route_service pf files dir cat) providers dn idn"
    using assms by (rule build_services_Inr)
  note free = world_free_inv(1)
  have service: "service_preserves process_inv (build_route_service pf files dir cat)"
    unfolding service_preserves_def build_route_service_def process_policies_def process_health_def system_clock_def
      uuid4_identifier_generator_def
    by (auto intro!: io_keep free preserves_on_policies preserves_on_health)
  have adapter: "preserves_io process_inv (mp_invoke p pr)" if "providers n = Some p" for n p pr
    using build_providers_Inr(2)[OF b(1)] that
    by (auto simp: bedrock_process_def openai_process_def process_provider_def intro!: io_keep free split: if_splits)
  have "preserves_io process_inv (composite_invoke \<lparr>cmp_catalogue = cat, cmp_providers = providers, cmp_next = nx\<rparr> pr)" for nx pr
  proof (cases "composite_resolve_provider \<lparr>cmp_catalogue = cat, cmp_providers = providers, cmp_next = nx\<rparr> pr")
    case (Inl e)
    then show ?thesis by (simp add: composite_invoke_def preserves_io_def io_run)
  next
    case (Inr p)
    moreover obtain n where "providers n = Some p"
      using Inr by (auto simp: composite_resolve_provider_def split: option.splits)
    ultimately show ?thesis using adapter by (simp add: composite_invoke_def bind_lift_Inr)
  qed
  note provider = this
  have save: "preserves_io process_inv (dynamo_save (process_decisions pf region dn) rec)" for rec
    unfolding dynamo_save_def process_decisions_def by (simp add: io_keep free)
  have get: "preserves_io process_inv (dynamo_get (process_decisions pf region dn) i)" for i
    unfolding dynamo_get_def process_decisions_def by (auto intro!: io_keep free split: option.split)
  have events: "preserves_io process_inv (event_publish (process_events pf region bus) r)" for bus r
    unfolding event_publish_def process_events_def by (simp add: io_keep free)
  have "ports_preserve process_inv (hs_orchestrator svc)"
    unfolding ports_preserve_def b(2) assemble_services_def Let_def
    using service provider save events emf_preserves[OF free]
    by (auto simp: composite_model_provider_def build_route_service_def process_policies_def process_health_def
        dynamo_decision_repository_def emf_metrics_publisher_def eventbridge_publisher_def
        intro!: preserves_on_policies preserves_on_health preserves_on_world free)
  then show ?thesis
    by (rule dispatch_preserves)
      (use service get lifted_store_preserves[OF free] in \<open>auto simp: b(2) assemble_services_def Let_def dynamo_decision_repository_def\<close>)
qed

section \<open>A process over its lifetime\<close>

text \<open>The events one process handles, one after the other, from a cold start on.\<close>

fun serve_all ::
  "handler_env \<Rightarrow> ('s, 's handler_services) op \<Rightarrow> pyval list \<Rightarrow> 's \<times> 's handler_services option \<Rightarrow>
   's \<times> 's handler_services option" where
  "serve_all henv build [] st = st"
| "serve_all henv build (event # events) st = serve_all henv build events (snd (lambda_handler henv build event st))"

lemma built_fresh: "build_services pf files env s0 = (Inr svc, s1) \<Longrightarrow> process_inv s1"
  by (erule build_services_Inr, drule build_providers_Inr(1)) (auto simp: process_inv_def)

lemma lambda_handler_keeps:
  assumes "\<forall>svc. snd st = Some svc \<longrightarrow> process_inv (fst st) \<and> (\<exists>s0 s1. build_services pf files env s0 = (Inr svc, s1))"
    and "lambda_handler henv (build_services pf files env) event st = (r, st')"
  shows "\<forall>svc. snd st' = Some svc \<longrightarrow> process_inv (fst st') \<and> (\<exists>s0 s1. build_services pf files env s0 = (Inr svc, s1))"
proof -
  obtain s cached where st: "st = (s, cached)" by (rule prod.exhaust)
  have run: "process_inv s'' \<and> (\<exists>s0 s1. build_services pf files env s0 = (Inr svc, s1))"
    if "process_inv s'" "build_services pf files env s0 = (Inr svc, s1)" "dispatch henv event svc s' = (x, s'')" for s' s'' s0 s1 svc x
    using preserves_ioD[OF built_preserves[OF that(2)] that(1,3)] that(2) by blast
  show ?thesis
  proof (cases cached)
    case (Some svc)
    then obtain s0 s1 where b: "build_services pf files env s0 = (Inr svc, s1)" "process_inv s" using assms(1) st by auto
    obtain x s' where d: "dispatch henv event svc s = (x, s')" by (rule prod.exhaust)
    then have "st' = (s', Some svc)" using assms(2) by (simp add: st Some lambda_handler_def on_part_def)
    then show ?thesis using run[OF b(2,1) d] by simp
  next
    case None
    obtain b s1 where b: "build_services pf files env s = (b, s1)" by (rule prod.exhaust)
    show ?thesis
    proof (cases b)
      case (Inl e)
      then show ?thesis using assms(2) b by (auto simp: st None lambda_handler_def)
    next
      case (Inr svc)
      obtain x s' where d: "dispatch henv event svc s1 = (x, s')" by (rule prod.exhaust)
      then have "st' = (s', Some svc)" using assms(2) b Inr by (simp add: st None lambda_handler_def on_part_def)
      then show ?thesis using run[OF built_fresh[OF b[unfolded Inr]] b[unfolded Inr] d] by simp
    qed
  qed
qed

lemma serve_all_keeps:
  assumes "serve_all henv (build_services pf files env) events (p0, None) = (s, Some svc)"
  shows "process_inv s \<and> (\<exists>s0 s1. build_services pf files env s0 = (Inr svc, s1))"
proof -
  let ?ok = "\<lambda>st. \<forall>svc. snd st = Some svc \<longrightarrow> process_inv (fst st) \<and> (\<exists>s0 s1. build_services pf files env s0 = (Inr svc, s1))"
  have "?ok (serve_all henv (build_services pf files env) events st)" if "?ok st" for st
    using that
  proof (induction events arbitrary: st)
    case (Cons event events)
    obtain r st' where h: "lambda_handler henv (build_services pf files env) event st = (r, st')" by (rule prod.exhaust)
    from Cons.IH[OF lambda_handler_keeps[OF Cons.prems h]] show ?case using h by simp
  qed simp
  from this[of "(p0, None)"] show ?thesis using assms by simp
qed

section \<open>No internal errors\<close>

lemma loaded_catalogue:
  assumes "local_file_model_catalogue files path = Inr cat"
  obtains data items xs version models where "load_structured_file files path = Inr data"
    "raw_get ''models'' data = Some items" "env_items files items = Some xs"
    "map_r (load_model files) xs = Inr models" "build_catalogue version models = Inr cat"
proof -
  obtain data where data: "load_structured_file files path = Inr data"
    using assms by (auto simp: local_file_model_catalogue_def)
  show ?thesis
  proof (cases "raw_get ''catalogue_version'' data")
    case (Some v)
    then show ?thesis
      using assms data that
      by (cases "raw_get ''models'' data") (auto simp: local_file_model_catalogue_def split: option.splits)
  qed (use assms data in \<open>simp add: local_file_model_catalogue_def\<close>)
qed

lemma loaded_catalogue_contract: "local_file_model_catalogue files path = Inr cat \<Longrightarrow> catalogue_contract cat"
  by (elim loaded_catalogue build_catalogue_contract)

text \<open>Requests whose cost can be estimated: prices, output limit and text within the estimator's range.\<close>

definition estimable :: "model_catalogue \<Rightarrow> routing_policy \<Rightarrow> inference_request \<Rightarrow> bool" where
  "estimable cat p request \<longleftrightarrow>
     list_all (\<lambda>m. pricing_in_range (md_pricing m)) (mc_all_models cat) \<and>
     pol_maximum_output_tokens p < 10 ^ 9 \<and>
     sum_list (map (\<lambda>m. int (length (msg_content m))) (ir_messages request)) \<le> 3 * 10 ^ 9"

lemma deployed_invoke_returns:
  fixes pf :: "('w, 'j) platform"
  assumes "platform_contract pf ticks" and built: "build_services pf files env s0 = (Inr svc, s1)" and "process_inv s"
    and valid: "validate_inference_request request = Inr request" and "estimable (hs_catalogue svc) p request"
    and res: "rp_resolve (svc_policy_repository (hs_route_service svc)) (ir_application_id request) s = (Inr p, s2)"
  shows "\<exists>r s'. invoke_uncached (hs_orchestrator svc) request s = (Inr r, s')"
proof -
  obtain dir region cat providers dn idn where b:
    "local_file_model_catalogue files (path_join dir ''model_catalogue.yaml'') = Inr cat"
    "svc = assemble_services pf env region cat (build_route_service pf files dir cat) providers dn idn"
    using built by (rule build_services_Inr)
  let ?svc = "build_route_service pf files dir cat"
  have parts: "hs_route_service svc = ?svc" "orc_route_evaluation_service (hs_orchestrator svc) = ?svc"
    "orc_policy_repository (hs_orchestrator svc) = svc_policy_repository ?svc" "hs_catalogue svc = cat"
    by (simp_all add: b(2) assemble_services_def Let_def)
  obtain st where local: "local_policy_resolve files (path_join dir ''applications'') (path_join dir ''default_policy.yaml'')
      (ir_application_id request) (pc_policies s) = (Inr p, st)" and s2: "s2 = s\<lparr>pc_policies := st\<rparr>"
    using res by (auto simp: parts build_route_service_def process_policies_def on_policies_def io_inv)
  have ok: "policy_ok p" using local_policy_resolve_inv[OF _ local] assms(3) by (simp add: process_inv_def)
  have req: "routing_requirements_ok (ir_requirements request)" "ir_messages request \<noteq> []"
    using valid by (auto simp: validate_inference_request_def split: if_splits)
  let ?eff = "resolve_effective_requirements (ir_requirements request) p"
  have cand: "\<exists>c. evaluate_candidate m ?eff p (default_token_estimator 4) default_cost_estimator (ir_messages request) h = Inr c"
    if "m \<in> set (mc_find_by_capability cat cap)" for m h cap
    using that assms(5) resolve_output_tokens_pos[OF ok req(1)] resolved_tokens_le[of "ir_requirements request" p]
      catalogue_contract.find_iff[OF loaded_catalogue_contract[OF b(1)]]
    by (intro candidate_total) (auto simp: estimable_def parts list_all_iff)
  note total = platform_contract.returns[OF assms(1)]
  have "\<exists>d s'. evaluate_route ?svc request s = (Inr d, s') \<and> pc_policies s' = st"
    by (rule evaluate_route_returns[where P = "\<lambda>q. pc_policies q = st", OF res[unfolded parts] ok])
      (auto simp: build_route_service_def system_clock_def uuid4_identifier_generator_def process_health_def s2
        intro!: total_on_world total_io_bind total total_on_health preserves_on_health io_keep world_free_inv cand)
  then obtain d s3 where d: "evaluate_route ?svc request s = (Inr d, s3)" "pc_policies s3 = st" by blast
  have "\<exists>s4. rp_resolve (svc_policy_repository ?svc) (ir_application_id request) s3 = (Inr p, s4)"
    using local_policy_resolve_again[OF local] d(2)
    by (simp add: build_route_service_def process_policies_def on_policies_def on_part_def)
  then obtain s4 where again: "rp_resolve (svc_policy_repository ?svc) (ir_application_id request) s3 = (Inr p, s4)" by blast
  show ?thesis
    by (rule orchestrator_environment.invocation_total[OF platform_contract.built_environment[OF assms(1) built] _ _ ok req])
      (unfold parts, rule d(1), rule again)
qed

lemma read_request_valid:
  assumes "read_request henv event i = Inr (Inr request)"
  shows "validate_inference_request request = Inr request"
proof -
  obtain parsed where parsed: "parse_body_or_400 henv event i = Inr parsed"
    using assms by (auto simp: read_request_def)
  show ?thesis
  proof (cases parsed)
    case (Inr body)
    then show ?thesis
      using assms parsed parse_inference_valid[of "env_coercions henv" body]
      by (cases "parse_inference_request (env_coercions henv) body") (auto simp: read_request_def split: if_splits)
  qed (use assms parsed in \<open>simp add: read_request_def\<close>)
qed


section \<open>The shipped configuration on a sample platform\<close>

text \<open>The entries of the shipped catalogue file, as far as the deployment reads them.\<close>

definition raw_of_model :: "model_definition \<Rightarrow> raw" where
  "raw_of_model m = Raw_Map
     [(''model_alias'', Raw_Str (md_model_alias m)), (''provider'', Raw_Str (provider_name_value (md_provider m))),
      (''resolution'', Raw_Map
         [(''type'', Raw_Str (model_resolution_type_value (mr_type (md_resolution m)))),
          (''value'', Raw_Str (mr_value (md_resolution m)))])]"

definition shipped_files :: config_environment where
  "shipped_files = shipped_environment
     \<lparr>env_yaml := (\<lambda>content.
        if content = ''policies/model_catalogue.yaml''
        then Some (Raw_Map [(''catalogue_version'', Raw_Int 1), (''models'', Raw_List (map raw_of_model shipped_models))])
        else Some (Raw_Map [(''policy_id'', Raw_Str content)])),
      env_model := (\<lambda>item. first_such (\<lambda>m. raw_of_model m = item) shipped_models)\<rparr>"

lemma shipped_load:
  "map_r (load_model shipped_files) (map raw_of_model shipped_models) = Inr shipped_models"
proof -
  have "first_such (\<lambda>m. raw_of_model m = raw_of_model m') ms = Some m'"
    if "m' \<in> set ms" "distinct (map md_model_alias ms)" for m' ms
    using that by (induction ms) (auto simp: raw_of_model_def)
  note found = this[OF _ shipped_catalogue_builds[unfolded build_catalogue_Inr, THEN conjunct1]]
  have "load_model shipped_files (raw_of_model m) = Inr m" if "m \<in> set shipped_models" for m
    using found[OF that] shipped_models_valid[OF that] by (simp add: load_model_def shipped_files_def)
  then have "list_all2 (\<lambda>x y. load_model shipped_files x = Inr y) (map raw_of_model ms) ms" if "set ms \<subseteq> set shipped_models" for ms
    using that by (induction ms) auto
  then show ?thesis by (simp add: map_r_Inr_iff)
qed

lemma shipped_catalogue_loads:
  "local_file_model_catalogue shipped_files ''policies/model_catalogue.yaml'' = Inr shipped_catalogue"
proof -
  have "load_structured_file shipped_files ''policies/model_catalogue.yaml'' =
      Inr (Raw_Map [(''catalogue_version'', Raw_Int 1), (''models'', Raw_List (map raw_of_model shipped_models))])"
    by (simp add: load_structured_file_def shipped_files_def shipped_environment_def path_suffix_def path_name_def Let_def)
  moreover have "env_int shipped_files (Raw_Int 1) = Some 1" "env_items shipped_files (Raw_List xs) = Some xs" for xs
    by (simp_all add: shipped_files_def shipped_environment_def)
  ultimately show ?thesis
    by (simp add: local_file_model_catalogue_def raw_get_def shipped_load shipped_catalogue_builds)
qed

text \<open>A platform whose world counts the calls of the model.\<close>

definition sample_platform :: "(nat, unit) platform" where
  "sample_platform =
     \<lparr>pf_now = return_io 0, pf_time = return_io 0, pf_monotonic = (\<lambda>w. (Inr (of_nat w), w)), pf_uuid4_hex = return_io ''0a'',
      pf_sleep = (\<lambda>d. return_io ()), pf_random = return_io (1 / 2), pf_print = (\<lambda>v. return_io ()),
      pf_converse = (\<lambda>region payload w. (Inr (converse_response [''On its way.''] ''end_turn'' 6 4), Suc w)),
      pf_converse_stream = (\<lambda>region payload w. (Inr (converse_stream [''On its way.''] ''end_turn'' 6 4), Suc w)),
      pf_secret_string = (\<lambda>region arn. return_io ''sk-test''),
      pf_create = (\<lambda>key payload w. (Inr (answer_completion [''On its way.''] ''stop'' 6 4), Suc w)),
      pf_create_stream = (\<lambda>key payload w. (Inr (answer_chunks [''On its way.''] ''stop'' 6 4, None), Suc w)),
      pf_decisions_table = (\<lambda>region name. \<lparr>tb_put_if = (\<lambda>c k v. return_io ()), tb_put = (\<lambda>k v. return_io ()),
        tb_get = (\<lambda>k. return_io None), tb_delete = (\<lambda>k. return_io ())\<rparr>),
      pf_idempotency_table = (\<lambda>region name. \<lparr>tb_put_if = (\<lambda>c k v. return_io ()), tb_put = (\<lambda>k v. return_io ()),
        tb_get = (\<lambda>k. return_io None), tb_delete = (\<lambda>k. return_io ())\<rparr>),
      pf_put_events = (\<lambda>region v. raise_io Value_Error),
      pf_dump_result = (\<lambda>r. ()), pf_validate_result = (\<lambda>j. Inl Validation_Error),
      pf_dump_record = (\<lambda>r. ()), pf_validate_record = (\<lambda>j. Inl Validation_Error), pf_coercions = strict_coercions\<rparr>"

interpretation sample_platform: platform_contract sample_platform "\<lambda>w. of_nat w"
proof
  show "parse_converse_response (pf_coercions sample_platform) raw a p = Inl e \<Longrightarrow> e = malformed_response"
    if "pf_converse sample_platform region payload w = (Inr raw, w')" for region payload w raw w' a p e
    using that map_stop_reason_str[of "''end_turn''"] converse_answer_parsed[OF strict_coercions_exact, of 6 4]
    by (fastforce simp: sample_platform_def)
qed (auto simp: sample_platform_def preserves_io_def io_inv answer_completion_def)

definition sample_environ :: environ where
  "sample_environ = [''DECISIONS_TABLE_NAME'' \<mapsto> ''decisions'', ''IDEMPOTENCY_TABLE_NAME'' \<mapsto> ''idempotency'',
     ''OPENAI_API_KEY_SECRET_ARN'' \<mapsto> ''arn:secret'']"

definition cold_process :: "nat process" where
  "cold_process =
     \<lparr>pc_policies = new_policy_repository, pc_health = Map.empty, pc_generators = [], pc_world = 0\<rparr>"

definition health_event :: pyval where
  "health_event = PV_Dict [(''httpMethod'', PV_Str ''GET''), (''resource'', PV_Str ''/health'')]"

text \<open>With the repository's own configuration the services are built on every platform that has the secret.\<close>

lemma shipped_builds:
  assumes "\<And>region arn. pf_secret_string pf region arn = return_io key"
    and "pc_policies p = new_policy_repository" "pc_health p = Map.empty"
  obtains svc where "build_services pf shipped_files sample_environ p = (Inr svc, p)"
    "hs_catalogue svc = shipped_catalogue"
    "svc_policy_repository (hs_route_service svc) = process_policies shipped_files ''policies/applications'' ''policies/default_policy.yaml''"
proof -
  have vars: "environ_or sample_environ ''POLICIES_DIR'' ''policies'' = ''policies''"
    "environ_item sample_environ ''DECISIONS_TABLE_NAME'' = Inr ''decisions''"
    "environ_item sample_environ ''IDEMPOTENCY_TABLE_NAME'' = Inr ''idempotency''"
    "environ_truthy sample_environ ''OPENAI_API_KEY_SECRET_ARN'' = Some ''arn:secret''"
    by (simp_all add: environ_or_def environ_item_def environ_truthy_def sample_environ_def)
  have fresh: "fresh_objects p = (Inr (), p)" using assms(2,3) by (simp add: fresh_objects_def)
  have "\<exists>providers. build_providers pf sample_environ region cat p = (Inr providers, p)" for region cat
    by (simp add: build_providers_def Let_def vars assms(1) io_run on_world_def)
  then obtain providers where
    prov: "build_providers pf sample_environ (environ_or sample_environ ''AWS_REGION'' ''us-east-1'') shipped_catalogue p =
      (Inr providers, p)" by blast
  show ?thesis
    by (rule that, simp add: build_services_def Let_def vars path_join_def shipped_catalogue_loads io_run fresh prov)
      (simp_all add: assemble_services_def Let_def build_route_service_def path_join_def)
qed

lemma sample_builds:
  obtains svc where "build_services sample_platform shipped_files sample_environ cold_process = (Inr svc, cold_process)"
    "hs_catalogue svc = shipped_catalogue"
    "svc_policy_repository (hs_route_service svc) = process_policies shipped_files ''policies/applications'' ''policies/default_policy.yaml''"
proof (rule shipped_builds[of sample_platform "''sk-test''" cold_process])
  show "pf_secret_string sample_platform region arn = return_io ''sk-test''" for region arn by (simp add: sample_platform_def)
qed (simp_all add: cold_process_def that)


end
