(* ===== verification/Deployment.thy ===== *)
theory Deployment
  imports Deployed_Service
begin

text \<open>
  The decisions of \<open>infrastructure/\<close> that the running service depends on: the environments of
  \<open>config.py\<close>, the permissions, secret and environment variables that
  \<open>cdk_constructs/lambda_construct.py\<close> derives from the catalogue file, the routes of
  \<open>cdk_constructs/api_construct.py\<close> and the metrics of \<open>cdk_constructs/observability_construct.py\<close>.
  The CDK library, which turns them into resources, is not modelled.  The theorems relate what is
  deployed to what the service does: the permissions cover exactly the models the adapter can
  call, every model of the catalogue has an adapter, and gateway and handler know the same routes.
\<close>

section \<open>Environments\<close>

datatype removal_policy = Removal_DESTROY | Removal_RETAIN
datatype log_retention = Retention_ONE_WEEK | Retention_THREE_MONTHS

record environment_config =
  ecf_env_name :: str
  ecf_removal_policy :: removal_policy
  ecf_log_retention :: log_retention
  ecf_enable_point_in_time_recovery :: bool
  ecf_lambda_memory_mb :: int
  ecf_lambda_timeout_seconds :: int
  ecf_lambda_reserved_concurrency :: "int option"
  ecf_api_throttling_rate_limit :: int
  ecf_api_throttling_burst_limit :: int
  ecf_decisions_retention_seconds :: int
  ecf_idempotency_stale_reservation_seconds :: int
  ecf_max_request_body_bytes :: int
  ecf_lambda_error_alarm_threshold :: int
  ecf_lambda_throttle_alarm_threshold :: int
  ecf_api_5xx_alarm_threshold :: int
  ecf_provider_failure_alarm_threshold :: int
  ecf_fallback_rate_alarm_threshold_percent :: rat
  ecf_no_eligible_model_alarm_threshold :: int
  ecf_estimated_daily_spend_alarm_threshold_usd :: rat

definition environments :: "(str \<times> environment_config) list" where
  "environments =
     [(''dev'',
       \<lparr>ecf_env_name = ''dev'', ecf_removal_policy = Removal_DESTROY, ecf_log_retention = Retention_ONE_WEEK,
        ecf_enable_point_in_time_recovery = False, ecf_lambda_memory_mb = 512, ecf_lambda_timeout_seconds = 30,
        ecf_lambda_reserved_concurrency = None, ecf_api_throttling_rate_limit = 10,
        ecf_api_throttling_burst_limit = 20, ecf_decisions_retention_seconds = 7 * 24 * 60 * 60,
        ecf_idempotency_stale_reservation_seconds = 300, ecf_max_request_body_bytes = 256 * 1024,
        ecf_lambda_error_alarm_threshold = 5, ecf_lambda_throttle_alarm_threshold = 5, ecf_api_5xx_alarm_threshold = 5,
        ecf_provider_failure_alarm_threshold = 5, ecf_fallback_rate_alarm_threshold_percent = 50,
        ecf_no_eligible_model_alarm_threshold = 5, ecf_estimated_daily_spend_alarm_threshold_usd = 5\<rparr>),
      (''prod'',
       \<lparr>ecf_env_name = ''prod'', ecf_removal_policy = Removal_RETAIN, ecf_log_retention = Retention_THREE_MONTHS,
        ecf_enable_point_in_time_recovery = True, ecf_lambda_memory_mb = 1024, ecf_lambda_timeout_seconds = 30,
        ecf_lambda_reserved_concurrency = Some 10, ecf_api_throttling_rate_limit = 50,
        ecf_api_throttling_burst_limit = 100, ecf_decisions_retention_seconds = 30 * 24 * 60 * 60,
        ecf_idempotency_stale_reservation_seconds = 300, ecf_max_request_body_bytes = 256 * 1024,
        ecf_lambda_error_alarm_threshold = 10, ecf_lambda_throttle_alarm_threshold = 10, ecf_api_5xx_alarm_threshold = 10,
        ecf_provider_failure_alarm_threshold = 10, ecf_fallback_rate_alarm_threshold_percent = 25,
        ecf_no_eligible_model_alarm_threshold = 10, ecf_estimated_daily_spend_alarm_threshold_usd = 100\<rparr>)]"

definition get_environment_config :: "str \<Rightarrow> environment_config result" where
  "get_environment_config env_name =
     (case map_of environments env_name of Some c \<Rightarrow> Inr c | None \<Rightarrow> Inl Value_Error)"

section \<open>The catalogue as the construct reads it\<close>

text \<open>
  The file as parsed data: iteration, \<open>.get\<close>, the subscript and formatting of a value in an
  f-string, where \<open>other\<close> gives the text of values that are neither text nor integers.
\<close>

fun raw_iter :: "raw \<Rightarrow> raw list result" where
  "raw_iter (Raw_List xs) = Inr xs"
| "raw_iter (Raw_Map kvs) = Inr (map (\<lambda>kv. Raw_Str (fst kv)) kvs)"
| "raw_iter (Raw_Str s) = Inr (map (\<lambda>c. Raw_Str [c]) s)"
| "raw_iter _ = Inl Type_Error"

fun raw_dict_get :: "str \<Rightarrow> raw \<Rightarrow> raw option result" where
  "raw_dict_get k (Raw_Map kvs) = Inr (map_of kvs k)"
| "raw_dict_get k _ = Inl Attribute_Error"

fun raw_item :: "str \<Rightarrow> raw \<Rightarrow> raw result" where
  "raw_item k (Raw_Map kvs) = (case map_of kvs k of Some v \<Rightarrow> Inr v | None \<Rightarrow> Inl Key_Error)"
| "raw_item k _ = Inl Type_Error"

fun raw_format :: "(raw \<Rightarrow> str) \<Rightarrow> raw \<Rightarrow> str" where
  "raw_format other (Raw_Str s) = s"
| "raw_format other (Raw_Int i) = int_str i"
| "raw_format other r = other r"

definition load_catalogue_models :: "config_environment \<Rightarrow> str \<Rightarrow> raw result" where
  "load_catalogue_models files repo_root =
     (case env_read files (path_join repo_root ''policies/model_catalogue.yaml'') of
        None \<Rightarrow> Inl (Foreign_Error ''OSError'')
      | Some content \<Rightarrow>
          (case env_yaml files content of
             None \<Rightarrow> Inl (Foreign_Error ''YAMLError'')
           | Some data \<Rightarrow>
               bind_r (raw_dict_get ''models'' data) (\<lambda>models.
                 Inr (case models of None \<Rightarrow> Raw_List [] | Some m \<Rightarrow> m))))"

definition foundation_model_arn :: "str \<Rightarrow> str \<Rightarrow> str" where
  "foundation_model_arn region v = ''arn:aws:bedrock:'' @ region @ ''::foundation-model/'' @ v"

definition inference_profile_arn :: "str \<Rightarrow> str \<Rightarrow> str \<Rightarrow> str" where
  "inference_profile_arn region account_id v =
     ''arn:aws:bedrock:'' @ region @ '':'' @ account_id @ '':inference-profile/'' @ v"

text \<open>One turn of the loop: the ARN an entry adds, if it adds one.\<close>

definition bedrock_resource_arn :: "(raw \<Rightarrow> str) \<Rightarrow> str \<Rightarrow> str \<Rightarrow> raw \<Rightarrow> str option result" where
  "bedrock_resource_arn other region account_id model =
     bind_r (raw_dict_get ''provider'' model) (\<lambda>provider.
       if provider \<noteq> Some (Raw_Str ''bedrock'') then Inr None
       else bind_r (raw_item ''resolution'' model) (\<lambda>resolution.
            bind_r (raw_item ''type'' resolution) (\<lambda>resolution_type.
            bind_r (raw_item ''value'' resolution) (\<lambda>v.
              Inr (if resolution_type = Raw_Str ''direct_model_id''
                   then Some (foundation_model_arn region (raw_format other v))
                   else if resolution_type \<in> {Raw_Str ''cross_region_inference_profile'', Raw_Str ''application_inference_profile''}
                   then Some (inference_profile_arn region account_id (raw_format other v))
                   else None)))))"

text \<open>\<open>sorted\<close> of the set of ARNs.\<close>

definition load_bedrock_resource_arns :: "(raw \<Rightarrow> str) \<Rightarrow> raw \<Rightarrow> str \<Rightarrow> str \<Rightarrow> str list result" where
  "load_bedrock_resource_arns other models region account_id =
     bind_r (raw_iter models) (\<lambda>items.
     bind_r (map_r (bedrock_resource_arn other region account_id) items) (\<lambda>arns.
       Inr (sort (remdups (concat (map (\<lambda>a. case a of None \<Rightarrow> [] | Some x \<Rightarrow> [x]) arns))))))"

text \<open>\<open>any\<close> stops at the first entry that matches.\<close>

fun any_provider :: "str \<Rightarrow> raw list \<Rightarrow> bool result" where
  "any_provider name [] = Inr False"
| "any_provider name (model # items) =
     bind_r (raw_dict_get ''provider'' model) (\<lambda>p. if p = Some (Raw_Str name) then Inr True else any_provider name items)"

definition catalogue_uses_openai :: "raw \<Rightarrow> bool result" where
  "catalogue_uses_openai models = bind_r (raw_iter models) (any_provider ''openai'')"

section \<open>The function\<close>

definition bedrock_actions :: "str list" where
  "bedrock_actions = [''bedrock:InvokeModel'', ''bedrock:Converse'', ''bedrock:ConverseStream'']"

record policy_statement =
  pst_actions :: "str list"
  pst_resources :: "str list"

text \<open>The names and ARNs that CDK gives the tables, the bus and the secret are parameters.\<close>

record deployed_names =
  dn_decisions_table :: str
  dn_idempotency_table :: str
  dn_event_bus :: str
  dn_secret_arn :: str

record lambda_function =
  lfn_handler :: str
  lfn_asset_exclude :: "str list"
  lfn_memory_size :: int
  lfn_timeout_seconds :: int
  lfn_reserved_concurrent_executions :: "int option"
  lfn_log_retention :: log_retention
  lfn_environment :: "(str \<times> str) list"
  lfn_readable_secret :: "str option"
  lfn_put_events_bus :: str
  lfn_decisions_actions :: "str list"
  lfn_idempotency_actions :: "str list"
  lfn_bedrock_statement :: policy_statement
  lfn_alias_name :: str

definition handler_entry_point :: str where
  "handler_entry_point = ''handlers.api_handler.handler''"

definition asset_exclude :: "str list" where
  "asset_exclude =
     [''.git'', ''.github'', ''.idea'', ''.mypy_cache'', ''.pytest_cache'', ''.ruff_cache'', ''.venv'', ''docs'',
      ''infrastructure'', ''scripts'', ''tests'', ''**/__pycache__'', ''**/*.pyc'']"

text \<open>The secret exists when the catalogue has an OpenAI model, and then the function may read it.\<close>

definition openai_secret :: "deployed_names \<Rightarrow> bool \<Rightarrow> str option" where
  "openai_secret names uses_openai = (if uses_openai then Some (dn_secret_arn names) else None)"

definition lambda_environment :: "environment_config \<Rightarrow> deployed_names \<Rightarrow> bool \<Rightarrow> (str \<times> str) list" where
  "lambda_environment config names uses_openai =
     [(''POLICIES_DIR'', ''policies''), (''DECISIONS_TABLE_NAME'', dn_decisions_table names),
      (''IDEMPOTENCY_TABLE_NAME'', dn_idempotency_table names),
      (''MAX_REQUEST_BODY_BYTES'', int_str (ecf_max_request_body_bytes config)), (''LOG_LEVEL'', ''INFO''),
      (''ENVIRONMENT_NAME'', ecf_env_name config), (''DECISION_EVENTS_BUS_NAME'', dn_event_bus names)]
     @ (case openai_secret names uses_openai of None \<Rightarrow> [] | Some arn \<Rightarrow> [(''OPENAI_API_KEY_SECRET_ARN'', arn)])"

definition lambda_construct ::
  "config_environment \<Rightarrow> (raw \<Rightarrow> str) \<Rightarrow> environment_config \<Rightarrow> str \<Rightarrow> deployed_names \<Rightarrow> str \<Rightarrow> str \<Rightarrow> lambda_function result" where
  "lambda_construct files other config repo_root names region account_id =
     bind_r (load_catalogue_models files repo_root) (\<lambda>models.
     bind_r (catalogue_uses_openai models) (\<lambda>uses_openai.
     bind_r (load_bedrock_resource_arns other models region account_id) (\<lambda>arns.
       Inr \<lparr>lfn_handler = handler_entry_point,
            lfn_asset_exclude = asset_exclude,
            lfn_memory_size = ecf_lambda_memory_mb config,
            lfn_timeout_seconds = ecf_lambda_timeout_seconds config,
            lfn_reserved_concurrent_executions = ecf_lambda_reserved_concurrency config,
            lfn_log_retention = ecf_log_retention config,
            lfn_environment = lambda_environment config names uses_openai,
            lfn_readable_secret = openai_secret names uses_openai,
            lfn_put_events_bus = dn_event_bus names,
            lfn_decisions_actions = [''dynamodb:GetItem'', ''dynamodb:PutItem''],
            lfn_idempotency_actions = [''dynamodb:GetItem'', ''dynamodb:PutItem'', ''dynamodb:DeleteItem''],
            lfn_bedrock_statement = \<lparr>pst_actions = bedrock_actions, pst_resources = arns\<rparr>,
            lfn_alias_name = ''live''\<rparr>)))"

section \<open>The gateway\<close>

datatype authorization_type = Authorization_NONE | Authorization_IAM

definition add_resource :: "str \<Rightarrow> str \<Rightarrow> str" where
  "add_resource parent part = parent @ ''/'' @ part"

text \<open>The options of \<open>add_method\<close>: the authorization, and whether \<open>body_required_validator\<close> is set.\<close>

record method_options =
  mo_authorization_type :: authorization_type
  mo_body_required :: bool

definition public_method :: method_options where
  "public_method = \<lparr>mo_authorization_type = Authorization_NONE, mo_body_required = False\<rparr>"

definition iam_method :: "bool \<Rightarrow> method_options" where
  "iam_method body_required = \<lparr>mo_authorization_type = Authorization_IAM, mo_body_required = body_required\<rparr>"

definition api_methods :: "((str \<times> str) \<times> method_options) list" where
  "api_methods =
     (let root = []; v1 = add_resource root ''v1''
      in [((''GET'', add_resource root ''health''), public_method),
          ((''GET'', add_resource root ''ready''), public_method),
          ((''POST'', add_resource v1 ''inference''), iam_method True),
          ((''POST'', add_resource (add_resource v1 ''routes'') ''evaluate''), iam_method True),
          ((''GET'', add_resource v1 ''models''), iam_method False),
          ((''GET'', add_resource (add_resource v1 ''decisions'') ''{decisionId}''), iam_method False)])"

section \<open>Observability\<close>

record custom_metric =
  cmt_namespace :: str
  cmt_metric_name :: str
  cmt_dimensions :: "(str \<times> str) list"
  cmt_statistic :: str
  cmt_period_seconds :: int

definition metric_period :: int where
  "metric_period = 5 * 60"

definition spend_period :: int where
  "spend_period = 24 * 60 * 60"

definition mk_custom_metric :: "environment_config \<Rightarrow> str \<Rightarrow> str \<Rightarrow> int \<Rightarrow> custom_metric" where
  "mk_custom_metric config name statistic period =
     \<lparr>cmt_namespace = ''ModelRouter'', cmt_metric_name = name,
      cmt_dimensions = [(''Environment'', ecf_env_name config)], cmt_statistic = statistic, cmt_period_seconds = period\<rparr>"

section \<open>What the construct reads off the catalogue\<close>

text \<open>
  How pydantic reads an entry, as far as the deployment looks at it: an enum field is its value, a
  \<open>str\<close> field is the text, and \<open>env_items\<close> is Python's iteration.
\<close>

definition names_entry :: "raw \<Rightarrow> model_definition \<Rightarrow> bool" where
  "names_entry item m \<longleftrightarrow>
     raw_dict_get ''provider'' item = Inr (Some (Raw_Str (provider_name_value (md_provider m)))) \<and>
     (\<exists>res. raw_item ''resolution'' item = Inr res \<and>
        raw_item ''type'' res = Inr (Raw_Str (model_resolution_type_value (mr_type (md_resolution m)))) \<and>
        raw_item ''value'' res = Inr (Raw_Str (mr_value (md_resolution m))))"

definition reads_catalogue :: "config_environment \<Rightarrow> bool" where
  "reads_catalogue files \<longleftrightarrow>
     (\<forall>r xs. env_items files r = Some xs \<longrightarrow> raw_iter r = Inr xs) \<and>
     (\<forall>item m. env_model files item = Some m \<longrightarrow> names_entry item m)"

text \<open>The ARN of a Bedrock model that is called under its own identifier.\<close>

definition model_arn :: "str \<Rightarrow> str \<Rightarrow> model_definition \<Rightarrow> str option" where
  "model_arn region account_id m =
     (case mr_type (md_resolution m) of
        Resolution_DIRECT_MODEL_ID \<Rightarrow> Some (foundation_model_arn region (mr_value (md_resolution m)))
      | Resolution_ROUTER_ALIAS \<Rightarrow> None
      | _ \<Rightarrow> Some (inference_profile_arn region account_id (mr_value (md_resolution m))))"

lemma entry_arn:
  assumes "names_entry item m"
  shows "bedrock_resource_arn other region account_id item =
    Inr (if md_provider m = Provider_BEDROCK then model_arn region account_id m else None)"
proof -
  obtain res where entry: "raw_dict_get ''provider'' item = Inr (Some (Raw_Str (provider_name_value (md_provider m))))"
    "raw_item ''resolution'' item = Inr res"
    "raw_item ''type'' res = Inr (Raw_Str (model_resolution_type_value (mr_type (md_resolution m))))"
    "raw_item ''value'' res = Inr (Raw_Str (mr_value (md_resolution m)))"
    using assms unfolding names_entry_def by blast
  show ?thesis
    unfolding bedrock_resource_arn_def entry bind_r_simps
    by (cases "md_provider m"; cases "mr_type (md_resolution m)") (simp_all add: entry model_arn_def)
qed

lemma entries_arns:
  assumes "list_all2 names_entry items models"
  shows "map_r (bedrock_resource_arn other region account_id) items =
    Inr (map (\<lambda>m. if md_provider m = Provider_BEDROCK then model_arn region account_id m else None) models)"
  using assms by (induction rule: list_all2_induct) (simp_all add: entry_arn)

lemma entries_openai:
  assumes "list_all2 names_entry items models"
  shows "any_provider ''openai'' items = Inr (\<exists>m\<in>set models. md_provider m = Provider_OPENAI)"
  using assms
proof (induction rule: list_all2_induct)
  case (Cons item items m models)
  then have "raw_dict_get ''provider'' item = Inr (Some (Raw_Str (provider_name_value (md_provider m))))"
    unfolding names_entry_def by blast
  then show ?case using Cons.IH by (cases "md_provider m") simp_all
qed simp

lemma load_model_Inr: "load_model files item = Inr m \<Longrightarrow> env_model files item = Some m"
  by (auto simp: load_model_def validate_model_definition_def split: option.splits sum.splits if_splits)

text \<open>The entries of the file are those of the catalogue the service loads from it.\<close>

lemma deployed_entries:
  assumes "reads_catalogue files"
    and "env_read files (path_join repo_root ''policies/model_catalogue.yaml'') = env_read files ''policies/model_catalogue.yaml''"
    and "local_file_model_catalogue files ''policies/model_catalogue.yaml'' = Inr cat"
  obtains data items where "load_catalogue_models files repo_root = Inr data" "raw_iter data = Inr items"
    "list_all2 names_entry items (mc_all_models cat)"
proof -
  obtain data raw xs version models where d:
    "load_structured_file files ''policies/model_catalogue.yaml'' = Inr data" "raw_get ''models'' data = Some raw"
    "env_items files raw = Some xs" "map_r (load_model files) xs = Inr models" "build_catalogue version models = Inr cat"
    using assms(3) by (rule loaded_catalogue)
  obtain content where c: "env_read files ''policies/model_catalogue.yaml'' = Some content" "env_yaml files content = Some data"
    and map: "\<exists>kvs. data = Raw_Map kvs"
    using d(1) by (auto simp: load_structured_file_def path_suffix_def path_name_def Let_def split: option.splits raw.splits)
  have "list_all2 names_entry xs models"
    using d(4) assms(1) unfolding map_r_Inr_iff reads_catalogue_def
    by (elim list_all2_mono) (auto dest: load_model_Inr)
  moreover have "load_catalogue_models files repo_root = Inr raw"
    using c map d(2) assms(2) by (auto simp: load_catalogue_models_def raw_get_def)
  moreover have "raw_iter raw = Inr xs" using assms(1) d(3) by (simp add: reads_catalogue_def)
  moreover have "mc_all_models cat = models" using d(5) by (simp add: build_catalogue_Inr)
  ultimately show ?thesis using that by simp
qed

lemma lambda_construct_runs:
  assumes "reads_catalogue files"
    and "env_read files (path_join repo_root ''policies/model_catalogue.yaml'') = env_read files ''policies/model_catalogue.yaml''"
    and "local_file_model_catalogue files ''policies/model_catalogue.yaml'' = Inr cat"
  obtains fn where "lambda_construct files other config repo_root names region account_id = Inr fn"
    "lfn_environment fn = lambda_environment config names (\<exists>m\<in>set (mc_all_models cat). md_provider m = Provider_OPENAI)"
    "lfn_readable_secret fn = (if \<exists>m\<in>set (mc_all_models cat). md_provider m = Provider_OPENAI then Some (dn_secret_arn names) else None)"
    "set (pst_resources (lfn_bedrock_statement fn)) =
       {arn. \<exists>m\<in>set (mc_all_models cat). md_provider m = Provider_BEDROCK \<and> model_arn region account_id m = Some arn}"
proof -
  obtain data items where d: "load_catalogue_models files repo_root = Inr data" "raw_iter data = Inr items"
    "list_all2 names_entry items (mc_all_models cat)"
    using assms by (rule deployed_entries)
  show ?thesis
    by (rule that, simp add: lambda_construct_def d(1,2) catalogue_uses_openai_def entries_openai[OF d(3)] openai_secret_def
        load_bedrock_resource_arns_def entries_arns[OF d(3)])
      (auto split: option.splits)
qed

section \<open>Permissions\<close>


section \<open>Wiring\<close>

text \<open>
  The environment of the running function: what the construct set, over what the runtime sets.
\<close>

definition function_environ :: "lambda_function \<Rightarrow> environ \<Rightarrow> environ" where
  "function_environ fn runtime = runtime ++ map_of (lfn_environment fn)"

lemma function_environ_vars:
  assumes "lfn_environment fn = lambda_environment config names uses_openai" and "runtime ''OPENAI_API_KEY_SECRET_ARN'' = None"
  shows "environ_or (function_environ fn runtime) ''POLICIES_DIR'' d = ''policies''"
    "environ_item (function_environ fn runtime) ''DECISIONS_TABLE_NAME'' = Inr (dn_decisions_table names)"
    "environ_item (function_environ fn runtime) ''IDEMPOTENCY_TABLE_NAME'' = Inr (dn_idempotency_table names)"
    "function_environ fn runtime ''OPENAI_API_KEY_SECRET_ARN'' = (if uses_openai then Some (dn_secret_arn names) else None)"
  using assms(2)
  by (simp_all add: environ_or_def environ_item_def function_environ_def assms(1) lambda_environment_def openai_secret_def map_add_def)

text \<open>
  C36. In the environment the construct sets, the services are built, and every model of the
  catalogue is invoked through the adapter of its own provider: the OpenAI secret is provisioned and
  readable exactly when some model needs it, so no request can meet a provider without an adapter.
\<close>

theorem deployment_wires_every_provider:
  fixes pf :: "('w, 'j) platform"
  assumes "reads_catalogue files"
    and "env_read files (path_join repo_root ''policies/model_catalogue.yaml'') = env_read files ''policies/model_catalogue.yaml''"
    and "local_file_model_catalogue files ''policies/model_catalogue.yaml'' = Inr cat"
    and "lambda_construct files other config repo_root names deploy_region account_id = Inr fn"
    and "\<And>region arn. total_io (pf_secret_string pf region arn)" and "dn_secret_arn names \<noteq> []"
    and "runtime ''OPENAI_API_KEY_SECRET_ARN'' = None"
  shows "(lfn_readable_secret fn = Some (dn_secret_arn names) \<longleftrightarrow>
      (\<exists>m\<in>set (mc_all_models cat). md_provider m = Provider_OPENAI)) \<and>
    (\<exists>svc s' region key. build_services pf files (function_environ fn runtime) s = (Inr svc, s') \<and>
    (\<forall>m pr. m \<in> set (mc_all_models cat) \<longrightarrow> pr_model_alias pr = md_model_alias m \<longrightarrow>
       mp_invoke (orc_model_provider (hs_orchestrator svc)) pr = on_world
         (case md_provider m of
            Provider_BEDROCK \<Rightarrow> bedrock_invoke (bedrock_adapter pf region cat) pr
          | Provider_OPENAI \<Rightarrow> openai_invoke (openai_adapter pf key cat) pr)))"
proof -
  let ?env = "function_environ fn runtime" and ?s = "s\<lparr>pc_policies := new_policy_repository, pc_health := Map.empty\<rparr>"
  define region where "region = environ_or ?env ''AWS_REGION'' ''us-east-1''"
  let ?openai = "\<exists>m\<in>set (mc_all_models cat). md_provider m = Provider_OPENAI"
  have deployed: "lfn_environment fn = lambda_environment config names ?openai"
    "lfn_readable_secret fn = (if ?openai then Some (dn_secret_arn names) else None)"
    by (rule lambda_construct_runs[OF assms(1-3), of other config names deploy_region account_id], use assms(4) in simp)+
  note vars = function_environ_vars[where runtime = runtime, OF deployed(1) assms(7)]
  have truthy: "environ_truthy ?env ''OPENAI_API_KEY_SECRET_ARN'' = (if ?openai then Some (dn_secret_arn names) else None)"
    using assms(6) by (simp add: environ_truthy_def vars(4))
  have "total_io (build_providers pf ?env region cat)"
    unfolding build_providers_def Let_def truthy
    by (auto intro!: total_io_bind total_on_world assms(5) split: option.split)
  then obtain providers s' where prov: "build_providers pf ?env region cat ?s = (Inr providers, s')" by (rule total_ioE)
  obtain key where key: "providers Provider_BEDROCK = Some (bedrock_process (bedrock_adapter pf region cat))"
    "?openai \<longrightarrow> providers Provider_OPENAI = Some (openai_process (openai_adapter pf key cat))"
    using build_providers_Inr(2)[OF prov] by (cases ?openai) (auto simp: truthy)
  define svc where "svc = assemble_services pf ?env region cat (build_route_service pf files ''policies'' cat) providers
    (dn_decisions_table names) (dn_idempotency_table names)"
  have "build_services pf files ?env s = (Inr svc, s')"
    using prov unfolding build_services_def Let_def vars(1) svc_def
    by (simp add: path_join_def assms(3) vars io_run fresh_objects_def region_def)
  moreover have "mp_invoke (orc_model_provider (hs_orchestrator svc)) pr = on_world
         (case md_provider m of
            Provider_BEDROCK \<Rightarrow> bedrock_invoke (bedrock_adapter pf region cat) pr
          | Provider_OPENAI \<Rightarrow> openai_invoke (openai_adapter pf key cat) pr)"
    if "m \<in> set (mc_all_models cat)" "pr_model_alias pr = md_model_alias m" for m pr
  proof -
    have "mc_get_by_alias cat (pr_model_alias pr) = Some m"
      using catalogue_contract.get_iff[OF loaded_catalogue_contract[OF assms(3)]] that by simp
    then show ?thesis
      using key that
      by (cases "md_provider m")
        (auto simp: svc_def assemble_services_def Let_def composite_model_provider_def composite_invoke_def
          composite_resolve_provider_def resolve_model_def bind_lift_Inr bedrock_process_def openai_process_def process_provider_def)
  qed
  ultimately show ?thesis using deployed(2) by auto
qed

section \<open>Routes\<close>

definition unknown_route :: "str \<Rightarrow> http_response" where
  "unknown_route i = respond 404 (error_response_body i ''NOT_FOUND'' ''Unknown route.'' None)"

lemma api_methods_list:
  "api_methods =
     [((''GET'', ''/health''), public_method), ((''GET'', ''/ready''), public_method),
      ((''POST'', ''/v1/inference''), iam_method True), ((''POST'', ''/v1/routes/evaluate''), iam_method True),
      ((''GET'', ''/v1/models''), iam_method False), ((''GET'', ''/v1/decisions/{decisionId}''), iam_method False)]"
  by (simp add: api_methods_def add_resource_def Let_def)

lemma never_unknown:
  "handle_inference henv event i svc s \<noteq> (Inr (unknown_route i), s')"
  "handle_routes_evaluate henv event i svc s \<noteq> (Inr (unknown_route i), s')"
  "handle_get_decision event i svc s \<noteq> (Inr (unknown_route i), s')"
  "handle_models i svc \<noteq> Inr (unknown_route i)"
  "handle_health \<noteq> unknown_route i" "handle_ready svc \<noteq> unknown_route i"
proof -
  have status: "rsp_status_code (unknown_route i) = 404" by (simp add: unknown_route_def respond_def)
  have exception: "respond_pair (map_exception_to_status_and_body e i) \<noteq> unknown_route i" for e
    by (cases e) (auto simp: respond_pair_def unknown_route_def respond_def)
  have none: "respond_pair (map_no_selection_to_status_and_body d a i) \<noteq> unknown_route i" for d a
    by (auto simp: respond_pair_def unknown_route_def respond_def map_no_selection_to_status_and_body_def Let_def error_response_body_def)
  show "handle_inference henv event i svc s \<noteq> (Inr (unknown_route i), s')"
  proof
    assume "handle_inference henv event i svc s = (Inr (unknown_route i), s')"
    then show False
    proof (cases rule: handle_inference_cases)
      case rejected
      then show ?thesis using read_request_error_response status by fastforce
    next
      case (raised request e)
      then show ?thesis using exception by metis
    next
      case (unselected request r)
      then show ?thesis using none by metis
    next
      case (answered request r)
      then show ?thesis by (simp add: unknown_route_def respond_def)
    qed
  qed
  show "handle_routes_evaluate henv event i svc s \<noteq> (Inr (unknown_route i), s')"
  proof
    assume run: "handle_routes_evaluate henv event i svc s = (Inr (unknown_route i), s')"
    obtain parsed where read: "read_request henv event i = Inr parsed"
      using run by (cases "read_request henv event i") (auto simp: handle_routes_evaluate_def io_run)
    show False
    proof (cases parsed)
      case (Inl error)
      then show ?thesis using run read read_request_error_response[of henv event i error] status
        by (auto simp: handle_routes_evaluate_def io_run)
    next
      case (Inr request)
      obtain x s1 where "evaluate_route (hs_route_service svc) request s = (x, s1)" by (rule prod.exhaust)
      then show ?thesis using run read Inr exception
        by (cases x) (auto simp: handle_routes_evaluate_def io_run unknown_route_def respond_def)
    qed
  qed
  show "handle_get_decision event i svc s \<noteq> (Inr (unknown_route i), s')"
    by (auto simp: handle_get_decision_def io_inv unknown_route_def respond_def error_response_body_def
        split: if_splits option.splits)
  show "handle_models i svc \<noteq> Inr (unknown_route i)"
    by (auto simp: handle_models_def unknown_route_def respond_def)
  show "handle_health \<noteq> unknown_route i" "handle_ready svc \<noteq> unknown_route i"
    by (simp_all add: handle_health_def handle_ready_def unknown_route_def respond_def)
qed

lemma route_event_known:
  "route_event henv svc event i (PV_Str ''GET'', PV_Str ''/health'') = return_io handle_health"
  "route_event henv svc event i (PV_Str ''GET'', PV_Str ''/ready'') = return_io (handle_ready svc)"
  "route_event henv svc event i (PV_Str ''POST'', PV_Str ''/v1/inference'') = handle_inference henv event i svc"
  "route_event henv svc event i (PV_Str ''POST'', PV_Str ''/v1/routes/evaluate'') = handle_routes_evaluate henv event i svc"
  "route_event henv svc event i (PV_Str ''GET'', PV_Str ''/v1/models'') = lift_r (handle_models i svc)"
  "route_event henv svc event i (PV_Str ''GET'', PV_Str ''/v1/decisions/{decisionId}'') = handle_get_decision event i svc"
  unfolding route_event_def by simp_all

lemma known_route_not_unknown:
  assumes "(m, r) \<in> set (map fst api_methods)"
  shows "fst (route_event henv svc event i (PV_Str m, PV_Str r) s) \<noteq> Inr (unknown_route i)"
proof -
  obtain x s' where x: "route_event henv svc event i (PV_Str m, PV_Str r) s = (x, s')" by (rule prod.exhaust)
  have "x \<noteq> Inr (unknown_route i)"
    using assms unfolding api_methods_list list.map set_simps fst_conv
    by (elim insertE emptyE)
      (use x never_unknown(1,2)[of henv event i svc s s'] never_unknown(3)[of event i svc s s'] never_unknown(4)[of i svc] never_unknown(6)[of svc i] never_unknown(5)[of i] in
        \<open>auto simp: route_event_known io_run\<close>)
  then show ?thesis using x by simp
qed

lemma public_route:
  assumes "map_of api_methods (m, r) = Some opts" and "mo_authorization_type opts = Authorization_NONE"
  shows "m = ''GET'' \<and> (r = ''/health'' \<or> r = ''/ready'')"
  using assms by (auto simp: api_methods_list iam_method_def split: if_splits)

lemma bodyless_route:
  assumes "map_of api_methods (m, r) = Some opts" and "\<not> mo_body_required opts"
  shows "m = ''GET'' \<and> r \<in> {''/health'', ''/ready'', ''/v1/models'', ''/v1/decisions/{decisionId}''}"
  using assms by (auto simp: api_methods_list iam_method_def split: if_splits)


section \<open>Retention\<close>

text \<open>
  \<open>decisions_retention_seconds\<close> reaches nobody: whatever the environment configures, the repository
  that \<open>build_services\<close> wires keeps decisions for the 30 days of its own default.
\<close>

theorem retention_setting_unused:
  "ddc_retention_seconds (process_decisions pf region name) = 30 * 24 * 60 * 60 \<and>
   (\<exists>config. get_environment_config ''dev'' = Inr config \<and> ecf_decisions_retention_seconds config = 7 * 24 * 60 * 60)"
  by (simp add: process_decisions_def default_retention_seconds_def get_environment_config_def environments_def)

section \<open>Witnesses\<close>

lemma shipped_reads_catalogue: "reads_catalogue shipped_files"
proof -
  have "names_entry (raw_of_model m) m" for m
    by (simp add: names_entry_def raw_of_model_def)
  then have "names_entry item m" if "env_model shipped_files item = Some m" for item m
    using that by (auto simp: shipped_files_def dest!: first_such_SomeD)
  moreover have "raw_iter r = Inr xs" if "env_items shipped_files r = Some xs" for r xs
    using that by (cases r) (simp_all add: shipped_files_def shipped_environment_def)
  ultimately show ?thesis by (simp add: reads_catalogue_def)
qed

definition sample_names :: deployed_names where
  "sample_names = \<lparr>dn_decisions_table = ''decisions'', dn_idempotency_table = ''idempotency'', dn_event_bus = ''bus'', dn_secret_arn = ''arn:secret''\<rparr>"

lemma shipped_repo_file:
  "env_read shipped_files (path_join [] ''policies/model_catalogue.yaml'') = env_read shipped_files ''policies/model_catalogue.yaml''"
  by (simp add: path_join_def)

definition dev_config :: environment_config where
  "dev_config = snd (hd environments)"


theorem deployment_wires_every_provider_witness:
  "\<exists>fn svc s' key. lambda_construct shipped_files (\<lambda>r. []) dev_config [] sample_names ''us-east-1'' ''123'' = Inr fn \<and>
     build_services sample_platform shipped_files (function_environ fn Map.empty) cold_process = (Inr svc, s') \<and>
     mp_invoke (orc_model_provider (hs_orchestrator svc)) (sample_provider_req ''balanced-text-openai'') =
       on_world (openai_invoke (openai_adapter sample_platform key shipped_catalogue) (sample_provider_req ''balanced-text-openai''))"
proof -
  obtain fn where fn: "lambda_construct shipped_files (\<lambda>r. []) dev_config [] sample_names ''us-east-1'' ''123'' = Inr fn"
    using shipped_reads_catalogue shipped_repo_file shipped_catalogue_loads by (rule lambda_construct_runs)
  have secret: "total_io (pf_secret_string sample_platform region arn)" for region arn by (simp add: sample_platform_def)
  have named: "dn_secret_arn sample_names \<noteq> []" by (simp add: sample_names_def)
  have m: "balanced_text_openai \<in> set (mc_all_models shipped_catalogue)" "md_provider balanced_text_openai = Provider_OPENAI"
    "pr_model_alias (sample_provider_req ''balanced-text-openai'') = md_model_alias balanced_text_openai"
    by (simp_all add: shipped_catalogue_def shipped_models_def sample_provider_req_def)
      (simp_all add: balanced_text_openai_def)
  obtain svc s' region key where built: "build_services sample_platform shipped_files (function_environ fn Map.empty) cold_process = (Inr svc, s')"
    and each: "\<forall>m pr. m \<in> set (mc_all_models shipped_catalogue) \<longrightarrow> pr_model_alias pr = md_model_alias m \<longrightarrow>
       mp_invoke (orc_model_provider (hs_orchestrator svc)) pr = on_world
         (case md_provider m of
            Provider_BEDROCK \<Rightarrow> bedrock_invoke (bedrock_adapter sample_platform region shipped_catalogue) pr
          | Provider_OPENAI \<Rightarrow> openai_invoke (openai_adapter sample_platform key shipped_catalogue) pr)"
    using deployment_wires_every_provider[where pf = sample_platform and runtime = Map.empty and s = cold_process,
        OF shipped_reads_catalogue shipped_repo_file shipped_catalogue_loads fn secret named] by auto
  show ?thesis using fn built each[rule_format, OF m(1,3)] unfolding m(2) by auto
qed


end
