(* ===== verification/Stack.thy ===== *)
theory Stack
  imports Deployment
begin

text \<open>
  The stacks of \<open>infrastructure/\<close> around the function: the tables of \<open>storage_construct.py\<close>, the bus
  of \<open>events_construct.py\<close>, the stage of \<open>api_construct.py\<close>, the alarms and dashboard of
  \<open>observability_construct.py\<close>, their composition in \<open>model_router_stack.py\<close> and the deploy roles of
  \<open>github_oidc_stack.py\<close>.  A construct is the record of the arguments it passes to CDK; texts for
  people (descriptions, suppression reasons) and CDK's own identifiers are left out.  The theorems
  compare what is provisioned with what the adapters do: the actions granted on the tables are
  exactly those the stores need, every custom metric that is watched is one that is published, and
  a deploy role is trusted by the workflow of its own environment only.
\<close>

section \<open>Storage and events\<close>

record dynamo_table =
  dtb_partition_key :: str
  dtb_sort_key :: "str option"
  dtb_time_to_live_attribute :: str
  dtb_point_in_time_recovery :: bool
  dtb_removal_policy :: removal_policy

record storage =
  sto_decisions_table :: dynamo_table
  sto_idempotency_table :: dynamo_table
  sto_suppressed_rules :: "str list"

definition storage_construct :: "environment_config \<Rightarrow> storage" where
  "storage_construct config =
     \<lparr>sto_decisions_table =
        \<lparr>dtb_partition_key = ''decisionId'', dtb_sort_key = None, dtb_time_to_live_attribute = ''expiresAt'',
         dtb_point_in_time_recovery = ecf_enable_point_in_time_recovery config,
         dtb_removal_policy = ecf_removal_policy config\<rparr>,
      sto_idempotency_table =
        \<lparr>dtb_partition_key = ''pk'', dtb_sort_key = Some ''sk'', dtb_time_to_live_attribute = ''expiresAt'',
         dtb_point_in_time_recovery = ecf_enable_point_in_time_recovery config,
         dtb_removal_policy = ecf_removal_policy config\<rparr>,
      sto_suppressed_rules = (if ecf_enable_point_in_time_recovery config then [] else [''AwsSolutions-DDB3''])\<rparr>"

definition events_construct :: "environment_config \<Rightarrow> str" where
  "events_construct config = ''model-router-decisions-'' @ ecf_env_name config"

section \<open>The API\<close>

record rest_api =
  rap_name :: str
  rap_stage_name :: str
  rap_throttling_rate_limit :: int
  rap_throttling_burst_limit :: int
  rap_data_trace_enabled :: bool
  rap_access_log_retention :: log_retention
  rap_integration_alias :: str
  rap_methods :: "((str \<times> str) \<times> method_options) list"

definition api_construct :: "environment_config \<Rightarrow> str \<Rightarrow> rest_api" where
  "api_construct config lambda_alias =
     \<lparr>rap_name = ''model-router-'' @ ecf_env_name config,
      rap_stage_name = ecf_env_name config,
      rap_throttling_rate_limit = ecf_api_throttling_rate_limit config,
      rap_throttling_burst_limit = ecf_api_throttling_burst_limit config,
      rap_data_trace_enabled = False,
      rap_access_log_retention = ecf_log_retention config,
      rap_integration_alias = lambda_alias,
      rap_methods = api_methods\<rparr>"

section \<open>Observability\<close>

text \<open>
  A metric is one of the function or the API, which AWS publishes, one of the router's own, or an
  expression over the latter.
\<close>

datatype watched_metric =
    Lambda_Errors int
  | Lambda_Throttles int
  | Api_Server_Errors int
  | Custom custom_metric
  | Math_Expression str "(str \<times> custom_metric) list" int

record cloudwatch_alarm =
  alm_construct_id :: str
  alm_metric :: watched_metric
  alm_threshold :: rat
  alm_evaluation_periods :: int
  alm_missing_data_breaches :: bool
  alm_action_topic :: str

record observability =
  obs_topic_name :: str
  obs_alarms :: "cloudwatch_alarm list"
  obs_dashboard_name :: str
  obs_widgets :: "(str \<times> watched_metric list) list list"

definition default_evaluation_periods :: int where
  "default_evaluation_periods = 3"

definition mk_alarm :: "str \<Rightarrow> watched_metric \<Rightarrow> rat \<Rightarrow> str \<Rightarrow> int \<Rightarrow> cloudwatch_alarm" where
  "mk_alarm construct_id metric threshold topic evaluation_periods =
     \<lparr>alm_construct_id = construct_id, alm_metric = metric, alm_threshold = threshold,
      alm_evaluation_periods = evaluation_periods, alm_missing_data_breaches = False, alm_action_topic = topic\<rparr>"

definition fallback_rate :: "environment_config \<Rightarrow> watched_metric" where
  "fallback_rate config =
     Math_Expression ''(fallbackUsed / requests) * 100''
       [(''fallbackUsed'', mk_custom_metric config ''FallbackUsedCount'' ''Sum'' metric_period),
        (''requests'', mk_custom_metric config ''RequestCount'' ''Sum'' metric_period)] metric_period"

definition observability_construct :: "environment_config \<Rightarrow> observability" where
  "observability_construct config =
     (let topic = ''model-router-'' @ ecf_env_name config @ ''-alarms'';
          lambda_errors = Lambda_Errors metric_period;
          lambda_throttles = Lambda_Throttles metric_period;
          api_5xx = Api_Server_Errors metric_period;
          provider_failure_count = Custom (mk_custom_metric config ''ProviderFailureCount'' ''Sum'' metric_period);
          request_count = Custom (mk_custom_metric config ''RequestCount'' ''Sum'' metric_period);
          fallback_used_count = Custom (mk_custom_metric config ''FallbackUsedCount'' ''Sum'' metric_period);
          no_eligible_model_count = Custom (mk_custom_metric config ''NoEligibleModelCount'' ''Sum'' metric_period);
          estimated_cost_usd = Custom (mk_custom_metric config ''EstimatedCostUsd'' ''Sum'' spend_period);
          fallback_rate_percent = fallback_rate config
      in \<lparr>obs_topic_name = topic,
          obs_alarms =
            [mk_alarm ''LambdaErrorsAlarm'' lambda_errors (of_int (ecf_lambda_error_alarm_threshold config))
               topic default_evaluation_periods,
             mk_alarm ''LambdaThrottlesAlarm'' lambda_throttles (of_int (ecf_lambda_throttle_alarm_threshold config))
               topic default_evaluation_periods,
             mk_alarm ''Api5xxAlarm'' api_5xx (of_int (ecf_api_5xx_alarm_threshold config))
               topic default_evaluation_periods,
             mk_alarm ''ProviderFailureAlarm'' provider_failure_count
               (of_int (ecf_provider_failure_alarm_threshold config)) topic default_evaluation_periods,
             mk_alarm ''FallbackRateAlarm'' fallback_rate_percent
               (ecf_fallback_rate_alarm_threshold_percent config) topic default_evaluation_periods,
             mk_alarm ''NoEligibleModelAlarm'' no_eligible_model_count
               (of_int (ecf_no_eligible_model_alarm_threshold config)) topic default_evaluation_periods,
             mk_alarm ''EstimatedDailySpendAlarm'' estimated_cost_usd
               (ecf_estimated_daily_spend_alarm_threshold_usd config) topic 1],
          obs_dashboard_name = ''model-router-'' @ ecf_env_name config,
          obs_widgets =
            [[(''Lambda'', [lambda_errors, lambda_throttles]), (''API Gateway 5xx'', [api_5xx])],
             [(''Requests / Fallback / No-eligible-model'', [request_count, fallback_used_count, no_eligible_model_count]),
              (''Fallback rate (%)'', [fallback_rate_percent])],
             [(''Provider failures'', [provider_failure_count]), (''Estimated cost (USD/day)'', [estimated_cost_usd])]]\<rparr>)"

section \<open>The deployment package\<close>

text \<open>
  \<open>bundling.py\<close>: the package is put together by \<open>pip\<close> and copies on the host, or, where \<open>pip\<close> fails
  or is missing, by one shell command in a container.  A copy is a source and a destination below
  the repository and the package.
\<close>

definition lambda_python_version :: str where
  "lambda_python_version = ''3.12''"

definition lambda_platform :: str where
  "lambda_platform = ''manylinux2014_x86_64''"

definition source_packages :: "str list" where
  "source_packages = [''domain'', ''application'', ''adapters'', ''handlers'', ''shared'']"

definition pip_install :: "str \<Rightarrow> str \<Rightarrow> str list" where
  "pip_install repo_root output_dir =
     [''pip'', ''install'', ''--platform'', lambda_platform, ''--implementation'', ''cp'', ''--python-version'',
      lambda_python_version, ''--only-binary=:all:'', ''--target'', output_dir, ''-r'',
      repo_root @ ''/infrastructure/lambda_requirements.txt'']"

text \<open>\<open>run\<close> executes a command: \<open>True\<close>, or \<open>False\<close> for a failed or missing program.\<close>

definition try_bundle :: "(str list \<Rightarrow> bool) \<Rightarrow> str \<Rightarrow> str \<Rightarrow> (str \<times> str) list option" where
  "try_bundle run repo_root output_dir =
     (if \<not> run (pip_install repo_root output_dir) then None
      else Some (map (\<lambda>package. (repo_root @ ''/src/'' @ package, output_dir @ ''/'' @ package)) source_packages
                 @ [(repo_root @ ''/policies'', output_dir @ ''/policies'')]))"

definition copy_command :: "str \<times> str \<Rightarrow> str" where
  "copy_command c = ''cp -r '' @ fst c @ '' '' @ snd c"

definition docker_command :: str where
  "docker_command =
     ''pip install -r /asset-input/infrastructure/lambda_requirements.txt -t /asset-output && ''
     @ str_join '' && '' (map (\<lambda>package. ''cp -r /asset-input/src/'' @ package @ '' /asset-output/'' @ package) source_packages)
     @ '' && cp -r /asset-input/policies /asset-output/policies''"

text \<open>Both ways make the same package: the container copies what the host copies.\<close>

theorem bundles_agree:
  assumes "try_bundle run ''/asset-input'' ''/asset-output'' = Some copies"
  shows "docker_command =
    ''pip install -r /asset-input/infrastructure/lambda_requirements.txt -t /asset-output && '' @ str_join '' && '' (map copy_command copies)"
  using assms by (auto simp: try_bundle_def docker_command_def copy_command_def source_packages_def split: if_splits)

section \<open>The stacks\<close>

record model_router_stack =
  mrs_storage :: storage
  mrs_event_bus :: str
  mrs_function :: lambda_function
  mrs_api :: rest_api
  mrs_observability :: observability
  mrs_outputs :: "(str \<times> str) list"

text \<open>
  The names of the tables, of the function, of the topic and of the secret and the URL of the API
  are CDK's to choose (\<open>physical_names\<close>); the event bus is named by its construct.
\<close>

record physical_names =
  phy_decisions_table :: str
  phy_idempotency_table :: str
  phy_secret_arn :: str
  phy_api_url :: str
  phy_topic_arn :: str
  phy_function_name :: str

definition dashboard_url :: "str \<Rightarrow> str \<Rightarrow> str" where
  "dashboard_url region name =
     ''https://'' @ region @ ''.console.aws.amazon.com/cloudwatch/home?region='' @ region @ ''#dashboards:name='' @ name"

definition model_router_stack ::
  "config_environment \<Rightarrow> (raw \<Rightarrow> str) \<Rightarrow> environment_config \<Rightarrow> str \<Rightarrow> physical_names \<Rightarrow> str \<Rightarrow> str \<Rightarrow>
   model_router_stack result" where
  "model_router_stack files other config repo_root phy region account_id =
     (let bus = events_construct config;
          observability = observability_construct config
      in bind_r (lambda_construct files other config repo_root
             \<lparr>dn_decisions_table = phy_decisions_table phy, dn_idempotency_table = phy_idempotency_table phy,
              dn_event_bus = bus, dn_secret_arn = phy_secret_arn phy\<rparr> region account_id) (\<lambda>compute.
           Inr \<lparr>mrs_storage = storage_construct config, mrs_event_bus = bus, mrs_function = compute,
                mrs_api = api_construct config (lfn_alias_name compute),
                mrs_observability = observability,
                mrs_outputs =
                  [(''ApiUrl'', phy_api_url phy),
                   (''DashboardUrl'', dashboard_url region (obs_dashboard_name observability)),
                   (''AlarmTopicArn'', phy_topic_arn phy),
                   (''ApiFunctionName'', phy_function_name phy),
                   (''DecisionsTableName'', phy_decisions_table phy),
                   (''IdempotencyTableName'', phy_idempotency_table phy),
                   (''DecisionEventsBusName'', bus)]\<rparr>))"

record deploy_role =
  dro_role_name :: str
  dro_trusted_audience :: str
  dro_trusted_subject :: str
  dro_max_session_hours :: int
  dro_statement :: policy_statement

definition cdk_qualifier :: str where
  "cdk_qualifier = ''hnb659fds''"

definition bootstrap_role_kinds :: "str list" where
  "bootstrap_role_kinds = [''deploy-role'', ''file-publishing-role'', ''lookup-role'']"

definition oidc_environments :: "str list" where
  "oidc_environments = [''dev'', ''prod'']"

definition bootstrap_role_arn :: "str \<Rightarrow> str \<Rightarrow> str \<Rightarrow> str" where
  "bootstrap_role_arn account region role_kind =
     ''arn:aws:iam::'' @ account @ '':role/cdk-'' @ cdk_qualifier @ ''-'' @ role_kind @ ''-'' @ account @ ''-'' @ region"

definition mk_deploy_role :: "str \<Rightarrow> str \<Rightarrow> str \<Rightarrow> str \<Rightarrow> str \<Rightarrow> deploy_role" where
  "mk_deploy_role account region github_org github_repo env_name =
     \<lparr>dro_role_name = ''github-actions-deploy-'' @ env_name,
      dro_trusted_audience = ''sts.amazonaws.com'',
      dro_trusted_subject = ''repo:'' @ github_org @ ''/'' @ github_repo @ '':environment:'' @ env_name,
      dro_max_session_hours = 1,
      dro_statement = \<lparr>pst_actions = [''sts:AssumeRole''],
        pst_resources = map (bootstrap_role_arn account region) bootstrap_role_kinds\<rparr>\<rparr>"

definition github_oidc_stack :: "str \<Rightarrow> str \<Rightarrow> str \<Rightarrow> str \<Rightarrow> (str \<times> deploy_role) list" where
  "github_oidc_stack account region github_org github_repo =
     map (\<lambda>e. (e, mk_deploy_role account region github_org github_repo e)) oidc_environments"

text \<open>
  \<open>app.py\<close>: the context names the environment, \<open>dev\<close> when it names none; an unknown name ends the
  synthesis.  \<open>account\<close> is what \<open>CDK_DEFAULT_ACCOUNT\<close> or CDK itself gives.
\<close>

definition synth_app ::
  "config_environment \<Rightarrow> (raw \<Rightarrow> str) \<Rightarrow> environ \<Rightarrow> str option \<Rightarrow> str \<Rightarrow> physical_names \<Rightarrow> str \<Rightarrow>
   ((str \<times> model_router_stack) \<times> (str \<times> deploy_role) list) result" where
  "synth_app files other env context repo_root phy account =
     bind_r (get_environment_config (case context of Some (c # cs) \<Rightarrow> c # cs | _ \<Rightarrow> ''dev'')) (\<lambda>config.
       let region = environ_or env ''CDK_DEFAULT_REGION'' ''us-east-1'' in
       bind_r (model_router_stack files other config repo_root phy region account) (\<lambda>stack.
         Inr ((''ModelRouter-'' @ ecf_env_name config, stack),
              github_oidc_stack account region (environ_or env ''GITHUB_OIDC_ORG'' ''lapczyna'')
                (environ_or env ''GITHUB_OIDC_REPO'' ''aws-model-router''))))"

section \<open>Grants on the tables\<close>

text \<open>
  A table seen through the actions granted on it: a call without its action is refused.  A
  conditional write is a \<open>PutItem\<close> like any other.
\<close>

definition access_denied :: exn where
  "access_denied = Client_Error ''AccessDeniedException''"

definition with_action :: "str list \<Rightarrow> str \<Rightarrow> ('s, 'a) op \<Rightarrow> ('s, 'a) op" where
  "with_action actions action call = (if action \<in> set actions then call else raise_io access_denied)"

definition granted_table :: "str list \<Rightarrow> ('s, 'k, 'v) table_port \<Rightarrow> ('s, 'k, 'v) table_port" where
  "granted_table actions t =
     \<lparr>tb_put_if = (\<lambda>c k v. with_action actions ''dynamodb:PutItem'' (tb_put_if t c k v)),
      tb_put = (\<lambda>k v. with_action actions ''dynamodb:PutItem'' (tb_put t k v)),
      tb_get = (\<lambda>k. with_action actions ''dynamodb:GetItem'' (tb_get t k)),
      tb_delete = (\<lambda>k. with_action actions ''dynamodb:DeleteItem'' (tb_delete t k))\<rparr>"

lemma granted_table_simps [simp]:
  "''dynamodb:PutItem'' \<in> set actions \<Longrightarrow> tb_put_if (granted_table actions t) = tb_put_if t"
  "''dynamodb:PutItem'' \<in> set actions \<Longrightarrow> tb_put (granted_table actions t) = tb_put t"
  "''dynamodb:GetItem'' \<in> set actions \<Longrightarrow> tb_get (granted_table actions t) = tb_get t"
  "''dynamodb:DeleteItem'' \<in> set actions \<Longrightarrow> tb_delete (granted_table actions t) = tb_delete t"
  by (simp_all add: granted_table_def with_action_def)

lemma refused_table_simps [simp]:
  "''dynamodb:PutItem'' \<notin> set actions \<Longrightarrow> tb_put_if (granted_table actions t) c k v = raise_io access_denied"
  "''dynamodb:PutItem'' \<notin> set actions \<Longrightarrow> tb_put (granted_table actions t) k v = raise_io access_denied"
  "''dynamodb:GetItem'' \<notin> set actions \<Longrightarrow> tb_get (granted_table actions t) k = raise_io access_denied"
  "''dynamodb:DeleteItem'' \<notin> set actions \<Longrightarrow> tb_delete (granted_table actions t) k = raise_io access_denied"
  by (simp_all add: granted_table_def with_action_def)

text \<open>The stores over the tables as the function may use them.\<close>

definition granted_decisions :: "str list \<Rightarrow> ('s, 'j) dynamo_decisions \<Rightarrow> 's routing_decision_repository" where
  "granted_decisions actions cfg =
     dynamo_decision_repository (cfg\<lparr>ddc_table := granted_table actions (ddc_table cfg)\<rparr>)"

definition granted_idempotency :: "str list \<Rightarrow> ('s, 'j) dynamo_idempotency \<Rightarrow> 's idempotency_store" where
  "granted_idempotency actions cfg =
     dynamo_idempotency_store (cfg\<lparr>dyn_table := granted_table actions (dyn_table cfg)\<rparr>)"

lemma granted_decisions_same:
  assumes "{''dynamodb:GetItem'', ''dynamodb:PutItem''} \<subseteq> set actions"
  shows "granted_decisions actions cfg = dynamo_decision_repository cfg"
  using assms
  by (simp add: granted_decisions_def dynamo_decision_repository_def dynamo_save_def[abs_def] dynamo_get_def[abs_def])

lemma granted_idempotency_same:
  assumes "{''dynamodb:GetItem'', ''dynamodb:PutItem'', ''dynamodb:DeleteItem''} \<subseteq> set actions"
  shows "granted_idempotency actions cfg = dynamo_idempotency_store cfg"
proof -
  let ?cfg = "cfg\<lparr>dyn_table := granted_table actions (dyn_table cfg)\<rparr>"
  have attempt: "dynamo_try_reserve ?cfg = dynamo_try_reserve cfg"
    using assms
    by (simp add: dynamo_try_reserve_def[abs_def] existing_reservation_def[abs_def]
        cong: if_cong option.case_cong sum.case_cong)
  have "dynamo_reserve_loop n ?cfg a k h = dynamo_reserve_loop n cfg a k h" for n a k h
    by (induction n) (simp_all add: attempt)
  then have "dynamo_reserve ?cfg = dynamo_reserve cfg" by (simp add: dynamo_reserve_def fun_eq_iff)
  moreover have release: "dynamo_release ?cfg = dynamo_release cfg"
    using assms by (simp add: dynamo_release_def[abs_def])
  moreover have "dynamo_complete ?cfg = dynamo_complete cfg"
    using assms by (simp add: dynamo_complete_def[abs_def] release cong: if_cong)
  ultimately show ?thesis by (simp add: granted_idempotency_def dynamo_idempotency_store_def)
qed

text \<open>Without one of its actions, a store over a table that works fails in some call.\<close>

lemma decisions_need:
  assumes "a \<in> {''dynamodb:GetItem'', ''dynamodb:PutItem''}" and "a \<notin> set actions"
  shows "granted_decisions actions (map_decisions tm) \<noteq> dynamo_decision_repository (map_decisions tm)"
proof
  assume same: "granted_decisions actions (map_decisions tm) = dynamo_decision_repository (map_decisions tm)"
  fix rec :: audit_record and w :: 'a
  have "rd_get (granted_decisions actions (map_decisions tm)) [] (Map.empty, w) =
      rd_get (dynamo_decision_repository (map_decisions tm)) [] (Map.empty, w)"
    and "rd_save (granted_decisions actions (map_decisions tm)) rec (Map.empty, w) =
      rd_save (dynamo_decision_repository (map_decisions tm)) rec (Map.empty, w)"
    using same by simp_all
  then show False
    using assms
    by (auto simp: granted_decisions_def dynamo_decision_repository_def dynamo_save_def dynamo_get_def
        map_decisions_def map_table_def io_run)
qed

definition held_item :: "'j idempotency_item" where
  "held_item = \<lparr>idi_request_hash = ''h'', idi_status = status_in_progress, idi_result = None, idi_expires_at = 0\<rparr>"

text \<open>The first attempt to reserve decides in both states: the key is free, or held with time left.\<close>

lemma reserve_first:
  assumes "dynamo_try_reserve cfg a k h s = (Inl e, s')"
  shows "dynamo_reserve cfg a k h s = (Inl e, s')"
  using assms by (simp add: dynamo_reserve_def max_reserve_attempts_def numeral_2_eq_2 io_run)

lemma idempotency_need:
  assumes "a \<in> {''dynamodb:GetItem'', ''dynamodb:PutItem'', ''dynamodb:DeleteItem''}" and "a \<notin> set actions"
  shows "granted_idempotency actions (map_dynamo (\<lambda>w::unit. 0)) \<noteq> dynamo_idempotency_store (map_dynamo (\<lambda>w. 0))"
proof
  let ?held = "([([], []) \<mapsto> held_item], ())" and ?free = "(Map.empty, ())"
  let ?full = "map_dynamo (\<lambda>w::unit. 0)"
  let ?cfg = "?full\<lparr>dyn_table := granted_table actions map_table\<rparr>"
  assume "granted_idempotency actions ?full = dynamo_idempotency_store ?full"
  then have same: "dynamo_reserve ?cfg = dynamo_reserve ?full" "dynamo_release ?cfg = dynamo_release ?full"
    by (simp_all add: granted_idempotency_def dynamo_idempotency_store_def)
  have works: "\<exists>r s'. dynamo_reserve ?full [] [] ''h'' s = (Inr r, s')" if "s \<in> {?held, ?free}" for s
    using that
    by (auto simp: dynamo_reserve_def max_reserve_attempts_def numeral_2_eq_2 dynamo_try_reserve_def
        existing_reservation_def map_table_def reservable_def held_item_def int_trunc_def io_run condition_failed_def Let_def)
  have never: "dynamo_reserve ?full [] [] ''h'' s \<noteq> (Inl e, s')" if "s \<in> {?held, ?free}" for s e s'
    using works[OF that] by auto
  consider (put) "''dynamodb:PutItem'' \<notin> set actions" | (delete) "''dynamodb:DeleteItem'' \<notin> set actions"
    | (get) "''dynamodb:PutItem'' \<in> set actions" "''dynamodb:GetItem'' \<notin> set actions"
    using assms by blast
  then show False
  proof cases
    case put
    then have "dynamo_try_reserve ?cfg [] [] ''h'' ?free = (Inl access_denied, ?free)"
      by (simp add: dynamo_try_reserve_def io_run access_denied_def condition_failed_def Let_def)
    from reserve_first[OF this] never[of ?free access_denied ?free] show False unfolding same by simp
  next
    case delete
    then have "dynamo_release ?cfg [] [] ?free = (Inl access_denied, ?free)"
      by (simp add: dynamo_release_def io_run)
    then show False unfolding same by (simp add: dynamo_release_def map_table_def)
  next
    case get
    then have "dynamo_try_reserve ?cfg [] [] ''h'' ?held = (Inl access_denied, ?held)"
      by (simp add: dynamo_try_reserve_def map_table_def reservable_def held_item_def int_trunc_def io_run condition_failed_def Let_def)
    from reserve_first[OF this] never[of ?held access_denied ?held] show False unfolding same by simp
  qed
qed

text \<open>
  The function is granted on each table exactly what its store needs: with every other action
  refused the decision repository and the idempotency store behave as with full access, and
  without any single one of the granted actions they do not.
\<close>

theorem table_grants_exact:
  fixes decisions :: "('s, 'j) dynamo_decisions" and idempotency :: "('t, 'i) dynamo_idempotency"
  assumes "lambda_construct files other config repo_root names region account_id = Inr fn"
  shows "granted_decisions (lfn_decisions_actions fn) decisions = dynamo_decision_repository decisions \<and>
    granted_idempotency (lfn_idempotency_actions fn) idempotency = dynamo_idempotency_store idempotency \<and>
    (\<forall>a\<in>set (lfn_decisions_actions fn).
       granted_decisions (removeAll a (lfn_decisions_actions fn)) (map_decisions tm) \<noteq>
       dynamo_decision_repository (map_decisions tm)) \<and>
    (\<forall>a\<in>set (lfn_idempotency_actions fn).
       granted_idempotency (removeAll a (lfn_idempotency_actions fn)) (map_dynamo (\<lambda>w::unit. 0)) \<noteq>
       dynamo_idempotency_store (map_dynamo (\<lambda>w. 0)))"
proof -
  have acts: "lfn_decisions_actions fn = [''dynamodb:GetItem'', ''dynamodb:PutItem'']"
    "lfn_idempotency_actions fn = [''dynamodb:GetItem'', ''dynamodb:PutItem'', ''dynamodb:DeleteItem'']"
    using assms by (auto simp: lambda_construct_def)
  have "granted_decisions (removeAll a (lfn_decisions_actions fn)) (map_decisions tm) \<noteq>
      dynamo_decision_repository (map_decisions tm)" if "a \<in> set (lfn_decisions_actions fn)" for a
    using that by (intro decisions_need[of a]) (simp_all add: acts)
  moreover have "granted_idempotency (removeAll a (lfn_idempotency_actions fn)) (map_dynamo (\<lambda>w::unit. 0)) \<noteq>
      dynamo_idempotency_store (map_dynamo (\<lambda>w. 0))" if "a \<in> set (lfn_idempotency_actions fn)" for a
    using that by (intro idempotency_need[of a]) (simp_all add: acts)
  moreover have "granted_decisions (lfn_decisions_actions fn) decisions = dynamo_decision_repository decisions"
    by (rule granted_decisions_same) (simp add: acts)
  moreover have "granted_idempotency (lfn_idempotency_actions fn) idempotency = dynamo_idempotency_store idempotency"
    by (rule granted_idempotency_same) (simp add: acts)
  ultimately show ?thesis by blast
qed

theorem table_grants_exact_witness:
  "\<exists>fn. lambda_construct shipped_files (\<lambda>r. []) dev_config [] sample_names ''us-east-1'' ''123'' = Inr fn \<and>
     granted_decisions (lfn_decisions_actions fn) (map_decisions (\<lambda>w::unit. 0)) =
       dynamo_decision_repository (map_decisions (\<lambda>w. 0)) \<and>
     granted_idempotency (lfn_idempotency_actions fn) (map_dynamo (\<lambda>w::unit. 0)) =
       dynamo_idempotency_store (map_dynamo (\<lambda>w. 0))"
proof -
  obtain fn where fn: "lambda_construct shipped_files (\<lambda>r. []) dev_config [] sample_names ''us-east-1'' ''123'' = Inr fn"
    using shipped_reads_catalogue shipped_repo_file shipped_catalogue_loads by (rule lambda_construct_runs)
  from table_grants_exact[OF fn, of "map_decisions (\<lambda>w::unit. 0)" "map_dynamo (\<lambda>w::unit. 0)"] fn
  show ?thesis by blast
qed

section \<open>What is watched\<close>

fun custom_metrics :: "watched_metric \<Rightarrow> custom_metric list" where
  "custom_metrics (Custom c) = [c]"
| "custom_metrics (Math_Expression e parts p) = map snd parts"
| "custom_metrics _ = []"

definition watched_metrics :: "observability \<Rightarrow> watched_metric list" where
  "watched_metrics obs = map alm_metric (obs_alarms obs) @ concat (map snd (concat (obs_widgets obs)))"

text \<open>
  Every custom metric behind an alarm or a widget is one the publisher emits, in the same namespace
  and under the environment by which it is looked up.
\<close>

theorem watched_metrics_emitted:
  assumes "w \<in> set (watched_metrics (observability_construct config))" and "c \<in> set (custom_metrics w)"
  shows "cmt_namespace c = metrics_namespace \<and> cmt_dimensions c = [(''Environment'', ecf_env_name config)] \<and>
    (\<exists>d a v unit extra. (cmt_metric_name c, v, unit, extra) \<in> set (decision_points d @ attempt_points a))"
proof -
  let ?names = "[''ProviderFailureCount'', ''RequestCount'', ''FallbackUsedCount'', ''NoEligibleModelCount'', ''EstimatedCostUsd'']"
  fix d :: routing_decision and e :: estimated_cost and a :: invocation_attempt
  let ?points = "decision_points (d\<lparr>dec_estimated_cost := Some e\<rparr>) @ attempt_points (a\<lparr>at_status := Attempt_TIMEOUT\<rparr>)"
  have "\<forall>w\<in>set (watched_metrics (observability_construct config)). \<forall>c\<in>set (custom_metrics w).
      cmt_metric_name c \<in> set ?names \<and> cmt_namespace c = metrics_namespace \<and>
      cmt_dimensions c = [(''Environment'', ecf_env_name config)]"
    by (simp add: watched_metrics_def observability_construct_def Let_def fallback_rate_def mk_alarm_def
        mk_custom_metric_def metrics_namespace_def)
  then have c: "cmt_metric_name c \<in> set ?names" "cmt_namespace c = metrics_namespace"
    "cmt_dimensions c = [(''Environment'', ecf_env_name config)]"
    using assms by blast+
  have "set ?names \<subseteq> set (map fst ?points)"
    by (simp add: decision_points_def attempt_points_def Let_def)
  then have "cmt_metric_name c \<in> fst ` set ?points" using c(1) by (simp only: subsetD set_map)
  then have "\<exists>v unit extra. (cmt_metric_name c, v, unit, extra) \<in> set ?points"
    by (metis (no_types, lifting) imageE prod.collapse)
  then show ?thesis using c(2,3) by blast
qed

section \<open>Who may deploy\<close>

text \<open>
  There is a deploy role for every environment that can be configured; its subject determines the
  environment, so the workflow of one environment cannot assume the role of another; and it may do
  nothing but assume a role that \<open>cdk bootstrap\<close> created.
\<close>

theorem deploy_roles_separate:
  assumes "(e, r) \<in> set (github_oidc_stack account region org repo)"
  shows "(\<exists>config. get_environment_config e = Inr config) \<and>
    (\<forall>e' r'. (e', r') \<in> set (github_oidc_stack account region org repo) \<longrightarrow>
       dro_trusted_subject r' = dro_trusted_subject r \<longrightarrow> e' = e \<and> r' = r) \<and>
    pst_actions (dro_statement r) = [''sts:AssumeRole''] \<and>
    set (pst_resources (dro_statement r)) = bootstrap_role_arn account region ` set bootstrap_role_kinds"
  using assms
  by (auto simp: github_oidc_stack_def oidc_environments_def mk_deploy_role_def get_environment_config_def environments_def)

theorem every_environment_deployable:
  "get_environment_config e = Inr config \<Longrightarrow>
   ecf_env_name config = e \<and> e \<in> fst ` set (github_oidc_stack account region org repo)"
  by (auto simp: get_environment_config_def environments_def github_oidc_stack_def oidc_environments_def split: if_splits)

text \<open>
  The stack is built whenever the service's catalogue loads, and its function publishes to the bus
  the stack creates.
\<close>

theorem stack_synthesizes:
  assumes "reads_catalogue files"
    and "env_read files (path_join repo_root ''policies/model_catalogue.yaml'') = env_read files ''policies/model_catalogue.yaml''"
    and "local_file_model_catalogue files ''policies/model_catalogue.yaml'' = Inr cat"
  shows "\<exists>stack roles. synth_app files other env None repo_root phy account = Inr ((''ModelRouter-dev'', stack), roles) \<and>
    map_of (lfn_environment (mrs_function stack)) ''DECISION_EVENTS_BUS_NAME'' = Some (mrs_event_bus stack) \<and>
    lfn_put_events_bus (mrs_function stack) = mrs_event_bus stack \<and>
    rap_integration_alias (mrs_api stack) = lfn_alias_name (mrs_function stack)"
proof -
  let ?names = "\<lparr>dn_decisions_table = phy_decisions_table phy, dn_idempotency_table = phy_idempotency_table phy,
    dn_event_bus = events_construct dev_config, dn_secret_arn = phy_secret_arn phy\<rparr>"
  let ?region = "environ_or env ''CDK_DEFAULT_REGION'' ''us-east-1''"
  obtain fn where fn: "lambda_construct files other dev_config repo_root ?names ?region account = Inr fn"
    and vars: "lfn_environment fn = lambda_environment dev_config ?names (\<exists>m\<in>set (mc_all_models cat). md_provider m = Provider_OPENAI)"
    using assms by (rule lambda_construct_runs)
  have bus: "lfn_put_events_bus fn = events_construct dev_config" using fn by (auto simp: lambda_construct_def)
  have dev: "get_environment_config ''dev'' = Inr dev_config" "ecf_env_name dev_config = ''dev''"
    by (simp_all add: get_environment_config_def environments_def dev_config_def)
  show ?thesis
    using vars bus
    by (simp add: synth_app_def dev model_router_stack_def Let_def fn api_construct_def lambda_environment_def)
qed

end
