(* ===== verification/Json_Text.thy ===== *)
theory Json_Text
  imports Request_Hash Py_Value
begin

text \<open>
  JSON as text: \<open>json.loads(text, parse_float=Decimal)\<close> and \<open>json.dumps\<close> of Python's standard library
  on untyped values.  The reader is a recursive descent over the text with the length of the text as
  its bound on nesting; an escape beyond the code points of the model and the constants \<open>NaN\<close> and
  \<open>Infinity\<close> are outside the model and refused.  Reading back what was written gives the value, with
  either separator style; it follows that the canonical text of a request determines its content.
\<close>

section \<open>Writing\<close>

text \<open>\<open>json.dumps(value, separators=(item_sep, key_sep))\<close>; \<open>fr\<close> is the text of a float.\<close>

fun dumps_text :: "(rat \<Rightarrow> str) \<Rightarrow> str \<Rightarrow> str \<Rightarrow> pyval \<Rightarrow> str" where
  "dumps_text fr isep ksep PV_None = ''null''"
| "dumps_text fr isep ksep (PV_Bool b) = (if b then ''true'' else ''false'')"
| "dumps_text fr isep ksep (PV_Int i) = int_str i"
| "dumps_text fr isep ksep (PV_Dec d) = decimal_str d"
| "dumps_text fr isep ksep (PV_Float q) = fr q"
| "dumps_text fr isep ksep (PV_Str s) = json_string s"
| "dumps_text fr isep ksep (PV_List xs) = ''['' @ str_join isep (map (dumps_text fr isep ksep) xs) @ '']''"
| "dumps_text fr isep ksep (PV_Dict kvs) =
     ''{'' @ str_join isep (map (\<lambda>kv. json_string (fst kv) @ ksep @ dumps_text fr isep ksep (snd kv)) kvs) @ ''}''"

section \<open>Reading\<close>

definition is_ws :: "char \<Rightarrow> bool" where
  "is_ws c \<longleftrightarrow> c \<in> {CHR '' '', CHR 0x09, CHR 0x0A, CHR 0x0D}"

definition skip_ws :: "str \<Rightarrow> str" where
  "skip_ws s = dropWhile is_ws s"

definition is_digit :: "char \<Rightarrow> bool" where
  "is_digit c \<longleftrightarrow> 48 \<le> (of_char c :: nat) \<and> (of_char c :: nat) \<le> 57"

definition digits_value :: "str \<Rightarrow> nat" where
  "digits_value s = foldl (\<lambda>n c. 10 * n + (of_char c - 48)) 0 s"

text \<open>\<open>-?(0|[1-9][0-9]*)(\.[0-9]+)?([eE][-+]?[0-9]+)?\<close>: an \<open>int\<close>, or a \<open>Decimal\<close> of the whole token.\<close>

definition leading_digits :: "str \<Rightarrow> str" where
  "leading_digits t = (if take 1 t = ''0'' then ''0'' else takeWhile is_digit t)"

definition split_fraction :: "str \<Rightarrow> str \<times> str" where
  "split_fraction s =
     (case s of
        c # t \<Rightarrow> if c = CHR ''.'' \<and> takeWhile is_digit t \<noteq> []
                 then (takeWhile is_digit t, dropWhile is_digit t) else ([], s)
      | [] \<Rightarrow> ([], []))"

definition split_exponent :: "str \<Rightarrow> int option \<times> str" where
  "split_exponent s =
     (case s of
        c # t \<Rightarrow>
          if c = CHR ''e'' \<or> c = CHR ''E'' then
            (let neg = (take 1 t = ''-''); u = (if take 1 t = ''-'' \<or> take 1 t = ''+'' then drop 1 t else t)
             in if takeWhile is_digit u = [] then (None, s)
                else (Some ((if neg then -1 else 1) * int (digits_value (takeWhile is_digit u))), dropWhile is_digit u))
          else (None, s)
      | [] \<Rightarrow> (None, []))"

definition scan_number :: "str \<Rightarrow> (pyval \<times> str) option" where
  "scan_number s =
     (let neg = (take 1 s = ''-''); t = (if neg then drop 1 s else s);
          whole = leading_digits t
      in if whole = [] then None
         else (case split_fraction (drop (length whole) t) of (fraction, u) \<Rightarrow>
              (case split_exponent u of (ex, rest) \<Rightarrow>
                 (let sign = (if neg then -1 else 1 :: int)
                  in if fraction = [] \<and> ex = None then Some (PV_Int (sign * int (digits_value whole)), rest)
                     else Some (PV_Dec (Dec (sign * int (digits_value (whole @ fraction)))
                            ((case ex of None \<Rightarrow> 0 | Some e \<Rightarrow> e) - int (length fraction))), rest)))))"

text \<open>Strings: from after the opening quote; control characters are refused.\<close>

definition is_hex_digit :: "char \<Rightarrow> bool" where
  "is_hex_digit c \<longleftrightarrow> c \<in> set ''0123456789abcdefABCDEF''"

definition hex_number :: "char \<Rightarrow> nat" where
  "hex_number c = (let n = of_char c in if n \<le> 57 then n - 48 else if n \<le> 70 then n - 55 else n - 87)"

definition simple_escape :: "char \<Rightarrow> char option" where
  "simple_escape c = map_of
     [(CHR 0x22, CHR 0x22), (CHR 0x5C, CHR 0x5C), (CHR ''/'', CHR ''/''), (CHR ''b'', CHR 0x08), (CHR ''f'', CHR 0x0C),
      (CHR ''n'', CHR 0x0A), (CHR ''r'', CHR 0x0D), (CHR ''t'', CHR 0x09)] c"

definition cons_fst :: "'a \<Rightarrow> ('a list \<times> 'b) option \<Rightarrow> ('a list \<times> 'b) option" where
  "cons_fst x r = map_option (\<lambda>(xs, t). (x # xs, t)) r"

fun scan_string :: "str \<Rightarrow> (str \<times> str) option" where
  "scan_string [] = None"
| "scan_string (c # s) =
     (if c = CHR 0x22 then Some ([], s)
      else if c = CHR 0x5C then
        (case s of
           [] \<Rightarrow> None
         | e # t \<Rightarrow>
             if e = CHR ''u'' then
               (case t of
                  w # x # y # z # u \<Rightarrow>
                    if is_hex_digit w \<and> is_hex_digit x \<and> is_hex_digit y \<and> is_hex_digit z
                      \<and> hex_number w = 0 \<and> hex_number x = 0
                    then cons_fst (char_of (16 * hex_number y + hex_number z)) (scan_string u) else None
                | _ \<Rightarrow> None)
             else (case simple_escape e of None \<Rightarrow> None | Some x \<Rightarrow> cons_fst x (scan_string t)))
      else if (of_char c :: nat) < 32 then None
      else cons_fst c (scan_string s))"

text \<open>\<open>d[k] = v\<close>: a key that is there keeps its place.\<close>

fun dict_set :: "('k \<times> 'v) list \<Rightarrow> 'k \<Rightarrow> 'v \<Rightarrow> ('k \<times> 'v) list" where
  "dict_set [] k v = [(k, v)]"
| "dict_set ((k', v') # d) k v = (if k' = k then (k, v) # d else (k', v') # dict_set d k v)"

definition dict_of :: "('k \<times> 'v) list \<Rightarrow> ('k \<times> 'v) list" where
  "dict_of kvs = foldl (\<lambda>d kv. dict_set d (fst kv) (snd kv)) [] kvs"

fun scan_value :: "nat \<Rightarrow> str \<Rightarrow> (pyval \<times> str) option"
  and scan_items :: "nat \<Rightarrow> str \<Rightarrow> (pyval list \<times> str) option"
  and scan_members :: "nat \<Rightarrow> str \<Rightarrow> ((str \<times> pyval) list \<times> str) option"
where
  "scan_value 0 s = None"
| "scan_value (Suc n) s =
     (case s of
        [] \<Rightarrow> None
      | c # t \<Rightarrow>
          if c = CHR 0x22 then map_option (\<lambda>(x, r). (PV_Str x, r)) (scan_string t)
          else if c = CHR ''['' then
            (if take 1 (skip_ws t) = '']'' then Some (PV_List [], drop 1 (skip_ws t))
             else map_option (\<lambda>(xs, r). (PV_List xs, r)) (scan_items n (skip_ws t)))
          else if c = CHR ''{'' then
            (if take 1 (skip_ws t) = ''}'' then Some (PV_Dict [], drop 1 (skip_ws t))
             else map_option (\<lambda>(kvs, r). (PV_Dict (dict_of kvs), r)) (scan_members n (skip_ws t)))
          else if take 4 s = ''null'' then Some (PV_None, drop 4 s)
          else if take 4 s = ''true'' then Some (PV_Bool True, drop 4 s)
          else if take 5 s = ''false'' then Some (PV_Bool False, drop 5 s)
          else scan_number s)"
| "scan_items 0 s = None"
| "scan_items (Suc n) s =
     (case scan_value n s of
        None \<Rightarrow> None
      | Some (v, r) \<Rightarrow>
          (case skip_ws r of
             [] \<Rightarrow> None
           | c # t \<Rightarrow> if c = CHR '']'' then Some ([v], t)
                      else if c = CHR '','' then cons_fst v (scan_items n (skip_ws t)) else None))"
| "scan_members 0 s = None"
| "scan_members (Suc n) s =
     (case s of
        [] \<Rightarrow> None
      | q # s' \<Rightarrow>
          if q \<noteq> CHR 0x22 then None
          else (case scan_string s' of
             None \<Rightarrow> None
           | Some (k, r) \<Rightarrow>
               (case skip_ws r of
                  [] \<Rightarrow> None
                | c # t \<Rightarrow>
                    if c \<noteq> CHR '':'' then None
                    else (case scan_value n (skip_ws t) of
                       None \<Rightarrow> None
                     | Some (v, r') \<Rightarrow>
                         (case skip_ws r' of
                            [] \<Rightarrow> None
                          | d # t' \<Rightarrow> if d = CHR ''}'' then Some ([(k, v)], t')
                                      else if d = CHR '','' then cons_fst (k, v) (scan_members n (skip_ws t'))
                                      else None)))))"

definition json_loads :: "str \<Rightarrow> pyval result" where
  "json_loads text =
     (case scan_value (Suc (length text)) (skip_ws text) of
        None \<Rightarrow> Inl Json_Decode_Error
      | Some (v, r) \<Rightarrow> if skip_ws r = [] then Inr v else Inl Json_Decode_Error)"

section \<open>Strings read back\<close>

lemma hex_byte_read:
  assumes "0 \<le> n" "n < 256"
  shows "\<exists>y z. hex_byte n = [y, z] \<and> is_hex_digit y \<and> is_hex_digit z \<and> 16 * hex_number y + hex_number z = nat n"
proof -
  have digit: "is_hex_digit (hex_digits ! k) \<and> hex_number (hex_digits ! k) = k" if "k < 16" for k
  proof -
    have "k \<in> set [0..<16]" using that by simp
    then show ?thesis
      by (simp add: upt_rec[of _ 16] hex_digits_def is_hex_digit_def hex_number_def Let_def) (elim disjE; simp)
  qed
  define a b where ab: "a = nat (n div 16 mod 16)" "b = nat (n mod 16)"
  have "a = nat n div 16" "b = nat n mod 16" using assms by (simp_all add: ab nat_mod_distrib nat_div_distrib)
  then have "a < 16" "b < 16" "16 * a + b = nat n" using assms by auto
  moreover have "hex_byte n = [hex_digits ! a, hex_digits ! b]" by (simp only: hex_byte_def ab)
  ultimately show ?thesis using digit[of a] digit[of b] by metis
qed

lemma scan_escaped: "scan_string (escape_char c @ t) = cons_fst c (scan_string t)"
proof -
  define n where "n = (of_char c :: int)"
  have nat: "n = int (of_char c)" unfolding n_def by (simp add: of_nat_of_char)
  then have n: "0 \<le> n" "n < 256" using nat_of_char_less_256[of c] by linarith+
  have small: "(of_char c :: nat) = nat n" using nat by simp
  have c: "c = char_of (nat n)" unfolding small[symmetric] by simp
  consider "n \<in> {34, 92, 10, 13, 9, 12, 8}" | "n \<notin> {34, 92, 10, 13, 9, 12, 8}" "32 \<le> n \<and> n \<le> 126"
    | "n \<notin> {34, 92, 10, 13, 9, 12, 8}" "\<not> (32 \<le> n \<and> n \<le> 126)" by blast
  then show ?thesis
  proof cases
    case 1
    then show ?thesis unfolding escape_char_def Let_def n_def[symmetric]
      by (elim insertE) (simp_all add: c simple_escape_def char_of_def bit_0)
  next
    case 2
    have "c \<noteq> CHR 0x22" "c \<noteq> CHR 0x5C" using 2 unfolding n_def by auto
    then show ?thesis using 2 small unfolding escape_char_def Let_def n_def[symmetric] by auto
  next
    case 3
    obtain y z where h: "hex_byte n = [y, z]" "is_hex_digit y" "is_hex_digit z" "16 * hex_number y + hex_number z = nat n"
      using hex_byte_read[OF n(1,2)] by blast
    have "is_hex_digit (CHR ''0'')" "hex_number (CHR ''0'') = 0" by (simp_all add: is_hex_digit_def hex_number_def)
    then show ?thesis
      using 3 h c small unfolding escape_char_def Let_def n_def[symmetric] by auto
  qed
qed

lemma scan_json_string: "scan_string (concat (map escape_char s) @ CHR 0x22 # t) = Some (s, t)"
proof (induction s)
  case (Cons c s)
  have "scan_string (escape_char c @ concat (map escape_char s) @ CHR 0x22 # t) = Some (c # s, t)"
    unfolding scan_escaped Cons.IH by (simp add: cons_fst_def)
  then show ?case by simp
qed simp

section \<open>Numbers read back\<close>

lemma digits_value_snoc: "digits_value (xs @ [c]) = 10 * digits_value xs + (of_char c - 48)"
  by (simp add: digits_value_def)

lemma digits_value_zeros: "digits_value (replicate k (CHR ''0'') @ xs) = digits_value xs"
  by (induction k) (simp_all add: digits_value_def)

lemma digit_char: "k < 10 \<Longrightarrow> is_digit (char_of (48 + k)) \<and> (of_char (char_of (48 + k)) :: nat) - 48 = k"
  for k :: nat
  by (simp add: is_digit_def)

lemma nat_str_digits: "list_all is_digit (nat_str n)" "digits_value (nat_str n) = n" "nat_str n \<noteq> []"
proof -
  have "list_all is_digit (nat_str n) \<and> digits_value (nat_str n) = n \<and> nat_str n \<noteq> []"
  proof (induction n rule: nat_str.induct)
    case (1 n)
    show ?case
    proof (cases "n < 10")
      case True
      then show ?thesis using digit_char[OF True] by (simp add: nat_str.simps[of n] digits_value_def)
    next
      case False
      then show ?thesis
        using 1 digit_char[of "n mod 10"] by (simp add: nat_str.simps[of n] digits_value_snoc)
    qed
  qed
  then show "list_all is_digit (nat_str n)" "digits_value (nat_str n) = n" "nat_str n \<noteq> []" by simp_all
qed

lemma nat_str_0: "nat_str 0 = ''0''"
  by (simp add: nat_str.simps[of 0] char_of_def bit_0)

lemma nat_str_hd: "0 < n \<Longrightarrow> hd (nat_str n) \<noteq> CHR ''0''"
proof (induction n rule: nat_str.induct)
  case (1 n)
  show ?case
  proof (cases "n < 10")
    case True
    have "(of_char (char_of (48 + n)) :: nat) \<noteq> of_char (CHR ''0'')" using True "1.prems" by simp
    then show ?thesis using True by (metis list.sel(1) nat_str.simps[of n])
  next
    case False
    then show ?thesis using 1 nat_str_digits(3) by (simp add: nat_str.simps[of n])
  qed
qed

text \<open>What may follow a number in a JSON text.\<close>

definition value_end :: "str \<Rightarrow> bool" where
  "value_end rest \<longleftrightarrow> rest = [] \<or> hd rest \<in> {CHR '','', CHR '']'', CHR ''}''}"

lemma value_end_splits:
  assumes "value_end rest"
  shows "split_fraction rest = ([], rest)" "split_exponent rest = (None, rest)"
    and "takeWhile is_digit (ds @ rest) = takeWhile is_digit ds" "dropWhile is_digit rest = rest"
proof -
  show "split_fraction rest = ([], rest)" "split_exponent rest = (None, rest)" "dropWhile is_digit rest = rest"
    using assms by (cases rest; auto simp: value_end_def split_fraction_def split_exponent_def is_digit_def)+
  show "takeWhile is_digit (ds @ rest) = takeWhile is_digit ds"
    using assms by (induction ds) (cases rest; auto simp: value_end_def is_digit_def)+
qed

lemma digits_stop:
  assumes "list_all is_digit ds" and "value_end rest"
  shows "takeWhile is_digit (ds @ rest) = ds" "dropWhile is_digit (ds @ rest) = rest"
  using assms(1) value_end_splits(3)[OF assms(2), of "[]"] value_end_splits(4)[OF assms(2)]
  by (induction ds) auto

lemma nat_str_first: "hd (nat_str n) \<noteq> CHR ''-''" "is_digit (hd (nat_str n))"
proof -
  show d: "is_digit (hd (nat_str n))" using nat_str_digits[of n] by (cases "nat_str n") auto
  then show "hd (nat_str n) \<noteq> CHR ''-''" by (auto simp: is_digit_def)
qed

lemma whole_part:
  assumes "list_all is_digit ds" and "ds \<noteq> []" and "ds = [CHR 0x30] \<or> hd ds \<noteq> CHR ''0''" and "value_end rest \<or> hd rest = CHR ''.''"
  shows "leading_digits (ds @ rest) = ds"
proof -
  have "takeWhile is_digit (ds @ rest) = ds"
    using assms(1,4) by (induction ds) (cases rest; auto simp: value_end_def is_digit_def)+
  then show ?thesis using assms(2,3) by (cases ds) (auto simp: leading_digits_def)
qed

lemma scan_int:
  assumes "value_end rest"
  shows "scan_number (int_str i @ rest) = Some (PV_Int i, rest)"
proof -
  let ?ds = "nat_str (nat \<bar>i\<bar>)"
  have ds: "?ds = ''0'' \<or> hd ?ds \<noteq> CHR ''0''" using nat_str_0 nat_str_hd by (metis gr0I)
  note whole = whole_part[OF nat_str_digits(1,3) ds disjI1[OF assms]]
  have shape: "int_str i @ rest = (if i < 0 then CHR ''-'' # ?ds @ rest else ?ds @ rest)" by (simp add: int_str_def)
  have neg: "take 1 (?ds @ rest) \<noteq> ''-''" using nat_str_first(1)[of "nat \<bar>i\<bar>"] nat_str_digits(3) by (cases ?ds) auto
  show ?thesis
    unfolding scan_number_def shape
    using whole neg nat_str_digits[of "nat \<bar>i\<bar>"] value_end_splits[OF assms]
    by (cases "i < 0") (simp_all add: Let_def)
qed

text \<open>A decimal in plain notation with a fraction, as prices and limits are written.\<close>

definition plain_decimal :: "decimal \<Rightarrow> bool" where
  "plain_decimal d \<longleftrightarrow> expo d < 0 \<and> - 6 < expo d + int (length (nat_str (nat \<bar>coeff d\<bar>)))"

lemma plain_decimal_text:
  assumes "plain_decimal d"
  obtains whole fraction where
    "decimal_str d = (if coeff d < 0 then ''-'' else []) @ whole @ CHR ''.'' # fraction"
    "list_all is_digit whole" "whole \<noteq> []" "whole = ''0'' \<or> hd whole \<noteq> CHR ''0''"
    "list_all is_digit fraction" "int (length fraction) = - expo d" "digits_value (whole @ fraction) = nat \<bar>coeff d\<bar>"
proof -
  let ?ds = "nat_str (nat \<bar>coeff d\<bar>)"
  define left where "left = expo d + int (length ?ds)"
  have e: "expo d < 0" "- 6 < left" "left < int (length ?ds)" using assms by (simp_all add: plain_decimal_def left_def)
  have zero: "is_digit (CHR ''0'')" by (simp add: is_digit_def)
  show ?thesis
  proof (cases "left \<le> 0")
    case True
    show ?thesis
    proof (rule that[of "''0''" "replicate (nat (- left)) (CHR ''0'') @ ?ds"])
      show "decimal_str d = (if coeff d < 0 then ''-'' else []) @ ''0'' @ CHR ''.'' # replicate (nat (- left)) (CHR ''0'') @ ?ds"
        using True e by (simp add: decimal_str_def Let_def left_def[symmetric])
      show "int (length (replicate (nat (- left)) (CHR ''0'') @ ?ds)) = - expo d" using True by (simp add: left_def)
      have "''0'' @ replicate (nat (- left)) (CHR ''0'') @ ?ds = replicate (Suc (nat (- left))) (CHR ''0'') @ ?ds" by simp
      then show "digits_value (''0'' @ replicate (nat (- left)) (CHR ''0'') @ ?ds) = nat \<bar>coeff d\<bar>"
        by (simp only: digits_value_zeros nat_str_digits(2))
      show "list_all is_digit (replicate (nat (- left)) (CHR ''0'') @ ?ds)"
        using nat_str_digits(1)[of "nat \<bar>coeff d\<bar>"] zero by (auto simp: list_all_iff)
    qed (simp_all add: zero)
  next
    case False
    then have two: "1 < length ?ds" using e by linarith
    then have pos: "0 < nat \<bar>coeff d\<bar>" using nat_str_0 by (metis One_nat_def gr0I length_Cons less_irrefl list.size(3))
    show ?thesis
    proof (rule that[of "take (nat left) ?ds" "drop (nat left) ?ds"])
      show "decimal_str d = (if coeff d < 0 then ''-'' else []) @ take (nat left) ?ds @ CHR ''.'' # drop (nat left) ?ds"
        using False e by (simp add: decimal_str_def Let_def left_def[symmetric])
      show "take (nat left) ?ds \<noteq> []" using False nat_str_digits(3) by simp
      have "hd (take (nat left) ?ds) = hd ?ds" using False nat_str_digits(3) by (simp add: hd_take)
      then show "take (nat left) ?ds = ''0'' \<or> hd (take (nat left) ?ds) \<noteq> CHR ''0''" using nat_str_hd[OF pos] by simp
      show "int (length (drop (nat left) ?ds)) = - expo d" using False e by (simp add: left_def)
      show "digits_value (take (nat left) ?ds @ drop (nat left) ?ds) = nat \<bar>coeff d\<bar>" by (simp add: nat_str_digits(2))
      show "list_all is_digit (take (nat left) ?ds)" "list_all is_digit (drop (nat left) ?ds)"
        using nat_str_digits(1)[of "nat \<bar>coeff d\<bar>"] by (auto simp: list_all_iff dest: in_set_takeD in_set_dropD)
    qed
  qed
qed

lemma scan_decimal:
  assumes "plain_decimal d" and "value_end rest"
  shows "scan_number (decimal_str d @ rest) = Some (PV_Dec d, rest)"
proof -
  obtain whole fraction where t:
    "decimal_str d = (if coeff d < 0 then ''-'' else []) @ whole @ CHR ''.'' # fraction"
    "list_all is_digit whole" "whole \<noteq> []" "whole = ''0'' \<or> hd whole \<noteq> CHR ''0''"
    "list_all is_digit fraction" "int (length fraction) = - expo d" "digits_value (whole @ fraction) = nat \<bar>coeff d\<bar>"
    using plain_decimal_text[OF assms(1)] by metis
  have fraction: "fraction \<noteq> []" using t(6) assms(1) by (auto simp: plain_decimal_def)
  have split: "split_fraction (CHR ''.'' # fraction @ rest) = (fraction, rest)"
    using digits_stop[OF t(5) assms(2)] fraction by (simp add: split_fraction_def)
  have whole: "leading_digits (whole @ CHR ''.'' # fraction @ rest) = whole"
    by (rule whole_part[OF t(2,3,4)]) simp
  have neg: "take 1 (whole @ CHR ''.'' # fraction @ rest) \<noteq> ''-''"
    using t(2,3) by (cases whole) (auto simp: is_digit_def)
  have d: "Dec (coeff d) (expo d) = d" by simp
  show ?thesis
    unfolding scan_number_def t(1)
    using whole neg split value_end_splits(2)[OF assms(2)] t(3,6,7) fraction
    by (cases "coeff d < 0") (simp_all add: Let_def d)
qed

section \<open>Values read back\<close>

text \<open>Values that come back as they are: no floats, decimals with a fraction, keys once each.\<close>

fun wire_value :: "pyval \<Rightarrow> bool" where
  "wire_value (PV_Dec d) = plain_decimal d"
| "wire_value (PV_Float q) = False"
| "wire_value (PV_List xs) = list_all wire_value xs"
| "wire_value (PV_Dict kvs) = (distinct (map fst kvs) \<and> list_all (\<lambda>kv. wire_value (snd kv)) kvs)"
| "wire_value _ = True"

definition separators :: "str \<Rightarrow> str \<Rightarrow> bool" where
  "separators isep ksep \<longleftrightarrow>
     take 1 isep = '','' \<and> list_all is_ws (drop 1 isep) \<and> take 1 ksep = '':'' \<and> list_all is_ws (drop 1 ksep)"

lemma separatorsE:
  assumes "separators isep ksep"
  obtains w w' where "isep = CHR '','' # w" "list_all is_ws w" "ksep = CHR '':'' # w'" "list_all is_ws w'"
  using assms by (cases isep; cases ksep) (auto simp: separators_def)

lemma skip_ws_simps:
  "\<not> is_ws c \<Longrightarrow> skip_ws (c # t) = c # t"
  "list_all is_ws w \<Longrightarrow> skip_ws (w @ t) = skip_ws t"
  by (simp add: skip_ws_def) (induction w; simp add: skip_ws_def)

lemma is_ws_puncts [simp]:
  "\<not> is_ws (CHR '','')" "\<not> is_ws (CHR '':'')" "\<not> is_ws (CHR '']'')" "\<not> is_ws (CHR ''}'')" "\<not> is_ws (CHR 0x22)"
  by (simp_all add: is_ws_def)

lemma int_first: "\<exists>c t. int_str i = c # t \<and> (c = CHR ''-'' \<or> is_digit c)"
proof (cases "i < 0")
  case False
  obtain c t where "nat_str (nat i) = c # t" using nat_str_digits(3)[of "nat i"] by (cases "nat_str (nat i)") auto
  then show ?thesis using False nat_str_first(2)[of "nat i"] by (simp add: int_str_def)
qed (simp add: int_str_def)

lemma decimal_first:
  assumes "plain_decimal d"
  shows "\<exists>c t. decimal_str d = c # t \<and> (c = CHR ''-'' \<or> is_digit c)"
proof -
  obtain whole fraction where "decimal_str d = (if coeff d < 0 then ''-'' else []) @ whole @ CHR ''.'' # fraction"
    "list_all is_digit whole" "whole \<noteq> []"
    using plain_decimal_text[OF assms] by metis
  then show ?thesis by (cases whole) auto
qed

lemma dumps_first:
  assumes "wire_value v"
  shows "\<exists>c t. dumps_text fr isep ksep v = c # t \<and> \<not> is_ws c \<and> c \<noteq> CHR '']'' \<and> c \<noteq> CHR ''}''"
proof -
  have digit: "\<not> is_ws c \<and> c \<noteq> CHR '']'' \<and> c \<noteq> CHR ''}''" if "c = CHR ''-'' \<or> is_digit c" for c
    using that by (auto simp: is_digit_def is_ws_def)
  show ?thesis
  proof (cases v)
    case (PV_Int i)
    then show ?thesis using int_first[of i] digit by auto
  next
    case (PV_Dec d)
    then show ?thesis using decimal_first[of d] assms digit by auto
  qed (use assms in \<open>auto simp: json_string_def is_ws_def\<close>)
qed

lemma scan_value_number:
  assumes "s = c # t" and "c = CHR ''-'' \<or> is_digit c"
  shows "scan_value (Suc n) s = scan_number s"
proof -
  have "c \<notin> {CHR 0x22, CHR ''['', CHR ''{'', CHR ''n'', CHR ''t'', CHR ''f''}"
    using assms(2) by (auto simp: is_digit_def)
  then show ?thesis unfolding assms(1) by (simp add: take_Cons')
qed

lemma dict_of_distinct: "distinct (map fst kvs) \<Longrightarrow> dict_of kvs = kvs"
proof (induction kvs rule: rev_induct)
  case (snoc kv kvs)
  have "k \<notin> fst ` set d \<Longrightarrow> dict_set d k v = d @ [(k, v)]" for d :: "('a \<times> 'b) list" and k v
    by (induction d k v rule: dict_set.induct) auto
  then show ?case using snoc by (simp add: dict_of_def)
qed (simp add: dict_of_def)

lemma str_join_Cons: "str_join sep (x # xs) = (if xs = [] then x else x @ sep @ str_join sep xs)"
  by (cases xs) auto

lemma scan_items_join:
  assumes sep: "separators isep ksep" and xs: "xs \<noteq> []"
    and ih: "\<And>x n rest. x \<in> set xs \<Longrightarrow> length (T x) \<le> n \<Longrightarrow> value_end rest \<Longrightarrow> scan_value n (T x @ rest) = Some (x, rest)"
    and first: "\<And>x. x \<in> set xs \<Longrightarrow> \<exists>c t. T x = c # t \<and> \<not> is_ws c"
  shows "length (str_join isep (map T xs)) < n \<Longrightarrow>
    scan_items n (str_join isep (map T xs) @ CHR '']'' # rest) = Some (xs, rest)"
  using xs ih first
proof (induction xs arbitrary: n)
  case (Cons x xs)
  obtain w where w: "isep = CHR '','' # w" "list_all is_ws w" using sep by (rule separatorsE)
  obtain m where n: "n = Suc m" using Cons.prems(1) by (cases n) auto
  show ?case
  proof (cases "xs = []")
    case True
    have "scan_value m (T x @ CHR '']'' # rest) = Some (x, CHR '']'' # rest)"
      using Cons.prems(1) True by (intro Cons.prems(3)) (auto simp: n value_end_def)
    then show ?thesis using True by (simp add: n skip_ws_simps)
  next
    case False
    let ?more = "str_join isep (map T xs) @ CHR '']'' # rest"
    obtain z zs where z: "xs = z # zs" using False by (cases xs) auto
    then obtain c t where y: "xs = z # zs" "T z = c # t" "\<not> is_ws c" using Cons.prems(4)[of z] by auto
    have "skip_ws ?more = ?more" using y by (simp add: str_join_Cons skip_ws_simps)
    then have ws: "skip_ws (w @ ?more) = ?more" using w(2) by (simp add: skip_ws_simps)
    have len: "length (T x) \<le> m" "length (str_join isep (map T xs)) < m"
      using Cons.prems(1) False by (auto simp: n str_join_Cons w(1))
    have "scan_value m (T x @ isep @ ?more) = Some (x, isep @ ?more)"
      using len(1) by (intro Cons.prems(3)) (auto simp: value_end_def w(1))
    moreover have "scan_items m ?more = Some (xs, rest)"
      using len(2) False Cons.prems(3,4) by (intro Cons.IH) auto
    ultimately show ?thesis
      using False by (simp add: n str_join_Cons w(1) skip_ws_simps ws[unfolded w(1)] cons_fst_def)
  qed
qed simp

lemma scan_members_join:
  assumes sep: "separators isep ksep" and kvs: "kvs \<noteq> []"
    and ih: "\<And>kv n rest. kv \<in> set kvs \<Longrightarrow> length (T (snd kv)) \<le> n \<Longrightarrow> value_end rest \<Longrightarrow>
      scan_value n (T (snd kv) @ rest) = Some (snd kv, rest)"
    and first: "\<And>kv. kv \<in> set kvs \<Longrightarrow> \<exists>c t. T (snd kv) = c # t \<and> \<not> is_ws c"
  defines "M \<equiv> \<lambda>kv. json_string (fst kv) @ ksep @ T (snd kv)"
  shows "length (str_join isep (map M kvs)) < n \<Longrightarrow>
    scan_members n (str_join isep (map M kvs) @ CHR ''}'' # rest) = Some (kvs, rest)"
  using kvs ih first
proof (induction kvs arbitrary: n)
  case (Cons kv kvs)
  obtain w w' where w: "isep = CHR '','' # w" "list_all is_ws w" "ksep = CHR '':'' # w'" "list_all is_ws w'"
    using sep by (rule separatorsE)
  obtain m where n: "n = Suc m" using Cons.prems(1) by (cases n) auto
  let ?k = "fst kv" and ?v = "snd kv"
  obtain c t where c: "T ?v = c # t" "\<not> is_ws c" using Cons.prems(4)[of kv] by auto
  have key: "scan_members (Suc m) (M kv @ u) =
      (case scan_value m (T ?v @ u) of
         None \<Rightarrow> None
       | Some (v, r') \<Rightarrow>
           (case skip_ws r' of
              [] \<Rightarrow> None
            | d # t' \<Rightarrow> if d = CHR ''}'' then Some ([(?k, v)], t')
                        else if d = CHR '','' then cons_fst (?k, v) (scan_members m (skip_ws t')) else None))" for u
    using c by (simp add: M_def json_string_def scan_json_string w(3,4) skip_ws_simps)
  have long: "length (T ?v) < length (M kv)" by (simp add: M_def json_string_def w(3))
  show ?case
  proof (cases "kvs = []")
    case True
    have "scan_value m (T ?v @ CHR ''}'' # rest) = Some (?v, CHR ''}'' # rest)"
      using Cons.prems(1) Cons.prems(3)[of kv m] True long by (auto simp: n value_end_def)
    then show ?thesis using True by (simp add: n key skip_ws_simps del: scan_members.simps)
  next
    case False
    let ?more = "str_join isep (map M kvs) @ CHR ''}'' # rest"
    obtain y ys where y: "kvs = y # ys" using False by (cases kvs) auto
    have "skip_ws ?more = ?more" by (simp add: y str_join_Cons M_def json_string_def skip_ws_simps)
    then have ws: "skip_ws (w @ ?more) = ?more" using w(2) by (simp add: skip_ws_simps)
    have len: "length (T ?v) \<le> m" "length (str_join isep (map M kvs)) < m"
      using Cons.prems(1) False long by (auto simp: n str_join_Cons w(1))
    have "scan_value m (T ?v @ isep @ ?more) = Some (?v, isep @ ?more)"
      using Cons.prems(3)[of kv m "isep @ ?more"] len(1) by (auto simp: value_end_def w(1))
    moreover have "scan_members m ?more = Some (kvs, rest)"
      using len(2) False Cons.prems(3,4) by (intro Cons.IH) auto
    ultimately show ?thesis
      using False by (simp add: n str_join_Cons key del: scan_members.simps) (simp add: w(1) skip_ws_simps ws[unfolded w(1)] cons_fst_def del: scan_members.simps)
  qed
qed simp

lemma scan_dumps:
  assumes sep: "separators isep ksep"
  shows "wire_value v \<Longrightarrow> length (dumps_text fr isep ksep v) \<le> n \<Longrightarrow> value_end rest \<Longrightarrow>
    scan_value n (dumps_text fr isep ksep v @ rest) = Some (v, rest)"
proof (induction v arbitrary: n rest)
  case (PV_Int i)
  obtain c t where c: "int_str i = c # t" "c = CHR ''-'' \<or> is_digit c" using int_first by blast
  obtain m where "n = Suc m" using PV_Int.prems(2) c(1) by (cases n) auto
  then show ?case
    using scan_value_number[of "int_str i @ rest" c "t @ rest" m] c scan_int[OF PV_Int.prems(3), of i]
    by (simp del: scan_value.simps)
next
  case (PV_Dec d)
  then have d: "plain_decimal d" by simp
  obtain c t where c: "decimal_str d = c # t" "c = CHR ''-'' \<or> is_digit c" using decimal_first[OF d] by blast
  obtain m where "n = Suc m" using PV_Dec.prems(2) c(1) by (cases n) auto
  then show ?case
    using scan_value_number[of "decimal_str d @ rest" c "t @ rest" m] c scan_decimal[OF d PV_Dec.prems(3)]
    by (simp del: scan_value.simps)
next
  case (PV_Str s)
  then obtain m where "n = Suc m" by (cases n) (auto simp: json_string_def)
  then show ?case by (simp add: json_string_def scan_json_string)
next
  case (PV_List xs)
  let ?T = "dumps_text fr isep ksep"
  obtain m where n: "n = Suc m" using PV_List.prems(2) by (cases n) auto
  show ?case
  proof (cases "xs = []")
    case True
    then show ?thesis by (simp add: n skip_ws_simps)
  next
    case False
    have wire: "wire_value x" if "x \<in> set xs" for x using PV_List.prems(1) that by (simp add: list_all_iff)
    have "scan_items m (str_join isep (map ?T xs) @ CHR '']'' # rest) = Some (xs, rest)"
    proof (rule scan_items_join[OF sep False])
      show "length (str_join isep (map ?T xs)) < m" using PV_List.prems(2) by (simp add: n)
      show "\<exists>c t. ?T x = c # t \<and> \<not> is_ws c" if "x \<in> set xs" for x using dumps_first[OF wire[OF that]] by metis
    qed (use PV_List.IH wire in blast)
    moreover obtain x ys c t where x: "xs = x # ys" "?T x = c # t" "\<not> is_ws c" "c \<noteq> CHR '']''"
      using False wire dumps_first by (metis list.exhaust list.set_intros(1))
    moreover have "skip_ws (str_join isep (map ?T xs) @ CHR '']'' # rest) = str_join isep (map ?T xs) @ CHR '']'' # rest"
      "take 1 (str_join isep (map ?T xs) @ CHR '']'' # rest) \<noteq> '']''"
      using x by (simp_all add: str_join_Cons skip_ws_simps)
    ultimately show ?thesis by (simp add: n)
  qed
next
  case (PV_Dict kvs)
  let ?T = "dumps_text fr isep ksep"
  let ?M = "\<lambda>kv. json_string (fst kv) @ ksep @ ?T (snd kv)"
  obtain m where n: "n = Suc m" using PV_Dict.prems(2) by (cases n) auto
  show ?case
  proof (cases "kvs = []")
    case True
    then show ?thesis by (simp add: n skip_ws_simps)
  next
    case False
    have wire: "wire_value (snd kv)" if "kv \<in> set kvs" for kv using PV_Dict.prems(1) that by (simp add: list_all_iff)
    have "scan_members m (str_join isep (map ?M kvs) @ CHR ''}'' # rest) = Some (kvs, rest)"
    proof (rule scan_members_join[OF sep False])
      show "length (str_join isep (map ?M kvs)) < m" using PV_Dict.prems(2) by (simp add: n)
      show "\<exists>c t. ?T (snd kv) = c # t \<and> \<not> is_ws c" if "kv \<in> set kvs" for kv using dumps_first[OF wire[OF that]] by metis
      show "scan_value k (?T (snd kv) @ u) = Some (snd kv, u)"
        if "kv \<in> set kvs" "length (?T (snd kv)) \<le> k" "value_end u" for kv k u
        by (rule PV_Dict.IH[OF that(1) _ wire[OF that(1)] that(2,3)]) (simp add: snds.simps)
    qed
    moreover obtain kv rest' where "kvs = kv # rest'" using False by (cases kvs) auto
    moreover from this have "skip_ws (str_join isep (map ?M kvs) @ CHR ''}'' # rest) = str_join isep (map ?M kvs) @ CHR ''}'' # rest"
      "take 1 (str_join isep (map ?M kvs) @ CHR ''}'' # rest) \<noteq> ''}''"
      by (simp_all add: str_join_Cons json_string_def skip_ws_simps)
    ultimately show ?thesis using PV_Dict.prems(1) by (simp add: n dict_of_distinct)
  qed
next
  case PV_None
  then show ?case by (cases n) auto
next
  case (PV_Bool b)
  then show ?case by (cases n; cases b) auto
qed simp

text \<open>
  Reading back what was written gives the value, whatever white space the separators have.
\<close>

theorem json_round_trip:
  assumes "wire_value v" and "separators isep ksep"
  shows "json_loads (dumps_text fr isep ksep v) = Inr v"
proof -
  obtain c t where c: "dumps_text fr isep ksep v = c # t" "\<not> is_ws c" using dumps_first[OF assms(1)] by metis
  have "scan_value (Suc (length (dumps_text fr isep ksep v))) (dumps_text fr isep ksep v @ []) = Some (v, [])"
    by (rule scan_dumps[OF assms(2,1)]) (simp_all add: value_end_def)
  moreover have "skip_ws (dumps_text fr isep ksep v) = dumps_text fr isep ksep v" using c by (simp add: skip_ws_simps)
  ultimately show ?thesis unfolding json_loads_def by (simp add: skip_ws_def del: scan_value.simps)
qed

section \<open>The canonical text of a request\<close>

text \<open>The untyped value of a payload, with the keys of every object sorted.\<close>

fun json_value :: "json \<Rightarrow> pyval" where
  "json_value J_Null = PV_None"
| "json_value (J_Bool b) = PV_Bool b"
| "json_value (J_Int i) = PV_Int i"
| "json_value (J_Str s) = PV_Str s"
| "json_value (J_Arr xs) = PV_List (map json_value xs)"
| "json_value (J_Obj kvs) = PV_Dict (sort_key fst (map (\<lambda>kv. (fst kv, json_value (snd kv))) kvs))"

lemma sort_key_map: "(\<And>x. g (h x) = f x) \<Longrightarrow> map h (sort_key f xs) = sort_key g (map h xs)"
proof (induction xs)
  case (Cons x xs)
  have "map h (insort_key f y ys) = insort_key g (h y) (map h ys)" for y ys
    by (induction ys) (simp_all add: Cons.prems)
  then show ?case using Cons by simp
qed simp

lemma json_dumps_text: "json_dumps j = dumps_text fr '','' '':'' (json_value j)"
proof (induction j)
  case (J_Arr xs)
  then have "map json_dumps xs = map (dumps_text fr '','' '':'') (map json_value xs)" by simp
  then show ?case unfolding json_dumps.simps json_value.simps dumps_text.simps by (rule arg_cong)
next
  case (J_Obj kvs)
  let ?T = "dumps_text fr '','' '':''"
  have "map (\<lambda>kv. (fst kv, json_dumps (snd kv))) kvs =
      map (\<lambda>kv. (fst kv, ?T (snd kv))) (map (\<lambda>kv. (fst kv, json_value (snd kv))) kvs)"
    using J_Obj by (auto simp: snds.simps)
  then have "sort_key fst (map (\<lambda>kv. (fst kv, json_dumps (snd kv))) kvs) =
      map (\<lambda>kv. (fst kv, ?T (snd kv))) (sort_key fst (map (\<lambda>kv. (fst kv, json_value (snd kv))) kvs))"
    by (simp only: sort_key_map[where f = fst and g = fst and h = "\<lambda>kv. (fst kv, ?T (snd kv))"] fst_conv)
  then show ?case by (simp add: comp_def)
qed simp_all

fun once_keyed :: "json \<Rightarrow> bool" where
  "once_keyed (J_Arr xs) = list_all once_keyed xs"
| "once_keyed (J_Obj kvs) = (distinct (map fst kvs) \<and> list_all (\<lambda>kv. once_keyed (snd kv)) kvs)"
| "once_keyed _ = True"

lemma distinct_sort_fst: "distinct (map fst kvs) \<Longrightarrow> distinct (map fst (sort_key fst kvs))"
  by (simp add: distinct_map)

lemma wire_json_value: "once_keyed j \<Longrightarrow> wire_value (json_value j)"
proof (induction j)
  case (J_Obj kvs)
  have "distinct (map fst (map (\<lambda>kv. (fst kv, json_value (snd kv))) kvs))" using J_Obj.prems by (simp add: comp_def)
  then show ?case using J_Obj by (auto simp: distinct_sort_fst list_all_iff snds.simps)
qed (auto simp: list_all_iff)

lemma json_dumps_inj:
  assumes "once_keyed i" and "once_keyed j" and "json_dumps i = json_dumps j"
  shows "json_value i = json_value j"
proof -
  have sep: "separators '','' '':''" by (simp add: separators_def)
  have "Inr (json_value i) = json_loads (json_dumps i)" "Inr (json_value j) = json_loads (json_dumps j)"
    unfolding json_dumps_text[where fr = "\<lambda>q. []"]
    by (simp_all add: json_round_trip[OF wire_json_value[OF assms(1)] sep] json_round_trip[OF wire_json_value[OF assms(2)] sep])
  then show ?thesis using assms(3) by (metis sum.inject(2))
qed

lemma json_object_lookup:
  assumes "json_value (J_Obj A) = json_value (J_Obj B)" and "distinct (map fst A)" and "distinct (map fst B)"
  shows "map_option json_value (map_of A k) = map_option json_value (map_of B k)"
proof -
  let ?v = "\<lambda>kvs. map (\<lambda>kv. (fst kv, json_value (snd kv))) kvs"
  have "set (sort_key fst (?v A)) = set (sort_key fst (?v B))" using assms(1) by simp
  then have "set (?v A) = set (?v B)" by simp
  moreover have "distinct (map fst (?v A))" "distinct (map fst (?v B))" using assms(2,3) by (simp_all add: comp_def)
  ultimately have "map_of (?v A) k = map_of (?v B) k"
    using map_of_inject_set[of "?v A" "?v B"] by (simp del: set_map)
  moreover have "map_of (?v kvs) k = map_option json_value (map_of kvs k)" for kvs by (induction kvs) auto
  ultimately show ?thesis by simp
qed

text \<open>
  Two requests with the same content: application, messages and requirements, the cost limit as the
  decimal it was written as.  Conversation, idempotency key and metadata do not count.
\<close>

definition same_content :: "inference_request \<Rightarrow> inference_request \<Rightarrow> bool" where
  "same_content r q \<longleftrightarrow>
     ir_application_id r = ir_application_id q \<and> ir_messages r = ir_messages q \<and>
     (ir_requirements r)\<lparr>req_maximum_estimated_cost_usd := None\<rparr> =
       (ir_requirements q)\<lparr>req_maximum_estimated_cost_usd := None\<rparr> \<and>
     map_option decimal_str (req_maximum_estimated_cost_usd (ir_requirements r)) =
       map_option decimal_str (req_maximum_estimated_cost_usd (ir_requirements q))"

lemma value_names_inj:
  "role_value a = role_value b \<longleftrightarrow> a = b" "quality_tier_value t = quality_tier_value u \<longleftrightarrow> t = u"
  "latency_preference_value l = latency_preference_value m \<longleftrightarrow> l = m"
  subgoal by (cases a; cases b) simp_all
  subgoal by (cases t; cases u) simp_all
  subgoal by (cases l; cases m) simp_all
  done

lemma once_opt_json: "(\<And>a. once_keyed (f a)) \<Longrightarrow> once_keyed (opt_json f x)"
  by (cases x) (simp_all add: opt_json_def)

lemma opt_json_inj:
  assumes "json_value (opt_json f x) = json_value (opt_json f y)"
    and "\<And>a b. json_value (f a) = json_value (f b) \<longleftrightarrow> g a = g b" and "\<And>a. json_value (f a) \<noteq> PV_None"
  shows "map_option g x = map_option g y"
  using assms by (cases x; cases y) (simp_all add: opt_json_def, metis+)

lemma requirements_json_inj:
  assumes "json_value (requirements_json a) = json_value (requirements_json b)"
  shows "a\<lparr>req_maximum_estimated_cost_usd := None\<rparr> = b\<lparr>req_maximum_estimated_cost_usd := None\<rparr> \<and>
    map_option decimal_str (req_maximum_estimated_cost_usd a) = map_option decimal_str (req_maximum_estimated_cost_usd b)"
proof -
  have look: "map_option json_value (map_of kvs k) = map_option json_value (map_of kvs' k)"
    if "requirements_json a = J_Obj kvs" "requirements_json b = J_Obj kvs'" for k kvs kvs'
    using assms that by (intro json_object_lookup) (auto simp: requirements_json_def)
  note get = look[OF requirements_json_def requirements_json_def]
  have "req_capability a = req_capability b" using get[of "''capability''"] by simp
  moreover have "req_requires_tool_use a = req_requires_tool_use b" using get[of "''requires_tool_use''"] by simp
  moreover have "req_requires_structured_output a = req_requires_structured_output b"
    using get[of "''requires_structured_output''"] by simp
  moreover have "map_option id (req_quality_tier a) = map_option id (req_quality_tier b)"
    using get[of "''quality_tier''"]
    by (intro opt_json_inj[where f = "\<lambda>t. J_Str (quality_tier_value t)"]) (simp_all add: value_names_inj)
  moreover have "map_option id (req_latency_preference a) = map_option id (req_latency_preference b)"
    using get[of "''latency_preference''"]
    by (intro opt_json_inj[where f = "\<lambda>t. J_Str (latency_preference_value t)"]) (simp_all add: value_names_inj)
  moreover have "map_option id (req_maximum_output_tokens a) = map_option id (req_maximum_output_tokens b)"
    using get[of "''maximum_output_tokens''"] by (intro opt_json_inj[where f = J_Int]) simp_all
  moreover have "map_option decimal_str (req_maximum_estimated_cost_usd a) =
      map_option decimal_str (req_maximum_estimated_cost_usd b)"
    using get[of "''maximum_estimated_cost_usd''"] by (intro opt_json_inj[where f = "\<lambda>d. J_Str (decimal_str d)"]) simp_all
  ultimately show ?thesis by (cases a; cases b) (simp add: option.map_id)
qed

lemma messages_json_inj: "map json_value (map message_json ms) = map json_value (map message_json ns) \<Longrightarrow> ms = ns"
proof (induction ms arbitrary: ns)
  case (Cons m ms)
  then obtain n ns' where n: "ns = n # ns'" "json_value (message_json m) = json_value (message_json n)"
    "map json_value (map message_json ms) = map json_value (map message_json ns')" by (cases ns) auto
  have "map_option json_value (map_of [(''role'', J_Str (role_value (msg_role m))), (''content'', J_Str (msg_content m))] k) =
      map_option json_value (map_of [(''role'', J_Str (role_value (msg_role n))), (''content'', J_Str (msg_content n))] k)" for k
    using n(2) by (intro json_object_lookup) (simp_all add: message_json_def)
  from this[of "''role''"] this[of "''content''"] have "m = n"
    by (auto simp: value_names_inj intro!: message.equality)
  then show ?case using Cons.IH[OF n(3)] n(1) by simp
qed (metis list.map_disc_iff)

lemma once_requirements: "once_keyed (requirements_json a)"
  unfolding requirements_json_def by (simp add: once_opt_json)

lemma once_messages: "list_all once_keyed (map message_json ms)"
  by (induction ms) (simp_all add: message_json_def)

lemma once_payload: "once_keyed (request_payload x)"
  unfolding request_payload_def by (simp add: once_requirements once_messages )

lemma payload_inj:
  assumes "json_value (request_payload r) = json_value (request_payload q)"
  shows "ir_application_id r = ir_application_id q" and "ir_messages r = ir_messages q"
    and "json_value (requirements_json (ir_requirements r)) = json_value (requirements_json (ir_requirements q))"
proof -
  let ?kvs = "\<lambda>x. [(''application_id'', J_Str (ir_application_id x)),
      (''messages'', J_Arr (map message_json (ir_messages x))), (''requirements'', requirements_json (ir_requirements x))]"
  have get: "map_option json_value (map_of (?kvs r) k) = map_option json_value (map_of (?kvs q) k)" for k
    by (rule json_object_lookup[OF assms[unfolded request_payload_def]]) simp_all
  show "ir_application_id r = ir_application_id q" using get[of "''application_id''"] by simp
  show "ir_messages r = ir_messages q"
    by (rule messages_json_inj) (use get[of "''messages''"] in simp)
  show "json_value (requirements_json (ir_requirements r)) = json_value (requirements_json (ir_requirements q))"
    using get[of "''requirements''"] by simp
qed

lemma requirements_json_cong:
  assumes "a\<lparr>req_maximum_estimated_cost_usd := None\<rparr> = b\<lparr>req_maximum_estimated_cost_usd := None\<rparr>"
    and "map_option decimal_str (req_maximum_estimated_cost_usd a) =
      map_option decimal_str (req_maximum_estimated_cost_usd b)"
  shows "requirements_json a = requirements_json b"
proof -
  have shown: "opt_json (\<lambda>d. J_Str (decimal_str d)) x = opt_json J_Str (map_option decimal_str x)" for x
    by (cases x) (simp_all add: opt_json_def)
  show ?thesis using assms unfolding requirements_json_def shown by (cases a; cases b) simp
qed

text \<open>
  C27. The text that is hashed for idempotency identifies the content of a request: two requests
  have the same canonical text exactly when they agree in application, messages and requirements,
  with cost limits compared as the decimals they were written as.  So only a collision of SHA-256 can make the
  stores take a different request for a repeated one.
\<close>

theorem canonical_text_identifies:
  "canonical_text r = canonical_text q \<longleftrightarrow> same_content r q"
proof
  assume "canonical_text r = canonical_text q"
  then have "json_value (request_payload r) = json_value (request_payload q)"
    unfolding canonical_text_def by (rule json_dumps_inj[OF once_payload once_payload])
  note agree = payload_inj[OF this]
  show "same_content r q"
    unfolding same_content_def using agree(1,2) requirements_json_inj[OF agree(3)] by blast
next
  assume same: "same_content r q"
  then have "requirements_json (ir_requirements r) = requirements_json (ir_requirements q)"
    unfolding same_content_def by (blast intro: requirements_json_cong)
  then show "canonical_text r = canonical_text q"
    using same unfolding canonical_text_def request_payload_def same_content_def by metis
qed

end
