(* ===== verification/Logging.thy ===== *)
theory Logging
  imports Json_Text Api_Handler
begin

text \<open>
  \<open>src/shared/structured_logging.py\<close> and \<open>src/shared/tracing.py\<close>.  A log record is what the
  logging library hands to the formatter: the fixed attributes the formatter reads and the
  attributes of \<open>record.__dict__\<close>, among them everything a call passed as \<open>extra\<close>; the rendering of
  the message and of the exception belongs to the library and is given.  A Python \<open>frozenset\<close> is
  iterated in an order of its own, which is a parameter.
\<close>

section \<open>The formatter\<close>

definition allowed_log_keys :: "str list" where
  "allowed_log_keys =
     [''request_id'', ''decision_id'', ''application_id'', ''capability'', ''model_alias'', ''provider'', ''error_code'',
      ''latency_ms'', ''status_code'', ''http_method'', ''resource'', ''caller_principal_arn'']"

record log_record =
  lgr_created :: rat
  lgr_levelname :: str
  lgr_name :: str
  lgr_message :: str
  lgr_dict :: "(str \<times> pyval) list"
  lgr_exc_text :: "str option"

text \<open>\<open>datetime.fromtimestamp(t, tz=UTC)\<close>: the nearest microsecond, ties to even.\<close>

definition from_timestamp :: "rat \<Rightarrow> datetime" where
  "from_timestamp t = round_even (t * 1000000)"

definition log_payload :: "str list \<Rightarrow> log_record \<Rightarrow> (str \<times> pyval) list" where
  "log_payload order rec =
     [(''timestamp'', PV_Str (isoformat (from_timestamp (lgr_created rec)))), (''level'', PV_Str (lgr_levelname rec)),
      (''logger'', PV_Str (lgr_name rec)), (''message'', PV_Str (lgr_message rec))]
     @ concat (map (\<lambda>k. case map_of (lgr_dict rec) k of None \<Rightarrow> [] | Some v \<Rightarrow> [(k, v)]) order)
     @ (case lgr_exc_text rec of None \<Rightarrow> [] | Some t \<Rightarrow> [(''exception'', PV_Str t)])"

definition format_record :: "(rat \<Rightarrow> str) \<Rightarrow> str list \<Rightarrow> log_record \<Rightarrow> str result" where
  "format_record fr order rec =
     (let payload = PV_Dict (log_payload order rec)
      in if json_safe payload then Inr (dumps_text fr '', '' '': '' payload) else Inl Type_Error)"

section \<open>Configuration\<close>

datatype log_handler = Json_Stream_Handler | Other_Handler nat

record root_logger =
  rlg_level :: str
  rlg_handlers :: "log_handler list"

definition configure_logging :: "(str \<rightharpoonup> str) \<Rightarrow> str option \<Rightarrow> root_logger \<Rightarrow> root_logger" where
  "configure_logging env level logger =
     logger\<lparr>rlg_level := (case level of Some (c # cs) \<Rightarrow> c # cs
                      | _ \<Rightarrow> (case env ''LOG_LEVEL'' of None \<Rightarrow> ''INFO'' | Some l \<Rightarrow> l)),
          rlg_handlers := [Json_Stream_Handler]\<rparr>"

text \<open>
  The provider with its service name and the endpoints of its span processors; installing it
  globally is the library's, and takes effect for the first one only.
\<close>

record tracer_provider =
  trp_service_name :: str
  trp_endpoints :: "str list"

definition configure_tracing :: "(str \<rightharpoonup> str) \<Rightarrow> str option \<Rightarrow> tracer_provider option \<Rightarrow> tracer_provider \<times> tracer_provider option" where
  "configure_tracing env otlp_endpoint installed =
     (let endpoint = (case otlp_endpoint of Some e \<Rightarrow> Some e | None \<Rightarrow> env ''OTEL_EXPORTER_OTLP_ENDPOINT'');
          provider = \<lparr>trp_service_name = ''aws-model-router'',
                      trp_endpoints = (case endpoint of Some (c # cs) \<Rightarrow> [c # cs] | _ \<Rightarrow> [])\<rparr>
      in (provider, case installed of None \<Rightarrow> Some provider | Some p \<Rightarrow> Some p))"

section \<open>What the handler logs\<close>

text \<open>The \<open>extra\<close> of the two records \<open>dispatch\<close> writes itself.\<close>

definition dispatch_log_extra :: "str \<Rightarrow> pyval \<Rightarrow> pyval \<Rightarrow> str \<Rightarrow> (str \<times> pyval) list" where
  "dispatch_log_extra request_id m resource arn =
     [(''request_id'', PV_Str request_id), (''http_method'', m), (''resource'', resource),
      (''caller_principal_arn'', PV_Str arn)]"

definition completed_log_extra :: "str \<Rightarrow> pyval \<Rightarrow> pyval \<Rightarrow> str \<Rightarrow> http_response \<Rightarrow> (str \<times> pyval) list" where
  "completed_log_extra request_id m resource arn response =
     dispatch_log_extra request_id m resource arn @ [(''status_code'', PV_Int (rsp_status_code response))]"

text \<open>The \<open>extra\<close> of a failed invocation or evaluation, and of a rejected body.\<close>

definition failure_log_extra :: "str \<Rightarrow> inference_request \<Rightarrow> str \<Rightarrow> int \<Rightarrow> (str \<times> pyval) list" where
  "failure_log_extra request_id request error_code status =
     [(''request_id'', PV_Str request_id), (''application_id'', PV_Str (ir_application_id request)),
      (''capability'', PV_Str (req_capability (ir_requirements request))), (''error_code'', PV_Str error_code),
      (''status_code'', PV_Int status)]"

definition rejected_log_extra :: "str \<Rightarrow> (str \<times> pyval) list" where
  "rejected_log_extra request_id = [(''request_id'', PV_Str request_id), (''error_code'', PV_Str ''INVALID_REQUEST'')]"

section \<open>The allowed keys are what is written\<close>

text \<open>What the line documents: the four fixed fields, the allowed attributes the record has, the exception.\<close>

definition documented_field :: "log_record \<Rightarrow> str \<Rightarrow> pyval option" where
  "documented_field rec k =
     (if k = ''timestamp'' then Some (PV_Str (isoformat (from_timestamp (lgr_created rec))))
      else if k = ''level'' then Some (PV_Str (lgr_levelname rec))
      else if k = ''logger'' then Some (PV_Str (lgr_name rec))
      else if k = ''message'' then Some (PV_Str (lgr_message rec))
      else if k = ''exception'' then map_option PV_Str (lgr_exc_text rec)
      else if k \<in> set allowed_log_keys then map_of (lgr_dict rec) k
      else None)"

definition picked :: "(str \<times> pyval) list \<Rightarrow> str list \<Rightarrow> (str \<times> pyval) list" where
  "picked d order = concat (map (\<lambda>k. case map_of d k of None \<Rightarrow> [] | Some v \<Rightarrow> [(k, v)]) order)"

lemma picked_keys: "set (map fst (picked d order)) \<subseteq> set order"
  by (auto simp: picked_def split: option.splits)

lemma picked_distinct: "distinct order \<Longrightarrow> distinct (map fst (picked d order))"
proof (induction order)
  case (Cons k order)
  then show ?case using picked_keys[of d order] by (auto simp: picked_def split: option.split)
qed (simp add: picked_def)

lemma map_of_picked: "map_of (picked d order) k = (if k \<in> set order then map_of d k else None)"
  by (induction order) (auto simp: picked_def map_add_def split: option.splits)

lemma fixed_not_allowed:
  "''timestamp'' \<notin> set allowed_log_keys" "''level'' \<notin> set allowed_log_keys" "''logger'' \<notin> set allowed_log_keys"
  "''message'' \<notin> set allowed_log_keys" "''exception'' \<notin> set allowed_log_keys"
  by (simp_all add: allowed_log_keys_def)

lemma log_payload_picked:
  "log_payload order rec =
     [(''timestamp'', PV_Str (isoformat (from_timestamp (lgr_created rec)))), (''level'', PV_Str (lgr_levelname rec)),
      (''logger'', PV_Str (lgr_name rec)), (''message'', PV_Str (lgr_message rec))]
     @ picked (lgr_dict rec) order
     @ (case lgr_exc_text rec of None \<Rightarrow> [] | Some t \<Rightarrow> [(''exception'', PV_Str t)])"
  by (simp add: log_payload_def picked_def)

lemma log_payload_distinct:
  assumes "distinct order" and "set order = set allowed_log_keys"
  shows "distinct (map fst (log_payload order rec))"
  using picked_distinct[OF assms(1), of "lgr_dict rec"] picked_keys[of "lgr_dict rec" order] fixed_not_allowed
  unfolding log_payload_picked assms(2)
  by (auto split: option.split)

lemma log_payload_documented:
  assumes "set order = set allowed_log_keys"
  shows "map_of (log_payload order rec) k = documented_field rec k"
  using fixed_not_allowed
  by (auto simp: log_payload_picked map_of_picked documented_field_def assms map_add_def split: option.split)

text \<open>
  C39. A log line carries the documented fields and nothing else: whatever a call passes as \<open>extra\<close>
  and whatever else the library put on the record, as long as the allowed attributes are JSON values
  without floats or decimals the formatter returns, and reading its line back gives an object with
  exactly the four fixed fields, the allowed attributes that the record has, with their values, and
  the exception where there is one.
\<close>

theorem log_line_documented:
  assumes "distinct order" and "set order = set allowed_log_keys"
    and "\<And>k v. k \<in> set allowed_log_keys \<Longrightarrow> map_of (lgr_dict rec) k = Some v \<Longrightarrow> json_safe v \<and> wire_value v"
  shows "\<exists>line payload. format_record fr order rec = Inr line \<and> json_loads line = Inr (PV_Dict payload) \<and>
    distinct (map fst payload) \<and> (\<forall>k. map_of payload k = documented_field rec k)"
proof -
  let ?p = "log_payload order rec"
  note dist = log_payload_distinct[OF assms(1,2), of rec] and doc = log_payload_documented[OF assms(2), of rec]
  have ok: "json_safe v \<and> wire_value v" if "(k, v) \<in> set ?p" for k v
  proof -
    have "documented_field rec k = Some v" using that dist doc by (metis map_of_is_SomeI)
    then show ?thesis using assms(3)[of k v] by (auto simp: documented_field_def split: if_splits)
  qed
  then have "json_safe (PV_Dict ?p)" "wire_value (PV_Dict ?p)"
    using dist by (auto simp: list_all_iff)
  then have "format_record fr order rec = Inr (dumps_text fr '', '' '': '' (PV_Dict ?p))"
    and "json_loads (dumps_text fr '', '' '': '' (PV_Dict ?p)) = Inr (PV_Dict ?p)"
    using json_round_trip[of "PV_Dict ?p" "'', ''" "'': ''" fr]
    by (simp_all add: format_record_def separators_def is_ws_def)
  then show ?thesis using dist doc by blast
qed

text \<open>The line of a completed request, as \<open>dispatch\<close> logs it.\<close>

definition sample_log_record :: log_record where
  "sample_log_record =
     \<lparr>lgr_created = 3 / 2, lgr_levelname = ''INFO'', lgr_name = ''root'', lgr_message = ''Request completed'',
      lgr_dict = (''prompt'', PV_Str ''secret'') #
        completed_log_extra ''req_1'' (PV_Str ''GET'') (PV_Str ''/health'') ''none'' handle_health,
      lgr_exc_text = None\<rparr>"

theorem log_line_documented_witness:
  "\<exists>line payload. format_record (\<lambda>q. []) allowed_log_keys sample_log_record = Inr line \<and>
     json_loads line = Inr (PV_Dict payload) \<and> map_of payload ''status_code'' = Some (PV_Int 200) \<and>
     map_of payload ''prompt'' = None"
proof -
  have rec: "map_of (lgr_dict sample_log_record) k = Some v \<Longrightarrow> json_safe v \<and> wire_value v" for k v
    by (auto simp: sample_log_record_def completed_log_extra_def dispatch_log_extra_def split: if_splits)
  have "distinct allowed_log_keys" by (simp add: allowed_log_keys_def)
  from log_line_documented[OF this refl, of sample_log_record "\<lambda>q. []"] rec
  obtain line payload where l: "format_record (\<lambda>q. []) allowed_log_keys sample_log_record = Inr line"
    "json_loads line = Inr (PV_Dict payload)" "\<forall>k. map_of payload k = documented_field sample_log_record k" by blast
  have "documented_field sample_log_record ''status_code'' = Some (PV_Int 200)" "documented_field sample_log_record ''prompt'' = None"
    by (simp_all add: documented_field_def allowed_log_keys_def sample_log_record_def completed_log_extra_def
        dispatch_log_extra_def handle_health_def respond_def)
  then show ?thesis using l by auto
qed

text \<open>Every key the handler logs is an allowed one, so none of its fields is dropped.\<close>

theorem handler_log_keys_allowed:
  "set (map fst (completed_log_extra i m r arn response)) \<subseteq> set allowed_log_keys"
  "set (map fst (failure_log_extra i request code status)) \<subseteq> set allowed_log_keys"
  "set (map fst (rejected_log_extra i)) \<subseteq> set allowed_log_keys"
  by (simp_all add: completed_log_extra_def dispatch_log_extra_def failure_log_extra_def rejected_log_extra_def allowed_log_keys_def)

text \<open>Configuring twice is configuring once, and no handler is stacked.\<close>

theorem configure_logging_idempotent:
  "configure_logging env level (configure_logging env level logger) = configure_logging env level logger \<and>
   rlg_handlers (configure_logging env level logger) = [Json_Stream_Handler]"
  by (simp add: configure_logging_def)

text \<open>Without an endpoint nothing is exported, and only the first provider is installed.\<close>

theorem configure_tracing_installs_once:
  "snd (configure_tracing env e (snd (configure_tracing env' e' None))) = Some (fst (configure_tracing env' e' None)) \<and>
   (trp_endpoints (fst (configure_tracing env e p)) = [] \<longleftrightarrow>
      (case e of None \<Rightarrow> env ''OTEL_EXPORTER_OTLP_ENDPOINT'' | Some x \<Rightarrow> Some x) \<in> {None, Some []})"
  by (auto simp: configure_tracing_def Let_def split: option.split list.split)

end
