(* ===== verification/Typed_Results.thy ===== *)
theory Typed_Results
  imports Invocation_Results
begin

text \<open>
  The classes of \<open>src/domain\<close> promise more than their field types: what the fields of a candidate,
  a decision and a result have to do with each other.  Every result an invocation returns keeps
  these promises, so the serializers and stores that take the fields apart can rely on them.
\<close>

definition strictly_ordered :: "routing_reason_code list \<Rightarrow> bool" where
  "strictly_ordered codes \<longleftrightarrow> sorted_wrt (\<lambda>c d. canonical_order c < canonical_order d) codes"

definition typed_candidate :: "route_candidate \<Rightarrow> bool" where
  "typed_candidate c \<longleftrightarrow>
     strictly_ordered (rc_reason_codes c) \<and>
     0 \<le> us_input_tokens (rc_estimated_usage c) \<and> 0 \<le> us_output_tokens (rc_estimated_usage c)"

definition typed_decision :: "routing_decision \<Rightarrow> bool" where
  "typed_decision d \<longleftrightarrow>
     strictly_ordered (dec_reason_codes d) \<and> list_all typed_candidate (dec_considered_candidates d) \<and>
     (case dec_selected_model_alias d of
        None \<Rightarrow> dec_provider d = None \<and> dec_estimated_usage d = None \<and> dec_estimated_cost d = None
      | Some a \<Rightarrow> a \<in> set (eligible_aliases d) \<and>
          (\<exists>c\<in>set (dec_considered_candidates d). rc_model_alias c = a \<and> dec_provider d = Some (rc_provider c) \<and>
             dec_estimated_usage d = Some (rc_estimated_usage c) \<and> dec_estimated_cost d = Some (rc_estimated_cost c)))"

definition typed_result :: "inference_result \<Rightarrow> bool" where
  "typed_result r \<longleftrightarrow>
     typed_decision (res_decision r) \<and> list_all (\<lambda>a. 0 \<le> at_latency_ms a) (res_invocation_attempts r) \<and>
     distinct (map at_model_alias (res_invocation_attempts r)) \<and>
     set (map at_model_alias (res_invocation_attempts r)) \<subseteq> set (eligible_aliases (res_decision r))"

lemma strictly_ordered_sorted [simp]: "strictly_ordered (sort_reason_codes cs)"
proof -
  have "sorted_wrt (<) (sort_reason_codes cs)" by (simp add: strict_sorted_iff)
  then show ?thesis
    unfolding strictly_ordered_def by (rule sorted_wrt_mono_rel[rotated]) (simp add: less_routing_reason_code_def)
qed

lemma strictly_ordered_single [simp]: "strictly_ordered [c]"
  by (simp add: strictly_ordered_def)

lemma evaluate_candidate_typed:
  assumes "evaluate_candidate m eff p (default_token_estimator k) ce msgs h = Inr c"
  shows "typed_candidate c"
proof -
  have "default_token_estimate k msgs (eff_maximum_output_tokens eff) = Inr (rc_estimated_usage c)"
    using evaluate_candidate_Inr(3)[OF assms] by (simp add: default_token_estimator_def)
  then have "0 \<le> us_input_tokens (rc_estimated_usage c) \<and> 0 \<le> us_output_tokens (rc_estimated_usage c)"
    by (cases "rc_estimated_usage c") (auto simp: default_token_estimate_def Let_def split: if_splits)
  moreover have "strictly_ordered (rc_reason_codes c)"
    using assms by (auto simp: evaluate_candidate_def Let_def)
  ultimately show ?thesis by (simp add: typed_candidate_def)
qed

lemma evaluate_route_typed:
  assumes "svc_token_estimator svc = default_token_estimator k" and run: "evaluate_route svc request s = (Inr d, s')"
  shows "typed_decision d"
  using run
proof (cases rule: evaluate_route_cases)
  case (unavailable p s1)
  then show ?thesis
    using build_decision_Inr[OF unavailable(3)] by (simp add: typed_decision_def no_selection_def)
next
  case (routed p s1 cs s2 sel)
  note dec = build_decision_Inr[OF routed(6)]
  have "list_all typed_candidate cs"
    using build_route_candidates_elem[OF routed(4)] evaluate_candidate_typed[of _ _ _ k] assms(1)
    by (auto simp: list_all_iff dest!: list_all2_right_elem)
  moreover have "strictly_ordered (selection_codes sel)"
    by (simp add: selection_codes_def split: option.split)
  moreover have "c \<in> set cs \<and> rc_eligible c" if "sel_selected sel = Some c" for c
    using routed_selected[OF routed(5) that] .
  ultimately show ?thesis
    using dec by (cases "sel_selected sel") (auto simp: typed_decision_def eligible_aliases_def)
qed

section \<open>The decision after the attempts\<close>

lemma attempts_follow_latency: "attempts_follow chain ats a \<Longrightarrow> list_all (\<lambda>t. 0 \<le> at_latency_ms t) ats"
  by (induction chain ats a rule: attempts_follow.induct) (auto split: invocation_attempt_status.splits)

lemma aggregate_decision_nothing:
  assumes "aggregate_decision d None extra = Inr f"
  shows "dec_provider f = None \<and> dec_estimated_usage f = None \<and> dec_estimated_cost f = None"
  using assms by (auto simp: aggregate_decision_def Let_def)

lemma typed_decision_wf: "typed_decision d \<Longrightarrow> decision_wf d"
  by (auto simp: typed_decision_def decision_wf_def)

lemma aggregate_decision_typed:
  assumes "typed_decision d" and agg: "aggregate_decision d succeeded extra = Inr f"
    and sub: "\<And>a. succeeded = Some a \<Longrightarrow> a \<in> set (eligible_aliases d)"
  shows "typed_decision f" and "eligible_aliases f = eligible_aliases d"
proof -
  note facts = aggregate_decision_Inr[OF agg]
  show eq: "eligible_aliases f = eligible_aliases d" using facts(4) by (simp add: eligible_aliases_def)
  have "strictly_ordered (dec_reason_codes f)" "list_all typed_candidate (dec_considered_candidates f)"
    using facts(3,4) assms(1) by (simp_all add: typed_decision_def)
  then show "typed_decision f"
    using facts(1,4) eq sub aggregate_decision_nothing[of d extra f] aggregate_decision_candidate[of d _ extra f] agg
    by (cases succeeded) (simp_all add: typed_decision_def)
qed

text \<open>
  C18. Every result an invocation returns keeps the promises of its classes: reason codes in strict
  canonical order on the decision and on each candidate, token estimates that are not negative, a
  selected alias that names an eligible candidate together with that candidate's provider, usage
  and cost (and none of them when nothing was selected), attempts with a latency that is not
  negative, each at another eligible model.
\<close>

theorem results_well_typed:
  assumes est: "svc_token_estimator (orc_route_evaluation_service orc) = default_token_estimator k"
    and run: "invoke_uncached orc request s = (Inr r, s')"
  shows "typed_result r"
  using run
proof (cases rule: invoke_uncached_cases)
  case (no_chain d s1 p s2)
  then show ?thesis using evaluate_route_typed[OF est no_chain(1)] by (simp add: typed_result_def)
next
  case (chain d s1 p s2 prg s3 f)
  let ?chain = "build_candidate_chain d (pol_fallback_policy p)"
  have d: "typed_decision d" by (rule evaluate_route_typed[OF est chain(1)])
  have follow: "attempts_follow ?chain (prg_attempts prg) (prg_succeeded_alias prg)"
    using attempt_chain_follows[OF chain(4)] by auto
  have sub: "set ?chain \<subseteq> set (eligible_aliases d)"
    by (rule chain_subset_eligible[OF typed_decision_wf[OF d]])
  note final = aggregate_decision_typed[OF d chain(5)]
  have f: "typed_decision f" "eligible_aliases f = eligible_aliases d"
    using attempts_follow_succeeded follow sub by (auto intro!: final)
  have "distinct (map at_model_alias (prg_attempts prg))"
    "set (map at_model_alias (prg_attempts prg)) \<subseteq> set (eligible_aliases d)"
    using attempts_follow_prefix[OF follow] chain_distinct[of d "pol_fallback_policy p"] sub
    by (auto simp del: set_map dest: in_set_takeD)
  then show ?thesis
    using f chain(6) attempts_follow_latency[OF follow] by (simp add: typed_result_def)
qed

theorem results_well_typed_witness:
  "\<exists>r s'. invoke_uncached sample_orchestrator (sample_request ''support-assistant'' None) sample_start = (Inr r, s') \<and>
     typed_result r \<and> length (res_invocation_attempts r) = 2"
proof -
  obtain r s' where r: "invoke_uncached sample_orchestrator (sample_request ''support-assistant'' None) sample_start = (Inr r, s')"
    "res_invocation_attempts r = sample_attempts"
    using sample_invoke by blast
  have "svc_token_estimator (orc_route_evaluation_service sample_orchestrator) = default_token_estimator 4"
    by (simp add: sample_service_def)
  from results_well_typed[OF this r(1)] r show ?thesis by (auto simp: sample_attempts_def)
qed

end
