(* ===== verification/Relational.thy ===== *)
theory Relational
  imports Prelude
begin

text \<open>
  Two runs side by side.  \<open>rel_io R Q m n\<close>: from states related by \<open>R\<close>, the operations \<open>m\<close> and \<open>n\<close>
  end in related states, and they raise the same exception or return values related by \<open>Q\<close>.  With
  \<open>R\<close> the equality of what an observer sees this is noninterference; with \<open>R\<close> a projection it is
  the erasure of an effect.  The rules follow the combinators of the monad.
\<close>

named_theorems io_rel "rules that relate two runs"

definition rel_io :: "('s \<Rightarrow> 't \<Rightarrow> bool) \<Rightarrow> ('a \<Rightarrow> 'b \<Rightarrow> bool) \<Rightarrow> ('s, 'e, 'a) io \<Rightarrow> ('t, 'e, 'b) io \<Rightarrow> bool" where
  "rel_io R Q m n \<longleftrightarrow> (\<forall>s t. R s t \<longrightarrow> rel_sum (=) Q (fst (m s)) (fst (n t)) \<and> R (snd (m s)) (snd (n t)))"

text \<open>An operation that an observer cannot use to tell related states apart.\<close>

abbreviation unaffected :: "('s \<Rightarrow> 's \<Rightarrow> bool) \<Rightarrow> ('s, 'e, 'a) io \<Rightarrow> bool" where
  "unaffected R m \<equiv> rel_io R (=) m m"

lemma rel_ioI:
  assumes "\<And>s t. R s t \<Longrightarrow> rel_sum (=) Q (fst (m s)) (fst (n t)) \<and> R (snd (m s)) (snd (n t))"
  shows "rel_io R Q m n"
  using assms by (simp add: rel_io_def)

lemma rel_ioD: "rel_io R Q m n \<Longrightarrow> R s t \<Longrightarrow> rel_sum (=) Q (fst (m s)) (fst (n t)) \<and> R (snd (m s)) (snd (n t))"
  by (simp add: rel_io_def)

lemma rel_ioE:
  assumes "rel_io R Q m n" and "R s t"
  obtains (raised) e s' t' where "m s = (Inl e, s')" "n t = (Inl e, t')" "R s' t'"
    | (returned) x y s' t' where "m s = (Inr x, s')" "n t = (Inr y, t')" "Q x y" "R s' t'"
proof -
  obtain r s' q t' where run: "m s = (r, s')" "n t = (q, t')" by (metis prod.exhaust)
  have sum: "rel_sum (=) Q r q" and states: "R s' t'" using rel_ioD[OF assms] by (simp_all add: run)
  from sum show thesis
  proof cases
    case (1 e f)
    show ?thesis using run states unfolding 1 by (intro raised)
  next
    case (2 x y)
    show ?thesis using run states 2(3) unfolding 2(1,2) by (intro returned)
  qed
qed

lemma rel_io_mono:
  assumes "rel_io R Q m n" and "\<And>x y. Q x y \<Longrightarrow> P x y"
  shows "rel_io R P m n"
proof (rule rel_ioI)
  fix s t
  assume "R s t"
  with assms(1) show "rel_sum (=) P (fst (m s)) (fst (n t)) \<and> R (snd (m s)) (snd (n t))"
    by (cases rule: rel_ioE) (simp_all add: assms(2))
qed

lemma rel_return [io_rel]: "Q x y \<Longrightarrow> rel_io R Q (return_io x) (return_io y)"
  by (simp add: rel_io_def return_io_def)

lemma rel_raise [io_rel]: "rel_io R Q (raise_io e) (raise_io e)"
  by (simp add: rel_io_def raise_io_def)

lemma rel_lift: "rel_sum (=) Q r q \<Longrightarrow> rel_io R Q (lift_r r) (lift_r q)"
  by (simp add: rel_io_def lift_r_def)

lemma rel_lift_same [io_rel]: "rel_io R (=) (lift_r r) (lift_r r)"
  by (rule rel_lift) (simp add: sum.rel_refl)

lemma rel_bind:
  assumes "rel_io R Q m n" and "\<And>x y. Q x y \<Longrightarrow> rel_io R P (f x) (g y)"
  shows "rel_io R P (bind_io m f) (bind_io n g)"
proof (rule rel_ioI)
  fix s t
  assume "R s t"
  with assms(1) show "rel_sum (=) P (fst (bind_io m f s)) (fst (bind_io n g t)) \<and> R (snd (bind_io m f s)) (snd (bind_io n g t))"
    by (cases rule: rel_ioE) (use assms(2) in \<open>auto simp: bind_io_def dest: rel_ioD\<close>)
qed

lemma rel_bind_same [io_rel]:
  assumes "rel_io R (=) m n" and "\<And>x. rel_io R P (f x) (g x)"
  shows "rel_io R P (bind_io m f) (bind_io n g)"
  using assms by (auto intro: rel_bind)

lemma rel_attempt [io_rel]:
  assumes "rel_io R Q m n"
  shows "rel_io R (rel_sum (=) Q) (attempt_io m) (attempt_io n)"
  using assms by (simp add: rel_io_def attempt_io_def split_beta)

lemma rel_map:
  assumes "list_all2 P xs ys" and "\<And>x y. P x y \<Longrightarrow> rel_io R Q (f x) (g y)"
  shows "rel_io R (list_all2 Q) (map_io f xs) (map_io g ys)"
  using assms(1) by induction (auto intro!: rel_return rel_bind[OF assms(2)] elim: rel_bind)

lemma rel_map_same [io_rel]:
  assumes "\<And>x. rel_io R (=) (f x) (g x)"
  shows "rel_io R (=) (map_io f xs) (map_io g xs)"
  by (induction xs) (auto intro!: rel_return rel_bind_same assms)

lemma rel_when_some:
  assumes "rel_option A p q" and "\<And>x y. A x y \<Longrightarrow> rel_io R (=) (f x) (g y)"
  shows "rel_io R (=) (when_some p f) (when_some q g)"
  using assms by (cases p; cases q) (auto simp: when_some_def intro: rel_return)

lemma rel_when_same [io_rel]:
  assumes "\<And>x. p = Some x \<Longrightarrow> rel_io R (=) (f x) (g x)"
  shows "rel_io R (=) (when_some p f) (when_some p g)"
  using assms by (cases p) (auto simp: when_some_def intro: rel_return)

lemma rel_if [io_rel]:
  "(c \<Longrightarrow> rel_io R Q m n) \<Longrightarrow> (\<not> c \<Longrightarrow> rel_io R Q m' n') \<Longrightarrow>
   rel_io R Q (if c then m else m') (if c then n else n')"
  by simp

lemma rel_option_case [io_rel]:
  "(x = None \<Longrightarrow> rel_io R Q m n) \<Longrightarrow> (\<And>y. x = Some y \<Longrightarrow> rel_io R Q (f y) (g y)) \<Longrightarrow>
   rel_io R Q (case x of None \<Rightarrow> m | Some y \<Rightarrow> f y) (case x of None \<Rightarrow> n | Some y \<Rightarrow> g y)"
  by (cases x) simp_all

text \<open>\<open>try\<close> and what follows it.\<close>

lemma rel_attempt_bind:
  assumes "rel_io R Q m n" and "\<And>e. rel_io R P (f (Inl e)) (g (Inl e))"
    and "\<And>x y. Q x y \<Longrightarrow> rel_io R P (f (Inr x)) (g (Inr y))"
  shows "rel_io R P (bind_io (attempt_io m) f) (bind_io (attempt_io n) g)"
  by (rule rel_bind[OF rel_attempt[OF assms(1)]]) (auto elim!: rel_sum.cases intro: assms(2,3))

text \<open>An operation on a part of the state, when the relation speaks of that part and the rest separately.\<close>

lemma rel_on_part:
  assumes "rel_io P Q m n" and "\<And>s t. R s t \<Longrightarrow> P (get s) (get' t)"
    and "\<And>s t x y. R s t \<Longrightarrow> P x y \<Longrightarrow> R (put x s) (put' y t)"
  shows "rel_io R Q (on_part get put m) (on_part get' put' n)"
proof (rule rel_ioI)
  fix s t
  assume R: "R s t"
  from assms(1) assms(2)[OF R]
  show "rel_sum (=) Q (fst (on_part get put m s)) (fst (on_part get' put' n t)) \<and>
      R (snd (on_part get put m s)) (snd (on_part get' put' n t))"
    by (cases rule: rel_ioE) (simp_all add: on_part_def assms(3)[OF R])
qed

lemma rel_part_refl: "rel_io (=) (=) m m"
  by (simp add: rel_io_def sum.rel_refl)

end
