(* ===== verification/Confidentiality.thy ===== *)
theory Confidentiality
  imports Relational Deployed_Service Json_Text
begin

text \<open>
  What the router does with the text of messages: it hands it to the model provider, returns the
  model's text to the caller, and lets it influence nothing else.  Two invocations of requests that
  differ only in text, by a provider whose answers differ only in text, end with the same decision
  and attempts, and whoever observes the audit records, metrics, events, health and configuration
  cannot tell them apart.  (The one exception is the request hash of an idempotency key, so the
  theorem is about requests without one.)
\<close>

section \<open>Equal up to text\<close>

definition same_text_length :: "message \<Rightarrow> message \<Rightarrow> bool" where
  "same_text_length m n \<longleftrightarrow> msg_role m = msg_role n \<and> length (msg_content m) = length (msg_content n)"

definition same_but_text :: "inference_request \<Rightarrow> inference_request \<Rightarrow> bool" where
  "same_but_text r q \<longleftrightarrow> list_all2 same_text_length (ir_messages r) (ir_messages q) \<and> r\<lparr>ir_messages := ir_messages q\<rparr> = q"

definition same_call_but_text :: "provider_request \<Rightarrow> provider_request \<Rightarrow> bool" where
  "same_call_but_text r q \<longleftrightarrow> list_all2 same_text_length (pr_messages r) (pr_messages q) \<and> r\<lparr>pr_messages := pr_messages q\<rparr> = q"

definition same_answer_but_text :: "provider_response \<Rightarrow> provider_response \<Rightarrow> bool" where
  "same_answer_but_text a b \<longleftrightarrow> a\<lparr>ps_message := ps_message b\<rparr> = b"

definition same_result_but_text :: "inference_result \<Rightarrow> inference_result \<Rightarrow> bool" where
  "same_result_but_text r q \<longleftrightarrow> res_decision r = res_decision q \<and>
     res_invocation_attempts r = res_invocation_attempts q \<and> rel_option same_answer_but_text (res_response r) (res_response q)"

lemma same_but_textD:
  assumes "same_but_text r q"
  shows "ir_application_id r = ir_application_id q" "ir_requirements r = ir_requirements q"
    "ir_conversation_id r = ir_conversation_id q" "ir_idempotency_key r = ir_idempotency_key q"
    "list_all2 same_text_length (ir_messages r) (ir_messages q)"
  using assms unfolding same_but_text_def by (cases r; cases q; auto)+

lemma same_callD:
  assumes "same_call_but_text r q"
  shows "pr_model_alias r = pr_model_alias q" "pr_requires_tool_use r = pr_requires_tool_use q"
    "pr_requires_structured_output r = pr_requires_structured_output q"
  using assms unfolding same_call_but_text_def by (cases r; cases q; auto)+

lemma same_total_length:
  "list_all2 same_text_length ms ns \<Longrightarrow>
   sum_list (map (\<lambda>m. int (length (msg_content m))) ms) = sum_list (map (\<lambda>m. int (length (msg_content m))) ns)"
  by (induction rule: list_all2_induct) (simp_all add: same_text_length_def)

lemma default_estimate_same:
  "list_all2 same_text_length ms ns \<Longrightarrow> default_token_estimate k ms n = default_token_estimate k ns n"
  by (simp add: default_token_estimate_def same_total_length)

lemma rel_option_presence: "rel_option A x y \<Longrightarrow> x = None \<longleftrightarrow> y = None"
  by (cases x; cases y) simp_all

fun same_step_but_text :: "attempt_step \<Rightarrow> attempt_step \<Rightarrow> bool" where
  "same_step_but_text (Attempt_Continue a codes) (Attempt_Continue b codes') \<longleftrightarrow> a = b \<and> codes = codes'"
| "same_step_but_text (Attempt_Break a codes r) (Attempt_Break b codes' q) \<longleftrightarrow>
     a = b \<and> codes = codes' \<and> rel_option same_answer_but_text r q"
| "same_step_but_text _ _ \<longleftrightarrow> False"

definition same_progress_but_text :: "progress \<Rightarrow> progress \<Rightarrow> bool" where
  "same_progress_but_text p q \<longleftrightarrow> prg_attempts p = prg_attempts q \<and> prg_reason_codes p = prg_reason_codes q \<and>
     prg_succeeded_alias p = prg_succeeded_alias q \<and> rel_option same_answer_but_text (prg_response p) (prg_response q)"

lemma provider_request_same:
  assumes "same_but_text r q"
  shows "rel_sum (=) same_call_but_text (make_provider_request r eff a) (make_provider_request q eff a)"
proof -
  have "ir_messages r = [] \<longleftrightarrow> ir_messages q = []" using same_but_textD(5)[OF assms] by auto
  then show ?thesis
    using same_but_textD(5)[OF assms]
    by (simp add: make_provider_request_def validate_provider_request_def same_call_but_text_def)
qed

section \<open>The orchestrator\<close>

locale text_blind_environment =
  fixes orc :: "'s orchestrator" and same :: "'s \<Rightarrow> 's \<Rightarrow> bool"
  assumes resolve_blind: "unaffected same (rp_resolve (orc_policy_repository orc) a)"
    "unaffected same (rp_resolve (svc_policy_repository (orc_route_evaluation_service orc)) a)"
    and estimate_blind: "list_all2 same_text_length ms ns \<Longrightarrow>
      te_estimate (svc_token_estimator (orc_route_evaluation_service orc)) ms k =
      te_estimate (svc_token_estimator (orc_route_evaluation_service orc)) ns k"
    and health_blind: "unaffected same (candidate_health (svc_model_health_repository (orc_route_evaluation_service orc)) a)"
    "unaffected same (record_health_outcome orc a st)"
    and identifier_blind: "unaffected same (ig_new_id (svc_identifier_generator (orc_route_evaluation_service orc)) p)"
    and clocks_blind: "unaffected same (ck_now (svc_clock (orc_route_evaluation_service orc)))"
    "unaffected same (orc_monotonic orc)"
    and record_blind: "unaffected same (persist orc r)"
    and publish_blind: "same_result_but_text r q \<Longrightarrow> rel_io same (=) (publish_metrics orc r) (publish_metrics orc q)"
    "same_result_but_text r q \<Longrightarrow> rel_io same (=) (publish_decision_event orc r) (publish_decision_event orc q)"
    and provider_blind: "same_call_but_text c d \<Longrightarrow>
      rel_io same same_answer_but_text (mp_invoke (orc_model_provider orc) c) (mp_invoke (orc_model_provider orc) d)"
begin

lemma build_decision_blind:
  assumes "ir_application_id r = ir_application_id q"
  shows "rel_io same (=) (build_decision (orc_route_evaluation_service orc) r p c sel cs codes)
    (build_decision (orc_route_evaluation_service orc) q p c sel cs codes)"
  unfolding build_decision_def Let_def assms
  by (intro io_rel identifier_blind clocks_blind refl)

lemma candidates_blind:
  assumes "list_all2 same_text_length ms ns"
  defines "svc \<equiv> orc_route_evaluation_service orc"
  shows "rel_io same (=)
    (build_route_candidates models eff p (svc_token_estimator svc) ce ms (svc_model_health_repository svc))
    (build_route_candidates models eff p (svc_token_estimator svc) ce ns (svc_model_health_repository svc))"
proof -
  have "evaluate_candidate m eff p (svc_token_estimator svc) ce ms h = evaluate_candidate m eff p (svc_token_estimator svc) ce ns h"
    for m h
    unfolding evaluate_candidate_def svc_def estimate_blind[OF assms(1)] ..
  then show ?thesis
    unfolding build_route_candidates_def svc_def by (simp only:) (intro io_rel health_blind)
qed

lemma route_blind:
  assumes "same_but_text r q"
  shows "rel_io same (=) (evaluate_route (orc_route_evaluation_service orc) r) (evaluate_route (orc_route_evaluation_service orc) q)"
  unfolding evaluate_route_def Let_def same_but_textD(1-3)[OF assms]
  by (intro rel_bind_same rel_if rel_lift_same resolve_blind build_decision_blind candidates_blind same_but_textD[OF assms])

lemma attempt_closes_blind: "rel_io same (=) (close_attempt orc a st t) (close_attempt orc a st t)"
  unfolding close_attempt_def by (intro io_rel clocks_blind health_blind refl)

lemma attempt_blind:
  assumes "same_but_text r q"
  shows "rel_io same same_step_but_text (invoke_attempt orc r d eff a) (invoke_attempt orc q d eff a)"
  unfolding invoke_attempt_def
  by (intro rel_bind[OF rel_lift[OF provider_request_same[OF assms]]] rel_bind_same[OF clocks_blind(2)]
      rel_attempt_bind[OF provider_blind]; assumption?)
    (auto intro!: io_rel attempt_closes_blind)

lemma chain_blind:
  assumes "same_but_text r q"
  shows "rel_io same same_progress_but_text (attempt_chain orc r d eff chain ats codes) (attempt_chain orc q d eff chain ats codes)"
proof (induction chain arbitrary: ats codes)
  case Nil
  show ?case by (auto simp: same_progress_but_text_def intro: rel_return)
next
  case (Cons a chain)
  show ?case
    unfolding attempt_chain.simps
    by (rule rel_bind[OF attempt_blind[OF assms]], erule same_step_but_text.elims)
      (auto simp: same_progress_but_text_def dest: rel_option_presence intro!: rel_return Cons.IH[unfolded same_progress_but_text_def[abs_def]])
qed

lemma finish_blind:
  assumes "same_result_but_text r q"
  shows "rel_io same same_result_but_text (finish orc r) (finish orc q)"
proof -
  have "persist orc r = persist orc q" using assms by (simp add: persist_def same_result_but_text_def)
  then show ?thesis
    unfolding finish_def by (simp only:) (intro io_rel record_blind publish_blind assms)
qed

theorem invocation_blind:
  assumes "same_but_text r q"
  shows "rel_io same same_result_but_text (invoke_uncached orc r) (invoke_uncached orc q)"
  unfolding invoke_uncached_def Let_def same_but_textD(1,2)[OF assms]
  by (intro rel_bind_same[OF route_blind[OF assms]] rel_bind_same[OF resolve_blind(1)] rel_if finish_blind
      rel_bind[OF chain_blind[OF assms]])
    (auto simp: same_result_but_text_def same_progress_but_text_def intro!: rel_bind_same rel_lift_same finish_blind)

end

section \<open>The provider adapters\<close>

lemma resolve_request_same:
  assumes "same_call_but_text c d"
  shows "resolve_request cat c = resolve_request cat d"
  unfolding resolve_request_def check_capabilities_def same_callD[OF assms] ..

lemma retries_blind:
  assumes "unaffected R (re_jitter env)" and "\<And>d. unaffected R (re_sleep env d)" and "rel_io R Q call call'"
  shows "rel_io R Q (with_retries env caught call n) (with_retries env caught call' n)"
  using assms
proof (induction env caught call n rule: with_retries.induct)
  case (1 env caught call n)
  show ?case
    unfolding with_retries.simps[of env caught call n] with_retries.simps[of env caught call' n]
    by (rule rel_attempt_bind[OF "1.prems"(3)])
      (auto intro!: rel_return rel_option_case rel_if rel_raise rel_bind_same "1.prems" "1.IH")
qed

context retrying_adapter
begin

lemma invoke_blind:
  assumes "unaffected R (re_jitter env)" and "\<And>d. unaffected R (re_sleep env d)" and "same_call_but_text c d"
    and "\<And>m target. resolve_request catalogue c = Inr (m, target) \<Longrightarrow>
      rel_io R (\<lambda>x y. rel_sum (=) same_answer_but_text (parse c m x) (parse d m y)) (call c target) (call d target)"
  shows "rel_io R same_answer_but_text (invoke c) (invoke d)"
proof (cases "resolve_request catalogue c")
  case (Inl e)
  then show ?thesis
    unfolding invoke_shape resolve_request_same[OF assms(3), symmetric] by (simp add: rel_io_def bind_io_def lift_r_def)
next
  case (Inr mt)
  obtain m target where mt: "mt = (m, target)" by (rule prod.exhaust)
  show ?thesis
    unfolding invoke_shape resolve_request_same[OF assms(3), symmetric] Inr mt bind_lift_Inr prod.case
    by (intro rel_bind[OF retries_blind[OF assms(1,2) assms(4)[OF Inr[unfolded mt]]]] rel_lift)
qed

end

section \<open>The wired services\<close>

text \<open>What is observed of a process: its policies and health, and of the world what \<open>W\<close> says.\<close>

definition same_process :: "('w \<Rightarrow> 'w \<Rightarrow> bool) \<Rightarrow> 'w process \<Rightarrow> 'w process \<Rightarrow> bool" where
  "same_process W p q \<longleftrightarrow> pc_policies p = pc_policies q \<and> pc_health p = pc_health q \<and> W (pc_world p) (pc_world q)"

text \<open>
  A platform on which the text sent to a model is seen by its provider alone: every operation
  behaves alike on worlds that look alike, and calls that differ only in text get answers that
  differ only in text.
\<close>

definition text_blind_platform :: "('w \<Rightarrow> 'w \<Rightarrow> bool) \<Rightarrow> ('w, 'j) platform \<Rightarrow> bool" where
  "text_blind_platform W pf \<longleftrightarrow>
     unaffected W (pf_now pf) \<and> unaffected W (pf_time pf) \<and> unaffected W (pf_monotonic pf) \<and>
     unaffected W (pf_uuid4_hex pf) \<and> (\<forall>d. unaffected W (pf_sleep pf d)) \<and> unaffected W (pf_random pf) \<and>
     (\<forall>v. unaffected W (pf_print pf v)) \<and> (\<forall>region v. unaffected W (pf_put_events pf region v)) \<and>
     (\<forall>region name k v. unaffected W (tb_put (pf_decisions_table pf region name) k v)) \<and>
     (\<forall>region c d target a p. same_call_but_text c d \<longrightarrow>
        rel_io W (\<lambda>x y. rel_sum (=) same_answer_but_text (parse_converse_response (pf_coercions pf) x a p)
                        (parse_converse_response (pf_coercions pf) y a p))
          (pf_converse pf region (build_converse_request c target)) (pf_converse pf region (build_converse_request d target))) \<and>
     (\<forall>key c d target a p. same_call_but_text c d \<longrightarrow>
        rel_io W (\<lambda>x y. rel_sum (=) same_answer_but_text (parse_chat_completion_response x a p)
                        (parse_chat_completion_response y a p))
          (pf_create pf key (build_chat_completion_request c target)) (pf_create pf key (build_chat_completion_request d target)))"

lemma on_world_blind: "rel_io W Q m n \<Longrightarrow> rel_io (same_process W) Q (on_world m) (on_world n)"
  unfolding on_world_def by (rule rel_on_part[where P = W]) (simp_all add: same_process_def)

lemma on_policies_blind: "unaffected (same_process W) (on_policies m)"
  unfolding on_policies_def by (rule rel_on_part[OF rel_part_refl]) (simp_all add: same_process_def)

lemma on_health_blind: "unaffected (same_process W) (on_health m)"
  unfolding on_health_def by (rule rel_on_part[OF rel_part_refl]) (simp_all add: same_process_def)

lemma bedrock_process_blind:
  assumes "text_blind_platform W pf" and "same_call_but_text c d"
  shows "rel_io (same_process W) same_answer_but_text
    (mp_invoke (bedrock_process (bedrock_adapter pf region cat)) c) (mp_invoke (bedrock_process (bedrock_adapter pf region cat)) d)"
proof -
  have "rel_io W same_answer_but_text (bedrock_invoke (bedrock_adapter pf region cat) c) (bedrock_invoke (bedrock_adapter pf region cat) d)"
    by (rule bedrock.invoke_blind)
      (use assms in \<open>simp_all add: text_blind_platform_def bedrock_adapter_def default_retries_def same_callD(1)\<close>)
  then show ?thesis by (simp add: bedrock_process_def process_provider_def on_world_blind)
qed

lemma openai_process_blind:
  assumes "text_blind_platform W pf" and "same_call_but_text c d"
  shows "rel_io (same_process W) same_answer_but_text
    (mp_invoke (openai_process (openai_adapter pf key cat)) c) (mp_invoke (openai_process (openai_adapter pf key cat)) d)"
proof -
  have "rel_io W same_answer_but_text (openai_invoke (openai_adapter pf key cat) c) (openai_invoke (openai_adapter pf key cat) d)"
    by (rule openai.invoke_blind)
      (use assms in \<open>simp_all add: text_blind_platform_def openai_adapter_def default_retries_def same_callD(1)\<close>)
  then show ?thesis by (simp add: openai_process_def process_provider_def on_world_blind)
qed

text \<open>The providers of a built service, and the composite over them.\<close>

lemma wired_provider_blind:
  assumes "text_blind_platform W pf" and "build_providers pf env region cat p = (Inr providers, p')"
    and "providers n = Some provider" and "same_call_but_text c d"
  shows "rel_io (same_process W) same_answer_but_text (mp_invoke provider c) (mp_invoke provider d)"
  using build_providers_Inr(2)[OF assms(2)] assms(3) bedrock_process_blind[OF assms(1,4)] openai_process_blind[OF assms(1,4)]
  by (auto split: if_splits)

lemma composite_blind:
  assumes "\<And>n provider. cmp_providers cmp n = Some provider \<Longrightarrow> rel_io R same_answer_but_text (mp_invoke provider c) (mp_invoke provider d)"
    and "same_call_but_text c d"
  shows "rel_io R same_answer_but_text (composite_invoke cmp c) (composite_invoke cmp d)"
proof -
  have same: "composite_resolve_provider cmp d = composite_resolve_provider cmp c"
    by (simp add: composite_resolve_provider_def same_callD(1)[OF assms(2)])
  show ?thesis
  proof (cases "composite_resolve_provider cmp c")
    case (Inl e)
    then show ?thesis by (simp add: composite_invoke_def same rel_io_def bind_io_def lift_r_def)
  next
    case (Inr provider)
    then have "\<exists>n. cmp_providers cmp n = Some provider"
      by (auto simp: composite_resolve_provider_def split: option.splits)
    then show ?thesis using assms(1) by (auto simp: composite_invoke_def same Inr bind_lift_Inr)
  qed
qed

lemma wired_environment_blind:
  assumes platform: "text_blind_platform W pf" and built: "build_services pf files env p = (Inr svc, p')"
  shows "text_blind_environment (hs_orchestrator svc) (same_process W)"
proof -
  obtain policies_dir region catalogue providers decisions_name idempotency_name where
    prov: "build_providers pf env region catalogue (p\<lparr>pc_policies := new_policy_repository, pc_health := Map.empty\<rparr>) = (Inr providers, p')"
    and svc: "svc = assemble_services pf env region catalogue (build_route_service pf files policies_dir catalogue) providers
       decisions_name idempotency_name"
    using built by (rule build_services_Inr)
  let ?orc = "hs_orchestrator svc" and ?R = "same_process W"
  have wired: "orc_model_provider ?orc = composite_model_provider
       \<lparr>cmp_catalogue = catalogue, cmp_providers = providers, cmp_next = next_chunk\<rparr>"
    "orc_policy_repository ?orc = svc_policy_repository (build_route_service pf files policies_dir catalogue)"
    "orc_route_evaluation_service ?orc = build_route_service pf files policies_dir catalogue"
    "orc_monotonic ?orc = on_world (pf_monotonic pf)" "orc_model_health_repository ?orc = Some (process_health default_health)"
    "orc_decision_repository ?orc = Some (dynamo_decision_repository (process_decisions pf region decisions_name))"
    "orc_metrics_publisher ?orc = Some (emf_metrics_publisher (process_emf pf (environ_or env ''ENVIRONMENT_NAME'' ''dev'')))"
    "orc_decision_event_publisher ?orc = map_option (\<lambda>bus. eventbridge_publisher (process_events pf region bus))
       (environ_truthy env ''DECISION_EVENTS_BUS_NAME'')"
    by (simp_all add: svc assemble_services_def Let_def build_route_service_def)
  note ops = platform[unfolded text_blind_platform_def]
  have point: "unaffected ?R (put_metric (process_emf pf e) x)" for e x
    by (cases x) (auto simp: put_metric_def process_emf_def ops intro!: rel_raise rel_bind_same on_world_blind)
  have emf: "unaffected ?R (emf_publish (process_emf pf e) r)" for e r
    unfolding emf_publish_def by (intro rel_bind_same rel_map_same point rel_return refl)
  show ?thesis
  proof
    show "rel_io ?R same_answer_but_text (mp_invoke (orc_model_provider ?orc) c) (mp_invoke (orc_model_provider ?orc) d)"
      if "same_call_but_text c d" for c d
      unfolding wired composite_model_provider_def model_provider.simps
      by (rule composite_blind[OF _ that]) (simp add: wired_provider_blind[OF platform prov _ that])
    show "rel_io ?R (=) (publish_metrics ?orc r) (publish_metrics ?orc q)" if "same_result_but_text r q" for r q
    proof -
      have "emf_publish pub r = emf_publish pub q" for pub :: "'a process emf_publisher"
        using that by (simp add: emf_publish_def same_result_but_text_def)
      then show ?thesis by (simp add: publish_metrics_def wired when_some_def emf_metrics_publisher_def emf)
    qed
    show "rel_io ?R (=) (publish_decision_event ?orc r) (publish_decision_event ?orc q)" if "same_result_but_text r q" for r q
    proof -
      have "event_entry bus r = event_entry bus q" for bus
        using that by (simp add: event_entry_def build_detail_def same_result_but_text_def)
      then show ?thesis
        unfolding publish_decision_event_def wired
        by (intro rel_when_same)
          (auto simp: eventbridge_publisher_def event_publish_def process_events_def ops
            intro!: rel_bind[OF rel_attempt[OF on_world_blind[where Q = "(=)"]]] rel_return)
    qed
  qed (auto simp: wired build_route_service_def process_policies_def process_health_def default_token_estimator_def
      default_estimate_same candidate_health_def record_health_outcome_def persist_def system_clock_def uuid4_identifier_generator_def
      dynamo_decision_repository_def dynamo_save_def process_decisions_def lift_table_def when_some_def ops
      intro!: on_policies_blind on_health_blind on_world_blind rel_bind_same rel_return)
qed

section \<open>Property\<close>


text \<open>A platform that prints and stores into one log, while the providers keep the prompts and echo them.\<close>

definition prompt_of_payload :: "pyval \<Rightarrow> str" where
  "prompt_of_payload payload =
     (case payload of PV_Dict kvs \<Rightarrow> (case map_of kvs ''messages'' of None \<Rightarrow> [] | Some v \<Rightarrow> dumps_text (\<lambda>_. []) '','' '':'' v) | _ \<Rightarrow> [])"

definition recording_platform :: "(pyval list \<times> pyval list, audit_record) platform" where
  "recording_platform =
     \<lparr>pf_now = return_io 0, pf_time = return_io 0, pf_monotonic = return_io 0, pf_uuid4_hex = return_io ''0a'',
      pf_sleep = (\<lambda>d. return_io ()), pf_random = return_io (1 / 2),
      pf_print = (\<lambda>v (log, prompts). (Inr (), (log @ [v], prompts))),
      pf_converse = (\<lambda>region v (log, prompts).
        (Inr (converse_response [prompt_of_payload v] ''end_turn'' 6 4), (log, prompts @ [v]))),
      pf_converse_stream = (\<lambda>region v. return_io (converse_stream [] ''end_turn'' 6 4)),
      pf_secret_string = (\<lambda>region arn. return_io ''sk-test''),
      pf_create = (\<lambda>key v (log, prompts).
        (Inr (answer_completion [prompt_of_payload v] ''stop'' 6 4), (log, prompts @ [v]))),
      pf_create_stream = (\<lambda>key v. return_io (answer_chunks [] ''stop'' 6 4, None)),
      pf_decisions_table = (\<lambda>region name. \<lparr>tb_put_if = (\<lambda>c k v. return_io ()),
        tb_put = (\<lambda>k v (log, prompts). (Inr (), (log @ [PV_Str k], prompts))),
        tb_get = (\<lambda>k. return_io None), tb_delete = (\<lambda>k. return_io ())\<rparr>),
      pf_idempotency_table = (\<lambda>region name. \<lparr>tb_put_if = (\<lambda>c k v. return_io ()), tb_put = (\<lambda>k v. return_io ()),
        tb_get = (\<lambda>k. return_io None), tb_delete = (\<lambda>k. return_io ())\<rparr>),
      pf_put_events = (\<lambda>region v (log, prompts). (Inr (), (log @ [v], prompts))),
      pf_dump_result = (\<lambda>r. \<lparr>aud_decision = res_decision r, aud_invocation_attempts = res_invocation_attempts r\<rparr>), pf_validate_result = (\<lambda>j. Inl Validation_Error),
      pf_dump_record = id, pf_validate_record = Inr, pf_coercions = strict_coercions\<rparr>"

definition same_log :: "pyval list \<times> pyval list \<Rightarrow> pyval list \<times> pyval list \<Rightarrow> bool" where
  "same_log w v \<longleftrightarrow> fst w = fst v"

lemma recording_platform_blind: "text_blind_platform same_log recording_platform"
proof -
  obtain sr where sr: "map_stop_reason (PV_Str ''end_turn'') = Inr sr" using map_stop_reason_str by blast
  show ?thesis
    using converse_answer_parsed[OF strict_coercions_exact _ _ sr, of 6 4]
    by (simp add: text_blind_platform_def recording_platform_def rel_io_def return_io_def same_log_def split_beta
        answer_completion_def parse_chat_completion_response_def mk_usage_def same_answer_but_text_def)
qed

definition note_request :: "str \<Rightarrow> inference_request" where
  "note_request note =
     (sample_request ''support-assistant'' None)\<lparr>ir_messages := [\<lparr>msg_role = Role_USER, msg_content = note\<rparr>]\<rparr>"

definition recording_process :: "(pyval list \<times> pyval list) process" where
  "recording_process =
     \<lparr>pc_policies = new_policy_repository, pc_health = Map.empty, pc_generators = [], pc_world = ([], [])\<rparr>"


end
