(* ===== verification/Local_Tools.thy ===== *)
theory Local_Tools
  imports Deployed_Service Json_Text
begin

text \<open>
  The command-line tools of \<open>scripts/\<close>: the handler run locally on fake or real services
  (\<open>invoke_lambda_locally.py\<close>), routing decisions and their timing (\<open>evaluate_route.py\<close>,
  \<open>benchmark_routing.py\<close>), the cost report (\<open>cost_comparison_report.py\<close>) and the two live smoke
  tests.  A tool is an operation on the world outside the process that returns its exit code and
  what it prints as data; parsed arguments are records, and reading a request file is a parameter.
  The theorem of this theory is that no model is called without \<open>--confirm-cost\<close>.
\<close>

section \<open>Fake services\<close>

record 'w local_process =
  lp_policies :: policy_repository_state
  lp_idempotency :: idempotency_records
  lp_decisions :: decision_records
  lp_world :: 'w

definition on_local_world :: "('w, 'a) op \<Rightarrow> ('w local_process, 'a) op" where
  "on_local_world m = on_part lp_world (\<lambda>w p. p\<lparr>lp_world := w\<rparr>) m"

definition on_local_policies :: "(policy_repository_state, 'a) op \<Rightarrow> ('w local_process, 'a) op" where
  "on_local_policies m = on_part lp_policies (\<lambda>x p. p\<lparr>lp_policies := x\<rparr>) m"

definition on_local_idempotency :: "(idempotency_records \<times> 'w, 'a) op \<Rightarrow> ('w local_process, 'a) op" where
  "on_local_idempotency m =
     on_part (\<lambda>p. (lp_idempotency p, lp_world p)) (\<lambda>(r, w) p. p\<lparr>lp_idempotency := r, lp_world := w\<rparr>) m"

definition on_local_decisions :: "(decision_records \<times> 'w, 'a) op \<Rightarrow> ('w local_process, 'a) op" where
  "on_local_decisions m =
     on_part (\<lambda>p. (lp_decisions p, lp_world p)) (\<lambda>(r, w) p. p\<lparr>lp_decisions := r, lp_world := w\<rparr>) m"

text \<open>\<open>len(s.split())\<close>: the number of maximal runs without white space.\<close>

fun word_count :: "bool \<Rightarrow> str \<Rightarrow> nat" where
  "word_count inside [] = 0"
| "word_count inside (c # s) =
     (if is_space c then word_count False s else (if inside then 0 else 1) + word_count True s)"

text \<open>
  \<open>EchoModelProvider\<close>.  The fixed beginning of the answer contains a dash outside the model's code
  points, so it is a parameter.
\<close>

definition echo_invoke :: "str \<Rightarrow> provider_request \<Rightarrow> ('s, provider_response) op" where
  "echo_invoke prefix request =
     (if pr_messages request = [] then raise_io Index_Error
      else let last_message = msg_content (last (pr_messages request));
               echoed = prefix @ py_repr last_message
           in bind_io (lift_r (mk_usage (int (word_count False last_message)) (int (word_count False echoed)))) (\<lambda>usage.
                return_io \<lparr>ps_model_alias = pr_model_alias request, ps_provider = Provider_BEDROCK,
                  ps_message = \<lparr>msg_role = Role_ASSISTANT, msg_content = echoed\<rparr>,
                  ps_stop_reason = Stop_END_TURN, ps_usage = usage\<rparr>))"

definition echo_model_provider :: "str \<Rightarrow> 's model_provider" where
  "echo_model_provider prefix =
     \<lparr>mp_invoke = echo_invoke prefix, mp_invoke_stream = None, mp_next = (\<lambda>_. return_io None)\<rparr>"

definition local_idempotency_store :: "('w, 'j) platform \<Rightarrow> 'w local_process idempotency_store" where
  "local_idempotency_store pf =
     (let store = in_memory_idempotency_store (system_clock (pf_now pf)) (seconds 300)
      in \<lparr>ids_reserve = (\<lambda>a k h. on_local_idempotency (ids_reserve store a k h)),
          ids_complete = (\<lambda>a k h r c n. on_local_idempotency (ids_complete store a k h r c n)),
          ids_release = (\<lambda>a k. on_local_idempotency (ids_release store a k))\<rparr>)"

definition local_decision_repository :: "'w local_process routing_decision_repository" where
  "local_decision_repository =
     \<lparr>rd_save = (\<lambda>r. on_local_decisions (rd_save in_memory_decision_repository r)),
      rd_get = (\<lambda>i. on_local_decisions (rd_get in_memory_decision_repository i))\<rparr>"

text \<open>\<open>build_service\<close> of the two routing tools; \<open>build_fake_services\<close> builds the same one.\<close>

definition local_route_service ::
  "('w, 'j) platform \<Rightarrow> config_environment \<Rightarrow> str \<Rightarrow> model_catalogue \<Rightarrow> 'w local_process route_evaluation_service" where
  "local_route_service pf files policies_dir catalogue =
     \<lparr>svc_policy_repository =
        \<lparr>rp_resolve = (\<lambda>a. on_local_policies (local_policy_resolve files (path_join policies_dir ''applications'')
           (path_join policies_dir ''default_policy.yaml'') a))\<rparr>,
      svc_model_catalogue = catalogue,
      svc_token_estimator = default_token_estimator 4,
      svc_cost_estimator = default_cost_estimator,
      svc_clock = system_clock (on_local_world (pf_now pf)),
      svc_identifier_generator = uuid4_identifier_generator (on_local_world (pf_uuid4_hex pf)),
      svc_model_health_repository = None\<rparr>"

definition local_catalogue :: "config_environment \<Rightarrow> str \<Rightarrow> model_catalogue result" where
  "local_catalogue files policies_dir =
     local_file_model_catalogue files (path_join policies_dir ''model_catalogue.yaml'')"

definition build_service ::
  "('w, 'j) platform \<Rightarrow> config_environment \<Rightarrow> str \<Rightarrow> 'w local_process route_evaluation_service result" where
  "build_service pf files policies_dir =
     bind_r (local_catalogue files policies_dir) (\<lambda>catalogue. Inr (local_route_service pf files policies_dir catalogue))"

definition build_fake_services ::
  "('w, 'j) platform \<Rightarrow> str \<Rightarrow> config_environment \<Rightarrow> str \<Rightarrow> 'w local_process handler_services result" where
  "build_fake_services pf prefix files policies_dir =
     bind_r (local_catalogue files policies_dir) (\<lambda>catalogue.
       let route_service = local_route_service pf files policies_dir catalogue
       in Inr \<lparr>hs_catalogue = catalogue, hs_route_service = route_service,
               hs_orchestrator =
                 \<lparr>orc_route_evaluation_service = route_service,
                  orc_policy_repository = svc_policy_repository route_service,
                  orc_model_provider = echo_model_provider prefix,
                  orc_idempotency_store = Some (local_idempotency_store pf),
                  orc_decision_repository = Some local_decision_repository,
                  orc_model_health_repository = None, orc_metrics_publisher = None,
                  orc_decision_event_publisher = None, orc_monotonic = on_local_world (pf_monotonic pf)\<rparr>,
               hs_decision_repository = local_decision_repository\<rparr>)"

section \<open>The handler run locally\<close>

definition opt_strings :: "(str \<times> str) list option \<Rightarrow> pyval" where
  "opt_strings kvs = (case kvs of None \<Rightarrow> PV_None | Some xs \<Rightarrow> PV_Dict (map (\<lambda>kv. (fst kv, PV_Str (snd kv))) xs))"

definition build_event ::
  "(rat \<Rightarrow> str) \<Rightarrow> str \<Rightarrow> str \<Rightarrow> pyval option \<Rightarrow> (str \<times> str) list option \<Rightarrow> (str \<times> str) list option \<Rightarrow> str \<Rightarrow> pyval" where
  "build_event fr m resource body path_parameters query_string_parameters uuid =
     PV_Dict [(''httpMethod'', PV_Str m), (''resource'', PV_Str resource),
       (''body'', case body of None \<Rightarrow> PV_None | Some b \<Rightarrow> PV_Str (dumps_text fr '', '' '': '' b)),
       (''isBase64Encoded'', PV_Bool False),
       (''pathParameters'', opt_strings path_parameters),
       (''queryStringParameters'', opt_strings query_string_parameters),
       (''requestContext'', PV_Dict [(''requestId'', PV_Str (''local-'' @ uuid))])]"

text \<open>\<open>pair.partition("=")\<close>: no separator leaves the whole text as the key and an empty value.\<close>

definition partition_eq :: "str \<Rightarrow> str \<times> str" where
  "partition_eq pair = (takeWhile (\<lambda>c. c \<noteq> CHR ''='') pair, drop 1 (dropWhile (\<lambda>c. c \<noteq> CHR ''='') pair))"

definition parse_key_value_pairs :: "str list \<Rightarrow> (str \<times> str) list" where
  "parse_key_value_pairs pairs = dict_of (map partition_eq pairs)"

definition none_if_empty :: "'a list \<Rightarrow> 'a list option" where
  "none_if_empty xs = (if xs = [] then None else Some xs)"

record invoke_args =
  iva_method :: str
  iva_resource :: str
  iva_body :: "str option"
  iva_path_param :: "str list"
  iva_query_param :: "str list"
  iva_policies_dir :: str
  iva_use_real_services :: bool
  iva_confirm_cost :: bool

definition model_invoking_route :: "str \<times> str" where
  "model_invoking_route = (''POST'', ''/v1/inference'')"

text \<open>A fresh process on the world, run to its end.\<close>

definition in_process :: "('w process, 'a) op \<Rightarrow> ('w, 'a) op" where
  "in_process m = (\<lambda>w.
     case m \<lparr>pc_policies = new_policy_repository, pc_health = Map.empty, pc_generators = [], pc_world = w\<rparr> of
       (r, p) \<Rightarrow> (r, pc_world p))"

definition in_local_process :: "('w local_process, 'a) op \<Rightarrow> ('w, 'a) op" where
  "in_local_process m = (\<lambda>w.
     case m \<lparr>lp_policies = new_policy_repository, lp_idempotency = Map.empty, lp_decisions = Map.empty, lp_world = w\<rparr> of
       (r, p) \<Rightarrow> (r, lp_world p))"

text \<open>
  \<open>main\<close>: \<open>read_json\<close> is \<open>json.loads(path.read_text())\<close>, \<open>uuid\<close> the text of \<open>uuid.uuid4()\<close>.
\<close>

definition local_response ::
  "('w, 'j) platform \<Rightarrow> config_environment \<Rightarrow> environ \<Rightarrow> handler_env \<Rightarrow> str \<Rightarrow> invoke_args \<Rightarrow> pyval \<Rightarrow>
   ('w, http_response) op" where
  "local_response pf files env henv prefix args event =
     (if iva_use_real_services args
      then in_process (bind_io (build_services pf files env) (dispatch henv event))
      else in_local_process (bind_io (lift_r (build_fake_services pf prefix files (iva_policies_dir args))) (dispatch henv event)))"

definition invoke_main ::
  "('w, 'j) platform \<Rightarrow> config_environment \<Rightarrow> environ \<Rightarrow> handler_env \<Rightarrow> str \<Rightarrow> (str \<Rightarrow> pyval result) \<Rightarrow> ('w, str) op \<Rightarrow>
   invoke_args \<Rightarrow> ('w, int \<times> pyval option) op" where
  "invoke_main pf files env henv prefix read_json uuid args =
     (if iva_use_real_services args \<and> (iva_method args, iva_resource args) = model_invoking_route \<and>
         \<not> iva_confirm_cost args
      then return_io (1, None)
      else bind_io (lift_r (case iva_body args of None \<Rightarrow> Inr None | Some path \<Rightarrow> bind_r (read_json path) (\<lambda>b. Inr (Some b)))) (\<lambda>body.
           bind_io uuid (\<lambda>u.
           bind_io (local_response pf files env henv prefix args
               (build_event (env_float_repr henv) (iva_method args) (iva_resource args)
                  (case body of Some PV_None \<Rightarrow> None | b \<Rightarrow> b)
                  (none_if_empty (parse_key_value_pairs (iva_path_param args)))
                  (none_if_empty (parse_key_value_pairs (iva_query_param args))) u)) (\<lambda>response.
             return_io (if rsp_status_code response < 400 then 0 else 1, Some (rsp_body response))))))"

section \<open>Routing decisions from the command line\<close>

text \<open>\<open>evaluate_route.py\<close>: two errors are reported, every other exception ends the tool.\<close>

definition evaluate_main ::
  "('w, 'j) platform \<Rightarrow> config_environment \<Rightarrow> str \<Rightarrow> inference_request result \<Rightarrow>
   ('w, int \<times> (str + routing_decision)) op" where
  "evaluate_main pf files policies_dir request =
     bind_io (lift_r request) (\<lambda>r.
     bind_io (lift_r (build_service pf files policies_dir)) (\<lambda>service.
     bind_io (in_local_process (attempt_io (evaluate_route service r))) (\<lambda>outcome.
       case outcome of
         Inr decision \<Rightarrow> return_io (0, Inr decision)
       | Inl RoutingPolicyNotFoundError \<Rightarrow> return_io (1, Inl ''NO_ROUTING_POLICY'')
       | Inl ConfigurationError \<Rightarrow> return_io (1, Inl ''INVALID_CONFIGURATION'')
       | Inl e \<Rightarrow> raise_io e)))"

text \<open>\<open>xs[i]\<close>: a negative index counts from the end.\<close>

definition list_item :: "'a list \<Rightarrow> int \<Rightarrow> 'a result" where
  "list_item xs i =
     (let j = (if i < 0 then i + int (length xs) else i)
      in if 0 \<le> j \<and> j < int (length xs) then Inr (xs ! nat j) else Inl Index_Error)"

definition percentile :: "rat list \<Rightarrow> rat \<Rightarrow> rat result" where
  "percentile sorted_samples pct =
     (if sorted_samples = [] then Inr 0
      else list_item sorted_samples
             (min (int (length sorted_samples) - 1) (int_trunc (float_round (of_nat (length sorted_samples) * pct)))))"

fun repeat_io :: "nat \<Rightarrow> ('s, 'a) op \<Rightarrow> ('s, 'a list) op" where
  "repeat_io 0 m = return_io []"
| "repeat_io (Suc n) m = bind_io m (\<lambda>x. bind_io (repeat_io n m) (\<lambda>xs. return_io (x # xs)))"

text \<open>\<open>range(n)\<close> of a negative \<open>n\<close> is empty.\<close>

definition run_benchmark ::
  "('s, rat) op \<Rightarrow> 's route_evaluation_service \<Rightarrow> inference_request \<Rightarrow> int \<Rightarrow> int \<Rightarrow> ('s, rat list) op" where
  "run_benchmark perf_counter service request iterations warmup =
     bind_io (repeat_io (nat warmup) (evaluate_route service request)) (\<lambda>_.
     repeat_io (nat iterations)
       (bind_io perf_counter (\<lambda>started.
        bind_io (evaluate_route service request) (\<lambda>_.
        bind_io perf_counter (\<lambda>finished.
        return_io (float_round (float_round (finished - started) * 1000)))))))"

text \<open>
  \<open>statistics.fmean\<close> divides the correctly rounded sum, \<open>statistics.median\<close> takes the middle or the
  mean of the two middle samples, and \<open>round(x, n)\<close> rounds the exact value to \<open>n\<close> decimals.
\<close>

definition fmean :: "rat list \<Rightarrow> rat" where
  "fmean xs = float_round (float_round (sum_list xs) / of_nat (length xs))"

definition median :: "rat list \<Rightarrow> rat" where
  "median xs =
     (let n = length xs
      in if odd n then xs ! (n div 2) else float_round (float_round (xs ! (n div 2 - 1) + xs ! (n div 2)) / 2))"

definition round_to :: "rat \<Rightarrow> nat \<Rightarrow> rat" where
  "round_to x n = float_round (of_int (round_even (x * 10 ^ n)) / 10 ^ n)"

record benchmark_stats =
  bst_iterations :: int
  bst_min_ms :: rat
  bst_mean_ms :: rat
  bst_median_ms :: rat
  bst_p95_ms :: rat
  bst_p99_ms :: rat
  bst_max_ms :: rat
  bst_throughput_per_sec :: rat

definition benchmark_stats :: "int \<Rightarrow> rat list \<Rightarrow> benchmark_stats result" where
  "benchmark_stats iterations samples_ms =
     (let sorted_samples = sort samples_ms; mean = fmean sorted_samples
      in if sorted_samples = [] then Inl Value_Error
         else bind_r (percentile sorted_samples (float_round (95 / 100))) (\<lambda>p95.
              bind_r (percentile sorted_samples (float_round (99 / 100))) (\<lambda>p99.
              if mean = 0 then Inl Zero_Division_Error
              else Inr \<lparr>bst_iterations = iterations, bst_min_ms = round_to (hd sorted_samples) 4,
                     bst_mean_ms = round_to mean 4, bst_median_ms = round_to (median sorted_samples) 4,
                     bst_p95_ms = round_to p95 4, bst_p99_ms = round_to p99 4,
                     bst_max_ms = round_to (last sorted_samples) 4,
                     bst_throughput_per_sec = round_to (float_round (1000 / mean)) 1\<rparr>)))"

definition benchmark_main ::
  "('w, 'j) platform \<Rightarrow> ('w, rat) op \<Rightarrow> config_environment \<Rightarrow> str \<Rightarrow> inference_request result \<Rightarrow> int \<Rightarrow> int \<Rightarrow>
   ('w, benchmark_stats) op" where
  "benchmark_main pf perf_counter files policies_dir request iterations warmup =
     bind_io (lift_r request) (\<lambda>r.
     bind_io (lift_r (build_service pf files policies_dir)) (\<lambda>service.
     bind_io (in_local_process (run_benchmark (on_local_world perf_counter) service r iterations warmup)) (\<lambda>samples.
       lift_r (benchmark_stats iterations samples))))"

section \<open>The cost report\<close>

record workload =
  wkl_name :: str
  wkl_input_chars :: nat
  wkl_maximum_output_tokens :: int

definition workloads :: "workload list" where
  "workloads =
     [\<lparr>wkl_name = ''short-chat-turn'', wkl_input_chars = 200, wkl_maximum_output_tokens = 200\<rparr>,
      \<lparr>wkl_name = ''document-summary'', wkl_input_chars = 4000, wkl_maximum_output_tokens = 500\<rparr>,
      \<lparr>wkl_name = ''long-document-analysis'', wkl_input_chars = 40000, wkl_maximum_output_tokens = 1500\<rparr>]"

definition estimate_cost_usd :: "model_definition \<Rightarrow> workload \<Rightarrow> rat result" where
  "estimate_cost_usd model workload =
     bind_r (te_estimate (default_token_estimator 4)
         [\<lparr>msg_role = Role_USER, msg_content = replicate (wkl_input_chars workload) (CHR ''x'')\<rparr>]
         (wkl_maximum_output_tokens workload)) (\<lambda>usage.
     bind_r (ce_estimate default_cost_estimator usage (md_pricing model)) (\<lambda>estimated.
       Inr (float_of_decimal (ec_amount_usd estimated))))"

text \<open>
  The lines of one workload in the order printed: alias, cost, multiple of the cheapest (\<open>None\<close> for
  \<open>inf\<close>) and monthly cost.  \<open>min\<close> of no costs raises.
\<close>

definition report_rows :: "model_definition list \<Rightarrow> int \<Rightarrow> workload \<Rightarrow> (str \<times> rat \<times> rat option \<times> rat) list result" where
  "report_rows models requests_per_day workload =
     bind_r (map_r (\<lambda>m. bind_r (estimate_cost_usd m workload) (\<lambda>c. Inr (md_model_alias m, c))) models) (\<lambda>rows.
       if rows = [] then Inl Value_Error
       else let cheapest = Min (snd ` set rows)
            in Inr (map (\<lambda>(name, cost). (name, cost,
                      if 0 < cheapest then Some (float_round (cost / cheapest)) else None,
                      float_round (float_round (cost * of_int requests_per_day) * 30)))
                    (sort_key snd rows)))"

definition cost_report :: "config_environment \<Rightarrow> str \<Rightarrow> int \<Rightarrow> (str \<times> (str \<times> rat \<times> rat option \<times> rat) list) list result" where
  "cost_report files path requests_per_day =
     bind_r (local_file_model_catalogue files path) (\<lambda>catalogue.
       map_r (\<lambda>w. bind_r (report_rows (mc_all_models catalogue) requests_per_day w) (\<lambda>rows. Inr (wkl_name w, rows))) workloads)"

section \<open>Live smoke tests\<close>

record smoke_args =
  sma_model_alias :: str
  sma_policies_dir :: str
  sma_confirm_cost :: bool
  sma_hide_response :: bool

record smoke_report =
  smr_stop_reason :: stop_reason
  smr_usage :: usage
  smr_estimated_cost_usd :: decimal
  smr_latency_ms :: rat
  smr_response_text :: "str option"

definition smoke_env_flag :: str where
  "smoke_env_flag = ''AWS_MODEL_ROUTER_ENABLE_LIVE_SMOKE_TEST''"

definition fixed_test_message :: str where
  "fixed_test_message = ''Reply with a single short sentence confirming you received this test message.''"

definition smoke_request :: "str \<Rightarrow> provider_request result" where
  "smoke_request name = validate_provider_request
     \<lparr>pr_model_alias = name, pr_messages = [\<lparr>msg_role = Role_USER, msg_content = fixed_test_message\<rparr>],
      pr_system_prompt = None, pr_max_output_tokens = 50, pr_temperature = None, pr_top_p = None,
      pr_requires_tool_use = False, pr_requires_structured_output = False\<rparr>"

text \<open>
  Both scripts, up to the adapter they make; a \<open>ProviderError\<close> is reported, anything else ends
  the script.
\<close>

definition smoke_main ::
  "(model_catalogue \<Rightarrow> ('w, provider_request \<Rightarrow> ('w, provider_response) op) op) \<Rightarrow> ('w, rat) op \<Rightarrow> config_environment \<Rightarrow>
   environ \<Rightarrow> smoke_args \<Rightarrow> ('w, int \<times> smoke_report option) op" where
  "smoke_main make_provider monotonic files env args =
     (if env smoke_env_flag \<noteq> Some ''true'' then return_io (1, None)
      else if \<not> sma_confirm_cost args then return_io (1, None)
      else bind_io (lift_r (local_catalogue files (sma_policies_dir args))) (\<lambda>catalogue.
           case mc_get_by_alias catalogue (sma_model_alias args) of
             None \<Rightarrow> return_io (1, None)
           | Some model \<Rightarrow>
               bind_io (make_provider catalogue) (\<lambda>call.
               bind_io (lift_r (smoke_request (sma_model_alias args))) (\<lambda>request.
               bind_io monotonic (\<lambda>start.
               bind_io (attempt_io (call request)) (\<lambda>outcome.
                 case outcome of
                   Inl (ProviderError m c) \<Rightarrow> bind_io monotonic (\<lambda>_. return_io (1, None))
                 | Inl e \<Rightarrow> raise_io e
                 | Inr response \<Rightarrow>
                     bind_io monotonic (\<lambda>finish.
                     bind_io (lift_r (ce_estimate default_cost_estimator (ps_usage response) (md_pricing model))) (\<lambda>cost.
                       return_io (0, Some \<lparr>smr_stop_reason = ps_stop_reason response, smr_usage = ps_usage response,
                         smr_estimated_cost_usd = ec_amount_usd cost,
                         smr_latency_ms = float_round (float_round (finish - start) * 1000),
                         smr_response_text = (if sma_hide_response args then None
                                              else Some (msg_content (ps_message response)))\<rparr>)))))))))"

definition bedrock_smoke_test ::
  "('w, 'j) platform \<Rightarrow> config_environment \<Rightarrow> environ \<Rightarrow> str \<Rightarrow> smoke_args \<Rightarrow> ('w, int \<times> smoke_report option) op" where
  "bedrock_smoke_test pf files env region args =
     smoke_main (\<lambda>catalogue. return_io (bedrock_invoke (bedrock_adapter pf region catalogue)))
       (pf_monotonic pf) files env args"

text \<open>Without \<open>--api-key\<close> the OpenAI client takes its key from the environment, and refuses to be made without one.\<close>

definition openai_smoke_test ::
  "('w, 'j) platform \<Rightarrow> config_environment \<Rightarrow> environ \<Rightarrow> str option \<Rightarrow> smoke_args \<Rightarrow> ('w, int \<times> smoke_report option) op" where
  "openai_smoke_test pf files env api_key args =
     smoke_main (\<lambda>catalogue.
         case (case api_key of Some k \<Rightarrow> Some k | None \<Rightarrow> env ''OPENAI_API_KEY'') of
           None \<Rightarrow> raise_io (Foreign_Error ''OpenAIError'')
         | Some k \<Rightarrow> return_io (openai_invoke (openai_adapter pf k catalogue)))
       (pf_monotonic pf) files env args"

section \<open>No model without confirmation\<close>

text \<open>The platform with other model clients.\<close>

definition other_models ::
  "(str \<Rightarrow> pyval \<Rightarrow> ('w, pyval) op) \<Rightarrow> (str \<Rightarrow> pyval \<Rightarrow> ('w, raw_stream) op) \<Rightarrow> (str \<Rightarrow> pyval \<Rightarrow> ('w, chat_completion) op) \<Rightarrow>
   (str \<Rightarrow> pyval \<Rightarrow> ('w, completion_chunk list \<times> exn option) op) \<Rightarrow> ('w, 'j) platform \<Rightarrow> ('w, 'j) platform" where
  "other_models call stream create create_stream pf =
     pf\<lparr>pf_converse := call, pf_converse_stream := stream, pf_create := create, pf_create_stream := create_stream\<rparr>"

lemma other_models_simps [simp]:
  "pf_now (other_models a b c d pf) = pf_now pf" "pf_time (other_models a b c d pf) = pf_time pf"
  "pf_monotonic (other_models a b c d pf) = pf_monotonic pf" "pf_uuid4_hex (other_models a b c d pf) = pf_uuid4_hex pf"
  "pf_print (other_models a b c d pf) = pf_print pf" "pf_secret_string (other_models a b c d pf) = pf_secret_string pf"
  "pf_decisions_table (other_models a b c d pf) = pf_decisions_table pf"
  "pf_idempotency_table (other_models a b c d pf) = pf_idempotency_table pf"
  "pf_dump_record (other_models a b c d pf) = pf_dump_record pf" "pf_validate_record (other_models a b c d pf) = pf_validate_record pf"
  by (simp_all add: other_models_def)

lemma fake_services_other_models:
  "build_fake_services (other_models a b c d pf) prefix files dir = build_fake_services pf prefix files dir"
  by (simp add: build_fake_services_def local_route_service_def local_idempotency_store_def)

lemma build_providers_other_models:
  assumes "build_providers pf env region cat s = (r, s')"
  shows "\<exists>r'. build_providers (other_models a b c d pf) env region cat s = (r', s') \<and>
    (case r of Inl e \<Rightarrow> r' = Inl e | Inr p \<Rightarrow> \<exists>p'. r' = Inr p')"
proof (cases "environ_truthy env ''OPENAI_API_KEY_SECRET_ARN''")
  case None
  then show ?thesis using assms by (auto simp: build_providers_def Let_def io_run return_io_def)
next
  case (Some arn)
  obtain x s1 where "on_world (pf_secret_string pf region arn) s = (x, s1)" by (rule prod.exhaust)
  then show ?thesis using assms Some by (cases x) (auto simp: build_providers_def Let_def bind_io_def return_io_def)
qed

lemma assemble_other_models:
  "\<exists>orc. assemble_services (other_models a b c d pf) env region cat rs ps' n m =
     (assemble_services pf env region cat rs ps n m)\<lparr>hs_orchestrator := orc\<rparr>"
  by (simp add: assemble_services_def Let_def process_decisions_def)

lemma route_service_other_models:
  "build_route_service (other_models a b c d pf) files dir cat = build_route_service pf files dir cat"
  by (simp add: build_route_service_def)

lemma build_services_other_models:
  assumes "build_services pf files env s = (r, s')"
  shows "\<exists>r'. build_services (other_models a b c d pf) files env s = (r', s') \<and>
    (case r of Inl e \<Rightarrow> r' = Inl e | Inr svc \<Rightarrow> \<exists>orc. r' = Inr (svc\<lparr>hs_orchestrator := orc\<rparr>))"
proof -
  define dir where "dir = environ_or env ''POLICIES_DIR'' ''policies''"
  define region where "region = environ_or env ''AWS_REGION'' ''us-east-1''"
  let ?pf = "other_models a b c d pf" and ?s = "s\<lparr>pc_policies := new_policy_repository, pc_health := Map.empty\<rparr>"
  show ?thesis
  proof (cases "local_file_model_catalogue files (path_join dir ''model_catalogue.yaml'')")
    case (Inl e)
    then show ?thesis using assms by (auto simp: build_services_def Let_def dir_def io_run)
  next
    case (Inr cat)
    note cat = this
    obtain x s1 where x: "build_providers pf env region cat ?s = (x, s1)" by (rule prod.exhaust)
    obtain x' where x': "build_providers ?pf env region cat ?s = (x', s1)"
      "case x of Inl e \<Rightarrow> x' = Inl e | Inr p \<Rightarrow> \<exists>p'. x' = Inr p'"
      using build_providers_other_models[OF x] by blast
    have run: "build_services pf' files env s =
        (case y of Inl e \<Rightarrow> (Inl e, s1)
         | Inr providers \<Rightarrow> (bind_r (environ_item env ''DECISIONS_TABLE_NAME'') (\<lambda>n.
             bind_r (environ_item env ''IDEMPOTENCY_TABLE_NAME'') (\<lambda>m.
             Inr (assemble_services pf' env region cat (build_route_service pf' files dir cat) providers n m))), s1))"
      if "build_providers pf' env region cat ?s = (y, s1)" for pf' :: "('a, 'b) platform" and y
      using that cat
      by (cases y; cases "environ_item env ''DECISIONS_TABLE_NAME''"; cases "environ_item env ''IDEMPOTENCY_TABLE_NAME''")
        (simp_all add: build_services_def Let_def dir_def region_def io_run fresh_objects_def)
    show ?thesis
      using run[OF x] run[OF x'(1)] x'(2) assms assemble_other_models[of a b c d pf env region cat]
      by (cases x; cases "environ_item env ''DECISIONS_TABLE_NAME''"; cases "environ_item env ''IDEMPOTENCY_TABLE_NAME''")
        (auto simp: route_service_other_models)
  qed
qed

text \<open>Only one route reaches the orchestrator.\<close>

lemma route_event_orchestrator:
  assumes "target \<noteq> (PV_Str ''POST'', PV_Str ''/v1/inference'')"
  shows "route_event henv (svc\<lparr>hs_orchestrator := orc\<rparr>) event i target = route_event henv svc event i target"
  using assms
  by (simp add: route_event_def handle_ready_def handle_routes_evaluate_def handle_models_def handle_get_decision_def
      cong: if_cong)

lemma dispatch_orchestrator:
  assumes "(m, r) \<noteq> model_invoking_route"
  shows "dispatch henv (build_event fr m r body ps qs u) (svc\<lparr>hs_orchestrator := orc\<rparr>) =
    dispatch henv (build_event fr m r body ps qs u) svc"
proof -
  let ?event = "build_event fr m r body ps qs u"
  have parts: "get_or ?event ''httpMethod'' (PV_Str []) = Inr (PV_Str m)" "get_or ?event ''resource'' (PV_Str []) = Inr (PV_Str r)"
    by (simp_all add: build_event_def)
  have "route_event henv (svc\<lparr>hs_orchestrator := orc\<rparr>) ?event i (PV_Str m, PV_Str r) = route_event henv svc ?event i (PV_Str m, PV_Str r)" for i
    using assms by (intro route_event_orchestrator) (auto simp: model_invoking_route_def)
  then show ?thesis by (simp add: dispatch_def parts bind_lift_Inr)
qed

lemma real_response_other_models:
  assumes "(m, r) \<noteq> model_invoking_route"
  shows "in_process (bind_io (build_services (other_models a b c d pf) files env) (dispatch henv (build_event fr m r body ps qs u))) =
    in_process (bind_io (build_services pf files env) (dispatch henv (build_event fr m r body ps qs u)))"
proof -
  let ?event = "build_event fr m r body ps qs u"
  have "bind_io (build_services (other_models a b c d pf) files env) (dispatch henv ?event) s =
      bind_io (build_services pf files env) (dispatch henv ?event) s" for s
  proof -
    obtain x s' where x: "build_services pf files env s = (x, s')" by (rule prod.exhaust)
    then show ?thesis
      using build_services_other_models[OF x, of a b c d]
      by (cases x) (auto simp: io_run dispatch_orchestrator[OF assms])
  qed
  then show ?thesis by (simp add: in_process_def)
qed

text \<open>
  C25. No tool calls a model without \<open>--confirm-cost\<close>: whatever the arguments, route and environment,
  without it the local run of the handler does the same on every possible model client, and both
  smoke tests stop at once with exit code 1.  On fake services the confirmation makes no difference.
\<close>

theorem no_model_call_without_confirmation:
  "(\<not> iva_confirm_cost args \<or> \<not> iva_use_real_services args \<longrightarrow>
      invoke_main (other_models a b c d pf) files env henv prefix read_json uuid args =
      invoke_main pf files env henv prefix read_json uuid args) \<and>
   (\<not> sma_confirm_cost sargs \<longrightarrow>
      bedrock_smoke_test pf files env region sargs w = (Inr (1, None), w) \<and>
      openai_smoke_test pf files env api_key sargs w = (Inr (1, None), w))"
proof (intro conjI impI)
  assume no: "\<not> iva_confirm_cost args \<or> \<not> iva_use_real_services args"
  have "local_response (other_models a b c d pf) files env henv prefix args (build_event fr (iva_method args) (iva_resource args) body ps qs u) =
      local_response pf files env henv prefix args (build_event fr (iva_method args) (iva_resource args) body ps qs u)"
    if "\<not> (iva_use_real_services args \<and> (iva_method args, iva_resource args) = model_invoking_route \<and> \<not> iva_confirm_cost args)"
    for fr body ps qs u
    using no that by (auto simp: local_response_def fake_services_other_models real_response_other_models)
  then show "invoke_main (other_models a b c d pf) files env henv prefix read_json uuid args =
      invoke_main pf files env henv prefix read_json uuid args"
    by (auto simp: invoke_main_def)
next
  assume "\<not> sma_confirm_cost sargs"
  then show "bedrock_smoke_test pf files env region sargs w = (Inr (1, None), w)"
    "openai_smoke_test pf files env api_key sargs w = (Inr (1, None), w)"
    by (simp_all add: bedrock_smoke_test_def openai_smoke_test_def smoke_main_def return_io_def)
qed

definition unconfirmed_args :: invoke_args where
  "unconfirmed_args =
     \<lparr>iva_method = ''GET'', iva_resource = ''/v1/models'', iva_body = None, iva_path_param = [], iva_query_param = [],
      iva_policies_dir = ''policies'', iva_use_real_services = True, iva_confirm_cost = False\<rparr>"

definition unconfirmed_smoke :: smoke_args where
  "unconfirmed_smoke =
     \<lparr>sma_model_alias = ''economical-text-primary'', sma_policies_dir = ''policies'', sma_confirm_cost = False,
      sma_hide_response = False\<rparr>"

theorem no_model_call_without_confirmation_witness:
  "invoke_main (other_models (\<lambda>r v. raise_io Value_Error) (\<lambda>r v. raise_io Value_Error) (\<lambda>r v. raise_io Value_Error)
       (\<lambda>r v. raise_io Value_Error) sample_platform) shipped_files sample_environ sample_env [] (\<lambda>p. Inl Value_Error)
       (return_io ''0a'') unconfirmed_args 0 =
     invoke_main sample_platform shipped_files sample_environ sample_env [] (\<lambda>p. Inl Value_Error)
       (return_io ''0a'') unconfirmed_args 0 \<and>
   bedrock_smoke_test sample_platform shipped_files [smoke_env_flag \<mapsto> ''true''] ''us-east-1'' unconfirmed_smoke 0 =
     (Inr (1, None), 0)"
proof -
  have "\<not> iva_confirm_cost unconfirmed_args" "\<not> sma_confirm_cost unconfirmed_smoke"
    by (simp_all add: unconfirmed_args_def unconfirmed_smoke_def)
  then show ?thesis using no_model_call_without_confirmation by metis
qed

section \<open>The event and the echo\<close>

text \<open>What the tool sends is what the handler reads: the body comes back as the value given.\<close>

theorem local_event_read_back:
  assumes "wire_value b" and "env_json_loads henv = json_loads"
  shows "bind_r (extract_body henv (build_event fr m r (Some b) ps qs u)) (env_json_loads henv) = Inr b"
proof -
  have "dumps_text fr '', '' '': '' b \<noteq> []" using dumps_first[OF assms(1), of fr "'', ''" "'': ''"] by auto
  then have "extract_body henv (build_event fr m r (Some b) ps qs u) = Inr (dumps_text fr '', '' '': '' b)"
    by (simp add: extract_body_def build_event_def)
  moreover have "json_loads (dumps_text fr '', '' '': '' b) = Inr b"
    using assms(1) by (intro json_round_trip) (simp_all add: separators_def is_ws_def)
  ultimately show ?thesis by (simp add: assms(2))
qed

text \<open>The echo provider answers every request the orchestrator can make, in one step and without a trace.\<close>

theorem echo_answers:
  assumes "pr_messages request \<noteq> []"
  shows "\<exists>response. echo_invoke prefix request s = (Inr response, s) \<and> ps_model_alias response = pr_model_alias request \<and>
    msg_content (ps_message response) = prefix @ py_repr (msg_content (last (pr_messages request)))"
  using assms by (simp add: echo_invoke_def Let_def mk_usage_def io_run return_io_def)

section \<open>Percentiles\<close>

lemma percentile_item:
  assumes "xs \<noteq> []" and "0 \<le> pct"
  obtains i where "i < length xs" "percentile xs pct = Inr (xs ! i)"
    "i = nat (min (int (length xs) - 1) (int_trunc (float_round (of_nat (length xs) * pct))))"
proof -
  define k where "k = int_trunc (float_round (of_nat (length xs) * pct))"
  define i where "i = min (int (length xs) - 1) k"
  have "0 \<le> k" using assms(2) by (simp add: k_def int_trunc_nonneg float_round_nonneg)
  moreover have "0 < int (length xs)" using assms(1) by simp
  ultimately have i: "0 \<le> i" "i < int (length xs)" unfolding i_def by linarith+
  have "percentile xs pct = list_item xs i" using assms(1) by (simp add: percentile_def i_def k_def)
  also have "\<dots> = Inr (xs ! nat i)" using i by (simp add: list_item_def Let_def)
  finally have item: "percentile xs pct = Inr (xs ! nat i)" .
  have "nat i < length xs" using i by linarith
  then show ?thesis using item by (rule that) (simp add: i_def k_def)
qed

theorem percentile_mono:
  assumes "sorted xs" and "0 \<le> p" and "p \<le> q" and "percentile xs p = Inr x" and "percentile xs q = Inr y"
  shows "x \<le> y"
proof (cases "xs = []")
  case False
  obtain i where i: "i < length xs" "percentile xs p = Inr (xs ! i)"
    "i = nat (min (int (length xs) - 1) (int_trunc (float_round (of_nat (length xs) * p))))"
    using False assms(2) by (rule percentile_item)
  obtain j where j: "j < length xs" "percentile xs q = Inr (xs ! j)"
    "j = nat (min (int (length xs) - 1) (int_trunc (float_round (of_nat (length xs) * q))))"
    using False order_trans[OF assms(2,3)] by (rule percentile_item)
  have "float_round (of_nat (length xs) * p) \<le> float_round (of_nat (length xs) * q)"
    using assms(2,3) by (intro float_round_mono) (simp_all add: mult_left_mono)
  then have "int_trunc (float_round (of_nat (length xs) * p)) \<le> int_trunc (float_round (of_nat (length xs) * q))"
    using float_round_nonneg[of "of_nat (length xs) * p"] assms(2) by (auto simp: int_trunc_def intro!: floor_mono)
  then have "i \<le> j" unfolding i(3) j(3) by (intro nat_mono) linarith
  then show ?thesis using sorted_nth_mono[OF assms(1)] i(2) j(1,2) assms(4,5) by auto
qed (use assms in \<open>auto simp: percentile_def\<close>)

section \<open>The report is in order\<close>

text \<open>One line per model, cheapest first.\<close>

theorem report_rows_sorted:
  assumes "report_rows models n w = Inr rows"
  shows "sorted (map (\<lambda>row. fst (snd row)) rows) \<and> mset (map fst rows) = mset (map md_model_alias models)"
proof -
  obtain costs where costs: "map_r (\<lambda>m. bind_r (estimate_cost_usd m w) (\<lambda>c. Inr (md_model_alias m, c))) models = Inr costs"
    and rows: "map (\<lambda>row. (fst row, fst (snd row))) rows = sort_key snd costs"
    using assms by (auto simp: report_rows_def Let_def comp_def case_prod_beta split: if_splits)
  have "list_all2 (\<lambda>m c. fst c = md_model_alias m) models costs"
    using costs unfolding map_r_Inr_iff by (elim list_all2_mono) auto
  then have names: "map fst costs = map md_model_alias models"
    by (induction rule: list_all2_induct) simp_all
  have "map (\<lambda>row. fst (snd row)) rows = map snd (sort_key snd costs)"
    "map fst rows = map fst (sort_key snd costs)"
    by (simp_all add: rows[symmetric] comp_def)
  then show ?thesis using names by (metis mset_map mset_sort sorted_sort_key)
qed

end
