(* ===== verification/Spans.thy ===== *)
theory Spans
  imports Relational Publishers Json_Text
begin

text \<open>
  The spans of ADR-031: \<open>evaluate\<close> of \<open>application/route_evaluation_service.py\<close> and \<open>invoke\<close> with the
  attempts of \<open>application/invocation_orchestrator.py\<close> as they run under a tracer.  The tracer is a
  parameter with a state of its own; \<open>recording_tracer\<close> states what OpenTelemetry documents: starting
  a span makes it the current one, a child of the one before; ending it notes the exception, if
  any, and hands it to the exporter; none of this raises.  The theorem is that tracing changes
  nothing else, and what the spans tell.  The span around a stream is not modelled.
\<close>

section \<open>The tracer\<close>

record 't tracer =
  tcr_start :: "str \<Rightarrow> ('t, unit) op"
  tcr_attribute :: "str \<Rightarrow> pyval \<Rightarrow> ('t, unit) op"
  tcr_end :: "exn option \<Rightarrow> ('t, unit) op"

type_synonym ('s, 't, 'a) traced = "('s \<times> 't, 'a) op"

definition on_trace :: "('t, 'a) op \<Rightarrow> ('s, 't, 'a) traced" where
  "on_trace m = on_part snd (\<lambda>t p. (fst p, t)) m"

text \<open>\<open>span.set_attribute\<close> on the current span, and \<open>with tracer.start_as_current_span(name)\<close>.\<close>

definition set_attribute :: "'t tracer \<Rightarrow> str \<Rightarrow> pyval \<Rightarrow> ('s, 't, unit) traced" where
  "set_attribute tr k v = on_trace (tcr_attribute tr k v)"

definition with_span :: "'t tracer \<Rightarrow> str \<Rightarrow> ('s, 't, 'a) traced \<Rightarrow> ('s, 't, 'a) traced" where
  "with_span tr name body =
     bind_io (on_trace (tcr_start tr name)) (\<lambda>_.
     bind_io (attempt_io body) (\<lambda>r.
     bind_io (on_trace (tcr_end tr (case r of Inl e \<Rightarrow> Some e | Inr _ \<Rightarrow> None))) (\<lambda>_. lift_r r)))"

text \<open>Code without spans of its own.\<close>

definition untraced :: "('s, 'a) op \<Rightarrow> ('s, 't, 'a) traced" where
  "untraced m = on_part fst (\<lambda>s p. (s, snd p)) m"

section \<open>The code under the tracer\<close>

definition alias_value :: "str option \<Rightarrow> pyval" where
  "alias_value a = PV_Str (case a of None \<Rightarrow> [] | Some x \<Rightarrow> x)"

definition traced_evaluate :: "'t tracer \<Rightarrow> 's route_evaluation_service \<Rightarrow> inference_request \<Rightarrow> ('s, 't, routing_decision) traced" where
  "traced_evaluate tr svc request = with_span tr ''model_router.evaluate_route''
     (bind_io (set_attribute tr ''model_router.application_id'' (PV_Str (ir_application_id request))) (\<lambda>_.
      bind_io (set_attribute tr ''model_router.capability'' (PV_Str (req_capability (ir_requirements request)))) (\<lambda>_.
      bind_io (untraced (evaluate_route svc request)) (\<lambda>decision.
      bind_io (set_attribute tr ''model_router.decision_id'' (PV_Str (dec_decision_id decision))) (\<lambda>_.
      bind_io (set_attribute tr ''model_router.selected_model_alias'' (alias_value (dec_selected_model_alias decision))) (\<lambda>_.
      bind_io (set_attribute tr ''model_router.reason_codes''
        (PV_List (map (\<lambda>c. PV_Str (routing_reason_code_value c)) (dec_reason_codes decision)))) (\<lambda>_.
      return_io decision)))))))"

definition traced_close_attempt ::
  "'t tracer \<Rightarrow> 's orchestrator \<Rightarrow> str \<Rightarrow> invocation_attempt_status \<Rightarrow> rat \<Rightarrow> ('s, 't, invocation_attempt) traced" where
  "traced_close_attempt tr orc candidate_alias status started_at =
     bind_io (untraced (orc_monotonic orc)) (\<lambda>ended_at.
     bind_io (set_attribute tr ''model_router.attempt_status'' (PV_Str (invocation_attempt_status_value status))) (\<lambda>_.
     bind_io (set_attribute tr ''model_router.latency_ms'' (PV_Int (elapsed_ms started_at ended_at))) (\<lambda>_.
     bind_io (lift_r (mk_invocation_attempt candidate_alias status (elapsed_ms started_at ended_at))) (\<lambda>att.
     bind_io (untraced (record_health_outcome orc candidate_alias status)) (\<lambda>_.
     return_io att)))))"

definition traced_attempt ::
  "'t tracer \<Rightarrow> 's orchestrator \<Rightarrow> inference_request \<Rightarrow> routing_decision \<Rightarrow> effective_requirements \<Rightarrow> str \<Rightarrow>
   ('s, 't, attempt_step) traced" where
  "traced_attempt tr orc request decision effective candidate =
     bind_io (lift_r (make_provider_request request effective candidate)) (\<lambda>provider_request.
     with_span tr ''model_router.invoke_attempt''
       (bind_io (set_attribute tr ''model_router.model_alias'' (PV_Str candidate)) (\<lambda>_.
        bind_io (untraced (orc_monotonic orc)) (\<lambda>started_at.
        bind_io (attempt_io (untraced (mp_invoke (orc_model_provider orc) provider_request))) (\<lambda>outcome.
          case outcome of
            Inr response \<Rightarrow>
              bind_io (traced_close_attempt tr orc candidate Attempt_SUCCEEDED started_at) (\<lambda>att.
              return_io (Attempt_Break att
                (if Some candidate \<noteq> dec_selected_model_alias decision then [FALLBACK_SELECTED] else [])
                (Some response)))
          | Inl e \<Rightarrow>
              (case provider_error_category_of e of
                 None \<Rightarrow> raise_io e
               | Some category \<Rightarrow>
                   bind_io (traced_close_attempt tr orc candidate (status_for_provider_error_category category) started_at) (\<lambda>att.
                   return_io
                     (if category = Category_PERMANENT
                      then Attempt_Break att (error_codes category) None
                      else Attempt_Continue att (error_codes category)))))))))"

fun traced_chain ::
  "'t tracer \<Rightarrow> 's orchestrator \<Rightarrow> inference_request \<Rightarrow> routing_decision \<Rightarrow> effective_requirements \<Rightarrow> str list \<Rightarrow>
   invocation_attempt list \<Rightarrow> routing_reason_code list \<Rightarrow> ('s, 't, progress) traced" where
  "traced_chain tr orc request decision effective [] attempts codes =
     return_io \<lparr>prg_attempts = attempts, prg_reason_codes = codes, prg_response = None,
                prg_succeeded_alias = None\<rparr>"
| "traced_chain tr orc request decision effective (candidate # chain) attempts codes =
     bind_io (traced_attempt tr orc request decision effective candidate) (\<lambda>step.
       case step of
         Attempt_Continue att extra \<Rightarrow>
           traced_chain tr orc request decision effective chain (attempts @ [att]) (codes @ extra)
       | Attempt_Break att extra response \<Rightarrow>
           return_io
             \<lparr>prg_attempts = attempts @ [att], prg_reason_codes = codes @ extra,
              prg_response = response,
              prg_succeeded_alias = (if response = None then None else Some candidate)\<rparr>)"

definition traced_invoke_uncached :: "'t tracer \<Rightarrow> 's orchestrator \<Rightarrow> inference_request \<Rightarrow> ('s, 't, inference_result) traced" where
  "traced_invoke_uncached tr orc request =
     bind_io (traced_evaluate tr (orc_route_evaluation_service orc) request) (\<lambda>decision.
     bind_io (untraced (rp_resolve (orc_policy_repository orc) (ir_application_id request))) (\<lambda>policy.
       let chain = build_candidate_chain decision (pol_fallback_policy policy)
       in if chain = []
          then untraced (finish orc \<lparr>res_decision = decision, res_response = None, res_invocation_attempts = []\<rparr>)
          else
            let effective = resolve_effective_requirements (ir_requirements request) policy
            in bind_io (traced_chain tr orc request decision effective chain [] []) (\<lambda>p.
               bind_io (lift_r (aggregate_decision decision (prg_succeeded_alias p) (prg_reason_codes p)))
                 (\<lambda>final_decision.
                   untraced (finish orc
                     \<lparr>res_decision = final_decision,
                      res_response = (if prg_succeeded_alias p \<noteq> None then prg_response p else None),
                      res_invocation_attempts = prg_attempts p\<rparr>)))))"

definition traced_run_reserved ::
  "'t tracer \<Rightarrow> 's orchestrator \<Rightarrow> inference_request \<Rightarrow> str \<Rightarrow> 's idempotency_store \<Rightarrow> ('s, 't, inference_result) traced" where
  "traced_run_reserved tr orc request key store =
     (let request_hash = compute_request_hash request; app = ir_application_id request
      in bind_io (attempt_io (traced_invoke_uncached tr orc request)) (\<lambda>outcome.
           case outcome of
             Inl e \<Rightarrow> bind_io (untraced (ids_release store app key)) (\<lambda>_. raise_io e)
           | Inr result \<Rightarrow>
               bind_io (untraced (rp_resolve (orc_policy_repository orc) app)) (\<lambda>policy.
               bind_io (untraced (ids_complete store app key request_hash result
                          (idp_allow_response_caching (pol_idempotency_policy policy))
                          (idp_retention_seconds (pol_idempotency_policy policy)))) (\<lambda>_.
               return_io result))))"

definition traced_with_idempotency ::
  "'t tracer \<Rightarrow> 's orchestrator \<Rightarrow> inference_request \<Rightarrow> str \<Rightarrow> 's idempotency_store \<Rightarrow> ('s, 't, inference_result) traced" where
  "traced_with_idempotency tr orc request key store =
     bind_io (untraced (ids_reserve store (ir_application_id request) key (compute_request_hash request))) (\<lambda>reservation.
       case rsv_outcome reservation of
         Outcome_CONFLICT \<Rightarrow> raise_io (IdempotencyConflictError (conflict_message (py_repr key)))
       | Outcome_IN_PROGRESS \<Rightarrow> raise_io (IdempotencyInProgressError (in_progress_message (py_repr key)))
       | Outcome_COMPLETED \<Rightarrow>
           (case rsv_cached_result reservation of
              None \<Rightarrow> raise_io Assertion_Error
            | Some result \<Rightarrow> return_io result)
       | Outcome_NEW \<Rightarrow> traced_run_reserved tr orc request key store)"

definition traced_invoke :: "'t tracer \<Rightarrow> 's orchestrator \<Rightarrow> inference_request \<Rightarrow> ('s, 't, inference_result) traced" where
  "traced_invoke tr orc request = with_span tr ''model_router.invoke''
     (bind_io (set_attribute tr ''model_router.application_id'' (PV_Str (ir_application_id request))) (\<lambda>_.
      bind_io (set_attribute tr ''model_router.has_idempotency_key'' (PV_Bool (ir_idempotency_key request \<noteq> None))) (\<lambda>_.
      bind_io (case (ir_idempotency_key request, orc_idempotency_store orc) of
                 (Some key, Some store) \<Rightarrow> traced_with_idempotency tr orc request key store
               | _ \<Rightarrow> traced_invoke_uncached tr orc request) (\<lambda>result.
      bind_io (set_attribute tr ''model_router.decision_id'' (PV_Str (dec_decision_id (res_decision result)))) (\<lambda>_.
      bind_io (set_attribute tr ''model_router.selected_model_alias''
        (alias_value (dec_selected_model_alias (res_decision result)))) (\<lambda>_.
      bind_io (set_attribute tr ''model_router.fallback_used'' (PV_Bool (dec_fallback_used (res_decision result)))) (\<lambda>_.
      bind_io (set_attribute tr ''model_router.response_succeeded'' (PV_Bool (res_response result \<noteq> None))) (\<lambda>_.
      return_io result))))))))"

section \<open>What OpenTelemetry documents\<close>

record span =
  sp_name :: str
  sp_parent :: "str option"
  sp_attributes :: "(str \<times> pyval) list"
  sp_exception :: "exn option"

text \<open>The spans that are open, the current one first, and those handed to the exporter, oldest first.\<close>

record trace =
  tr_open :: "span list"
  tr_finished :: "span list"

definition parent_of :: "trace \<Rightarrow> str option" where
  "parent_of t = (case tr_open t of [] \<Rightarrow> None | sp # _ \<Rightarrow> Some (sp_name sp))"

fun annotate :: "(str \<times> pyval) list \<Rightarrow> span list \<Rightarrow> span list" where
  "annotate kvs [] = []"
| "annotate kvs (sp # spans) = sp\<lparr>sp_attributes := foldl (\<lambda>as (k, v). dict_set as k v) (sp_attributes sp) kvs\<rparr> # spans"

definition open_span :: "str \<Rightarrow> trace \<Rightarrow> trace" where
  "open_span name t =
     t\<lparr>tr_open := \<lparr>sp_name = name, sp_parent = parent_of t, sp_attributes = [], sp_exception = None\<rparr> # tr_open t\<rparr>"

definition close_span :: "exn option \<Rightarrow> trace \<Rightarrow> trace" where
  "close_span e t =
     (case tr_open t of
        [] \<Rightarrow> t
      | sp # rest \<Rightarrow> t\<lparr>tr_open := rest, tr_finished := tr_finished t @ [sp\<lparr>sp_exception := e\<rparr>]\<rparr>)"

text \<open>
  The contract of the tracer, seen through \<open>view\<close>: its operations return, and do to the spans what
  the names say.
\<close>

locale recording_tracer =
  fixes tr :: "'t tracer" and view :: "'t \<Rightarrow> trace"
  assumes starts: "\<exists>t'. tcr_start tr name t = (Inr (), t') \<and> view t' = open_span name (view t)"
    and annotates: "\<exists>t'. tcr_attribute tr k v t = (Inr (), t') \<and> view t' = (view t)\<lparr>tr_open := annotate [(k, v)] (tr_open (view t))\<rparr>"
    and ends: "\<exists>t'. tcr_end tr e t = (Inr (), t') \<and> view t' = close_span e (view t)"

section \<open>The trace changes nothing else\<close>

definition erases :: "'s \<times> 't \<Rightarrow> 's \<Rightarrow> bool" where
  "erases p s \<longleftrightarrow> fst p = s"

lemma erase_untraced: "rel_io erases (=) (untraced m) m"
  by (simp add: rel_io_def untraced_def on_part_def erases_def split_beta sum.rel_refl)

context recording_tracer
begin

lemma erase_attribute:
  fixes f :: "unit \<Rightarrow> ('s, 't, 'a) traced" and m :: "('s, 'b) op"
  assumes "rel_io erases Q (f ()) m"
  shows "rel_io erases Q (bind_io (set_attribute tr k v) f) m"
proof (rule rel_ioI)
  fix p :: "'s \<times> 't" and s
  assume "erases p s"
  moreover obtain t' where "tcr_attribute tr k v (snd p) = (Inr (), t')" using annotates by blast
  ultimately show "rel_sum (=) Q (fst (bind_io (set_attribute tr k v) f p)) (fst (m s)) \<and>
      erases (snd (bind_io (set_attribute tr k v) f p)) (snd (m s))"
    using rel_ioD[OF assms, of "(s, t')" s] by (simp add: bind_io_def set_attribute_def on_trace_def on_part_def erases_def)
qed

lemma with_span_cases:
  fixes body :: "('s, 't, 'a) traced"
  obtains t1 q s' t2 t' where "tcr_start tr name t = (Inr (), t1)" "view t1 = open_span name (view t)"
    "body (s, t1) = (q, (s', t2))" "tcr_end tr (case q of Inl e \<Rightarrow> Some e | Inr _ \<Rightarrow> None) t2 = (Inr (), t')"
    "view t' = close_span (case q of Inl e \<Rightarrow> Some e | Inr _ \<Rightarrow> None) (view t2)"
    "with_span tr name body (s, t) = (q, (s', t'))"
proof -
  obtain t1 where t1: "tcr_start tr name t = (Inr (), t1)" "view t1 = open_span name (view t)" using starts by blast
  obtain q s' t2 where q: "body (s, t1) = (q, (s', t2))" by (metis prod.exhaust)
  obtain t' where t': "tcr_end tr (case q of Inl e \<Rightarrow> Some e | Inr _ \<Rightarrow> None) t2 = (Inr (), t')"
    "view t' = close_span (case q of Inl e \<Rightarrow> Some e | Inr _ \<Rightarrow> None) (view t2)" using ends by blast
  have "with_span tr name body (s, t) = (q, (s', t'))"
    using t1(1) q t'(1) by (cases q) (simp_all add: with_span_def bind_io_def attempt_io_def on_trace_def on_part_def lift_r_def)
  then show thesis using that t1 q t' by blast
qed

lemma erase_span:
  fixes body :: "('s, 't, 'a) traced" and m :: "('s, 'b) op"
  assumes "rel_io erases Q body m"
  shows "rel_io erases Q (with_span tr name body) m"
proof (rule rel_ioI)
  fix p :: "'s \<times> 't" and s
  assume p: "erases p s"
  obtain t1 q s' t2 t' where "body (s, t1) = (q, (s', t2))" "with_span tr name body (s, snd p) = (q, (s', t'))"
    by (rule with_span_cases)
  then show "rel_sum (=) Q (fst (with_span tr name body p)) (fst (m s)) \<and> erases (snd (with_span tr name body p)) (snd (m s))"
    using rel_ioD[OF assms, of "(s, t1)" s] p by (cases p) (simp add: erases_def)
qed

lemmas erasing = erase_span erase_attribute rel_return rel_raise rel_bind_same rel_lift_same erase_untraced
  rel_if rel_option_case

lemma evaluate_erases: "rel_io erases (=) (traced_evaluate tr svc request) (evaluate_route svc request)"
proof -
  have "evaluate_route svc request = bind_io (evaluate_route svc request) return_io"
    by (auto simp: bind_io_def return_io_def split: prod.splits sum.splits)
  moreover have "rel_io erases (=) (traced_evaluate tr svc request) (bind_io (evaluate_route svc request) return_io)"
    unfolding traced_evaluate_def by (intro erasing refl)
  ultimately show ?thesis by simp
qed

lemma close_erases: "rel_io erases (=) (traced_close_attempt tr orc a st t) (close_attempt orc a st t)"
  unfolding traced_close_attempt_def close_attempt_def by (intro erasing refl)

lemma attempt_erases: "rel_io erases (=) (traced_attempt tr orc request d eff a) (invoke_attempt orc request d eff a)"
  unfolding traced_attempt_def invoke_attempt_def
  by (intro rel_bind_same rel_lift_same erase_span erase_attribute erase_untraced rel_attempt_bind[OF erase_untraced])
    (auto intro!: erasing close_erases)

lemma chain_erases: "rel_io erases (=) (traced_chain tr orc request d eff chain ats codes) (attempt_chain orc request d eff chain ats codes)"
  by (induction chain arbitrary: ats codes)
    (auto intro!: rel_return rel_bind_same[OF attempt_erases] split: attempt_step.split)

lemma uncached_erases: "rel_io erases (=) (traced_invoke_uncached tr orc request) (invoke_uncached orc request)"
  unfolding traced_invoke_uncached_def invoke_uncached_def Let_def
  by (intro rel_bind_same[OF evaluate_erases] rel_bind_same[OF erase_untraced] rel_if erase_untraced
      rel_bind_same[OF chain_erases] rel_bind_same[OF rel_lift_same])

lemma reserved_erases: "rel_io erases (=) (traced_run_reserved tr orc request key store) (run_reserved orc request key store)"
  unfolding traced_run_reserved_def run_reserved_def Let_def
  by (intro rel_attempt_bind[OF uncached_erases]) (auto intro!: erasing)

lemma idempotency_erases:
  "rel_io erases (=) (traced_with_idempotency tr orc request key store) (invoke_with_idempotency orc request key store)"
  unfolding traced_with_idempotency_def invoke_with_idempotency_def
  by (rule rel_bind_same[OF erase_untraced])
    (auto intro!: erasing reserved_erases split: idempotency_outcome.split)

lemma invoke_erases: "rel_io erases (=) (traced_invoke tr orc request) (invoke orc request)"
proof -
  have "invoke orc request = bind_io (invoke orc request) return_io"
    by (auto simp: bind_io_def return_io_def split: prod.splits sum.splits)
  moreover have "rel_io erases (=) (traced_invoke tr orc request) (bind_io (invoke orc request) return_io)"
    unfolding traced_invoke_def invoke_def
    by (intro erase_span erase_attribute rel_bind_same; (intro erasing refl)?)
      (auto intro: idempotency_erases uncached_erases split: option.split)
  ultimately show ?thesis by simp
qed

end

section \<open>What the trace tells\<close>

definition extended :: "trace \<Rightarrow> (str \<times> pyval) list \<Rightarrow> span list \<Rightarrow> trace" where
  "extended t kvs spans = \<lparr>tr_open = annotate kvs (tr_open t), tr_finished = tr_finished t @ spans\<rparr>"

lemma annotate_nil [simp]: "annotate [] spans = spans"
  by (cases spans) simp_all

lemma annotate_annotate: "annotate kvs' (annotate kvs spans) = annotate (kvs @ kvs') spans"
  by (cases spans) simp_all

lemma extended_nil [simp]: "extended t [] [] = t"
  by (simp add: extended_def)

lemma extended_extended [simp]: "extended (extended t kvs spans) kvs' spans' = extended t (kvs @ kvs') (spans @ spans')"
  by (simp add: extended_def annotate_annotate)

lemma parent_extended [simp]: "parent_of (extended t kvs spans) = parent_of t"
  by (cases "tr_open t") (simp_all add: parent_of_def extended_def)

definition closed_span :: "str \<Rightarrow> str option \<Rightarrow> (str \<times> pyval) list \<Rightarrow> span" where
  "closed_span name par kvs = \<lparr>sp_name = name, sp_parent = par,
     sp_attributes = foldl (\<lambda>as (k, v). dict_set as k v) [] kvs, sp_exception = None\<rparr>"

lemma close_extended:
  "close_span e (extended (open_span name t) kvs spans) =
     \<lparr>tr_open = tr_open t, tr_finished = tr_finished t @ spans @ [(closed_span name (parent_of t) kvs)\<lparr>sp_exception := e\<rparr>]\<rparr>"
  by (simp add: close_span_def open_span_def extended_def closed_span_def)

text \<open>
  \<open>traces view par m R\<close>: run under a current span named \<open>par\<close>, the operation \<open>m\<close> ends under the
  same span; it annotates it with some attributes, finishes some spans, and when it returns \<open>x\<close>
  these attributes and spans satisfy \<open>R x\<close>.
\<close>

definition traces ::
  "('t \<Rightarrow> trace) \<Rightarrow> str option \<Rightarrow> ('s, 't, 'a) traced \<Rightarrow> ('a \<Rightarrow> (str \<times> pyval) list \<Rightarrow> span list \<Rightarrow> bool) \<Rightarrow> bool" where
  "traces view par m R \<longleftrightarrow> (\<forall>s t r s' t'. parent_of (view t) = par \<longrightarrow> m (s, t) = (r, (s', t')) \<longrightarrow>
     (\<exists>kvs spans. view t' = extended (view t) kvs spans \<and> (\<forall>x. r = Inr x \<longrightarrow> R x kvs spans)))"

lemma tracesI:
  assumes "\<And>s t r s' t'. parent_of (view t) = par \<Longrightarrow> m (s, t) = (r, (s', t')) \<Longrightarrow>
    \<exists>kvs spans. view t' = extended (view t) kvs spans \<and> (\<forall>x. r = Inr x \<longrightarrow> R x kvs spans)"
  shows "traces view par m R"
  using assms by (simp add: traces_def)

lemma tracesE:
  assumes "traces view par m R" and "parent_of (view t) = par" and "m (s, t) = (r, (s', t'))"
  obtains kvs spans where "view t' = extended (view t) kvs spans" "\<forall>x. r = Inr x \<longrightarrow> R x kvs spans"
  using assms unfolding traces_def by blast

lemma traces_mono:
  assumes "traces view par m P" and "\<And>x kvs spans. P x kvs spans \<Longrightarrow> R x kvs spans"
  shows "traces view par m R"
proof (rule tracesI)
  fix s t r s' t'
  assume "parent_of (view t) = par" "m (s, t) = (r, (s', t'))"
  with assms(1) obtain kvs spans where "view t' = extended (view t) kvs spans" "\<forall>x. r = Inr x \<longrightarrow> P x kvs spans"
    by (rule tracesE)
  then show "\<exists>kvs spans. view t' = extended (view t) kvs spans \<and> (\<forall>x. r = Inr x \<longrightarrow> R x kvs spans)"
    by (intro exI[of _ kvs] exI[of _ spans]) (simp add: assms(2))
qed

lemma traces_untraced:
  fixes view :: "'t \<Rightarrow> trace"
  assumes "\<And>s x s'. m s = (Inr x, s') \<Longrightarrow> R x [] []"
  shows "traces view par (untraced m) R"
proof (rule tracesI)
  fix s r s' and t t' :: 't
  assume "untraced m (s, t) = (r, (s', t'))"
  then have "m s = (r, s')" "t' = t" by (auto simp: untraced_def on_part_def split: prod.splits)
  then show "\<exists>kvs spans. view t' = extended (view t) kvs spans \<and> (\<forall>x. r = Inr x \<longrightarrow> R x kvs spans)"
    by (intro exI[of _ "[]"]) (auto intro: assms)
qed

lemma traces_lift:
  fixes r :: "'a result"
  assumes "\<And>x. r = Inr x \<Longrightarrow> R x [] []"
  shows "traces view par (lift_r r :: ('s, 't, 'a) traced) R"
proof -
  have "traces view par (untraced (lift_r r :: ('s, 'a) op)) R" by (rule traces_untraced) (simp add: lift_r_inv assms)
  moreover have "untraced (lift_r r :: ('s, 'a) op) = (lift_r r :: ('s, 't, 'a) traced)" by (auto simp: untraced_def on_part_def lift_r_def)
  ultimately show ?thesis by simp
qed

lemma traces_return: "R x [] [] \<Longrightarrow> traces view par (return_io x) R"
  using traces_lift[of "Inr x" R view par] by (simp add: return_io_def lift_r_def)

lemma traces_raise: "traces view par (raise_io e) R"
  using traces_lift[of "Inl e" R view par] by (simp add: raise_io_def lift_r_def)

lemma traces_bind:
  assumes "traces view par m (\<lambda>x kvs spans. traces view par (f x) (\<lambda>y kvs' spans'. R y (kvs @ kvs') (spans @ spans')))"
  shows "traces view par (bind_io m f) R"
proof (rule tracesI)
  fix s t r s' t'
  assume par: "parent_of (view t) = par" and run: "bind_io m f (s, t) = (r, (s', t'))"
  obtain q s1 t1 where q: "m (s, t) = (q, (s1, t1))" by (metis prod.exhaust)
  from assms par q obtain kvs spans where t1: "view t1 = extended (view t) kvs spans"
    and rest: "\<forall>x. q = Inr x \<longrightarrow> traces view par (f x) (\<lambda>y kvs' spans'. R y (kvs @ kvs') (spans @ spans'))"
    by (rule tracesE)
  show "\<exists>kvs spans. view t' = extended (view t) kvs spans \<and> (\<forall>x. r = Inr x \<longrightarrow> R x kvs spans)"
  proof (cases q)
    case (Inl e)
    then have "t' = t1" "r = Inl e" using run q by (simp_all add: bind_io_def)
    then show ?thesis using t1 by blast
  next
    case (Inr x)
    then have "f x (s1, t1) = (r, (s', t'))" using run q by (simp add: bind_io_def)
    moreover have "parent_of (view t1) = par" using par by (simp add: t1)
    ultimately obtain kvs' spans' where "view t' = extended (view t1) kvs' spans'"
      "\<forall>y. r = Inr y \<longrightarrow> R y (kvs @ kvs') (spans @ spans')"
      using tracesE[OF rest[rule_format, OF Inr]] by blast
    then show ?thesis unfolding t1 by (intro exI[of _ "kvs @ kvs'"] exI[of _ "spans @ spans'"]) simp
  qed
qed

lemma traces_attempt:
  assumes "traces view par m P" and "\<And>x kvs spans. P x kvs spans \<Longrightarrow> R (Inr x) kvs spans" and "\<And>e kvs spans. R (Inl e) kvs spans"
  shows "traces view par (attempt_io m) R"
proof (rule tracesI)
  fix s t r s' t'
  assume par: "parent_of (view t) = par" and "attempt_io m (s, t) = (r, (s', t'))"
  then obtain q where q: "m (s, t) = (q, (s', t'))" and r: "r = Inr q" by (auto simp: attempt_io_def split: prod.splits)
  from assms(1) par q obtain kvs spans where t': "view t' = extended (view t) kvs spans" and "\<forall>x. q = Inr x \<longrightarrow> P x kvs spans"
    by (rule tracesE)
  then have "R q kvs spans" using assms(2,3) by (cases q) simp_all
  then show "\<exists>kvs spans. view t' = extended (view t) kvs spans \<and> (\<forall>x. r = Inr x \<longrightarrow> R x kvs spans)"
    using t' r by blast
qed

lemma traces_try_untraced:
  fixes view :: "'t \<Rightarrow> trace" and m :: "('s, 'a) op"
  assumes "\<And>x. R x [] []"
  shows "traces view par (attempt_io (untraced m)) R"
proof -
  have "attempt_io (untraced m) = (untraced (attempt_io m) :: ('s, 't, exn + 'a) traced)"
    by (auto simp: untraced_def on_part_def attempt_io_def split: prod.split)
  then show ?thesis by (simp add: traces_untraced assms)
qed

context recording_tracer
begin

lemma traces_attribute:
  assumes "R () [(k, v)] []"
  shows "traces view par (set_attribute tr k v :: ('s, 't, unit) traced) R"
proof (rule tracesI)
  fix s s' :: 's and t r t'
  assume run: "set_attribute tr k v (s, t) = (r, (s', t'))"
  obtain t1 where t1: "tcr_attribute tr k v t = (Inr (), t1)" "view t1 = (view t)\<lparr>tr_open := annotate [(k, v)] (tr_open (view t))\<rparr>"
    using annotates by blast
  then have "r = Inr ()" "view t' = extended (view t) [(k, v)] []"
    using run by (simp_all add: set_attribute_def on_trace_def on_part_def extended_def)
  then show "\<exists>kvs spans. view t' = extended (view t) kvs spans \<and> (\<forall>x. r = Inr x \<longrightarrow> R x kvs spans)"
    using assms by blast
qed

text \<open>A span is closed on every exit, with the exception if there is one.\<close>

lemma with_span_run:
  fixes body :: "('s, 't, 'a) traced"
  assumes "traces view (Some name) body R" and run: "with_span tr name body (s, t) = (r, (s', t'))"
  obtains kvs spans where
    "view t' = \<lparr>tr_open = tr_open (view t), tr_finished = tr_finished (view t) @ spans @
       [(closed_span name (parent_of (view t)) kvs)\<lparr>sp_exception := (case r of Inl e \<Rightarrow> Some e | Inr _ \<Rightarrow> None)\<rparr>]\<rparr>"
    "\<forall>x. r = Inr x \<longrightarrow> R x kvs spans"
proof -
  obtain t1 q u t2 t3 where t1: "view t1 = open_span name (view t)" and q: "body (s, t1) = (q, (u, t2))"
    and t3: "view t3 = close_span (case q of Inl e \<Rightarrow> Some e | Inr _ \<Rightarrow> None) (view t2)"
    and "with_span tr name body (s, t) = (q, (u, t3))"
    by (rule with_span_cases)
  then have same: "r = q" "t' = t3" using run by simp_all
  have "parent_of (view t1) = Some name" by (simp add: t1 parent_of_def open_span_def)
  from assms(1) this q obtain kvs spans where t2: "view t2 = extended (view t1) kvs spans" and "\<forall>x. q = Inr x \<longrightarrow> R x kvs spans"
    by (rule tracesE)
  then show thesis using that t3 unfolding same t2 t1 close_extended by blast
qed

lemma traces_span:
  fixes body :: "('s, 't, 'a) traced"
  assumes "traces view (Some name) body (\<lambda>x kvs spans. R x [] (spans @ [closed_span name par kvs]))"
  shows "traces view par (with_span tr name body) R"
proof (rule tracesI)
  fix s t r s' t'
  assume par: "parent_of (view t) = par" and run: "with_span tr name body (s, t) = (r, (s', t'))"
  from with_span_run[OF assms run] obtain kvs spans where
    t': "view t' = \<lparr>tr_open = tr_open (view t), tr_finished = tr_finished (view t) @ spans @
       [(closed_span name (parent_of (view t)) kvs)\<lparr>sp_exception := (case r of Inl e \<Rightarrow> Some e | Inr _ \<Rightarrow> None)\<rparr>]\<rparr>"
    and R: "\<forall>x. r = Inr x \<longrightarrow> R x [] (spans @ [closed_span name par kvs])" by blast
  have "(closed_span name par kvs)\<lparr>sp_exception := None\<rparr> = closed_span name par kvs" by (simp add: closed_span_def)
  then show "\<exists>kvs spans. view t' = extended (view t) kvs spans \<and> (\<forall>x. r = Inr x \<longrightarrow> R x kvs spans)"
    using t' R par by (intro exI[of _ "[]"] exI) (auto simp: extended_def)
qed

end

section \<open>The spans of an invocation\<close>

definition route_span :: "str option \<Rightarrow> inference_request \<Rightarrow> routing_decision \<Rightarrow> span" where
  "route_span par request d = closed_span ''model_router.evaluate_route'' par
     [(''model_router.application_id'', PV_Str (ir_application_id request)),
      (''model_router.capability'', PV_Str (req_capability (ir_requirements request))),
      (''model_router.decision_id'', PV_Str (dec_decision_id d)),
      (''model_router.selected_model_alias'', alias_value (dec_selected_model_alias d)),
      (''model_router.reason_codes'', PV_List (map (\<lambda>c. PV_Str (routing_reason_code_value c)) (dec_reason_codes d)))]"

definition attempt_span :: "str option \<Rightarrow> invocation_attempt \<Rightarrow> span" where
  "attempt_span par att = closed_span ''model_router.invoke_attempt'' par
     [(''model_router.model_alias'', PV_Str (at_model_alias att)),
      (''model_router.attempt_status'', PV_Str (invocation_attempt_status_value (at_status att))),
      (''model_router.latency_ms'', PV_Int (at_latency_ms att))]"

definition invoke_span :: "str option \<Rightarrow> inference_request \<Rightarrow> inference_result \<Rightarrow> span" where
  "invoke_span par request result = closed_span ''model_router.invoke'' par
     [(''model_router.application_id'', PV_Str (ir_application_id request)),
      (''model_router.has_idempotency_key'', PV_Bool (ir_idempotency_key request \<noteq> None)),
      (''model_router.decision_id'', PV_Str (dec_decision_id (res_decision result))),
      (''model_router.selected_model_alias'', alias_value (dec_selected_model_alias (res_decision result))),
      (''model_router.fallback_used'', PV_Bool (dec_fallback_used (res_decision result))),
      (''model_router.response_succeeded'', PV_Bool (res_response result \<noteq> None))]"

text \<open>The spans of a run: the route, then one per attempt in order.\<close>

definition run_spans :: "str option \<Rightarrow> inference_request \<Rightarrow> inference_result \<Rightarrow> span list \<Rightarrow> bool" where
  "run_spans par request r spans \<longleftrightarrow>
     (\<exists>d. dec_decision_id d = dec_decision_id (res_decision r) \<and>
        spans = route_span par request d # map (attempt_span par) (res_invocation_attempts r))"

lemma aggregate_keeps_id: "aggregate_decision d a codes = Inr f \<Longrightarrow> dec_decision_id f = dec_decision_id d"
  by (auto simp: aggregate_decision_def Let_def split: option.splits)

fun step_attempt :: "attempt_step \<Rightarrow> invocation_attempt" where
  "step_attempt (Attempt_Continue att codes) = att"
| "step_attempt (Attempt_Break att codes r) = att"

context recording_tracer
begin

lemma evaluate_traces: "traces view par (traced_evaluate tr svc request) (\<lambda>d kvs spans. kvs = [] \<and> spans = [route_span par request d])"
  unfolding traced_evaluate_def
  by (intro traces_span traces_bind traces_attribute traces_untraced traces_return) (simp add: route_span_def)

lemma close_traces:
  "traces view par (traced_close_attempt tr orc a st t) (\<lambda>att kvs spans. spans = [] \<and> at_model_alias att = a \<and>
     kvs = [(''model_router.attempt_status'', PV_Str (invocation_attempt_status_value (at_status att))),
            (''model_router.latency_ms'', PV_Int (at_latency_ms att))])"
  unfolding traced_close_attempt_def
  by (intro traces_bind traces_attribute traces_untraced traces_lift traces_return)
    (auto simp: mk_invocation_attempt_def split: if_splits)

lemma attempt_traces:
  "traces view par (traced_attempt tr orc request d eff a) (\<lambda>step kvs spans. kvs = [] \<and> spans = [attempt_span par (step_attempt step)])"
proof -
  have body: "traces view (Some ''model_router.invoke_attempt'')
      (bind_io (traced_close_attempt tr orc a st t) (\<lambda>att. return_io (f att)))
      (\<lambda>step kvs spans. spans = [] \<and> closed_span ''model_router.invoke_attempt'' par ((''model_router.model_alias'', PV_Str a) # kvs) =
         attempt_span par (step_attempt step))"
    if "\<And>att. step_attempt (f att) = att" for st t f
    by (intro traces_bind traces_mono[OF close_traces] traces_return) (simp add: that attempt_span_def)
  show ?thesis
    unfolding traced_attempt_def
    by (intro traces_bind traces_lift traces_span traces_attribute traces_try_untraced traces_untraced)
      (auto intro!: traces_raise traces_mono[OF body] split: option.split sum.split)
qed

lemma chain_traces:
  "traces view par (traced_chain tr orc request d eff chain ats codes)
     (\<lambda>p kvs spans. kvs = [] \<and> (\<exists>new. prg_attempts p = ats @ new \<and> spans = map (attempt_span par) new))"
proof (induction chain arbitrary: ats codes)
  case Nil
  show ?case by (simp add: traces_return)
next
  case (Cons a chain)
  show ?case
    unfolding traced_chain.simps
  proof (rule traces_bind, rule traces_mono[OF attempt_traces])
    fix step and kvs :: "(str \<times> pyval) list" and spans :: "span list"
    assume step: "kvs = [] \<and> spans = [attempt_span par (step_attempt step)]"
    show "traces view par (case step of
          Attempt_Continue att extra \<Rightarrow> traced_chain tr orc request d eff chain (ats @ [att]) (codes @ extra)
        | Attempt_Break att extra response \<Rightarrow> return_io
            \<lparr>prg_attempts = ats @ [att], prg_reason_codes = codes @ extra, prg_response = response,
             prg_succeeded_alias = (if response = None then None else Some a)\<rparr>)
        (\<lambda>p kvs' spans'. kvs @ kvs' = [] \<and> (\<exists>new. prg_attempts p = ats @ new \<and> spans @ spans' = map (attempt_span par) new))"
    proof (cases step)
      case (Attempt_Continue att extra)
      then show ?thesis using step by (auto intro!: traces_mono[OF Cons.IH])
    next
      case (Attempt_Break att extra response)
      then show ?thesis using step by (auto intro!: traces_return)
    qed
  qed
qed

lemma uncached_traces:
  "traces view par (traced_invoke_uncached tr orc request) (\<lambda>r kvs spans. kvs = [] \<and> run_spans par request r spans)"
  unfolding traced_invoke_uncached_def Let_def
proof (rule traces_bind, rule traces_mono[OF evaluate_traces], rule traces_bind, rule traces_untraced)
  fix d and kvs :: "(str \<times> pyval) list" and spans :: "span list" and p :: routing_policy and s s'
  assume d: "kvs = [] \<and> spans = [route_span par request d]"
  let ?chain = "build_candidate_chain d (pol_fallback_policy p)"
  show "traces view par (if ?chain = [] then untraced (finish orc \<lparr>res_decision = d, res_response = None, res_invocation_attempts = []\<rparr>)
      else bind_io (traced_chain tr orc request d (resolve_effective_requirements (ir_requirements request) p) ?chain [] []) (\<lambda>p.
        bind_io (lift_r (aggregate_decision d (prg_succeeded_alias p) (prg_reason_codes p))) (\<lambda>final_decision.
          untraced (finish orc \<lparr>res_decision = final_decision,
            res_response = (if prg_succeeded_alias p \<noteq> None then prg_response p else None),
            res_invocation_attempts = prg_attempts p\<rparr>))))
      (\<lambda>r kvs' spans'. kvs @ [] @ kvs' = [] \<and> run_spans par request r (spans @ [] @ spans'))"
  proof (cases "?chain = []")
    case True
    then show ?thesis using d by (auto intro!: traces_untraced dest!: finish_Inr simp: run_spans_def)
  next
    case False
    then show ?thesis
      using d
      by (auto intro!: traces_bind traces_mono[OF chain_traces] traces_lift traces_untraced dest!: finish_Inr
          simp: run_spans_def aggregate_keeps_id)
  qed
qed

lemma reserved_traces:
  "traces view par (traced_run_reserved tr orc request key store) (\<lambda>r kvs spans. kvs = [] \<and> run_spans par request r spans)"
  unfolding traced_run_reserved_def Let_def
proof (rule traces_bind, rule traces_attempt[OF uncached_traces])
  show "traces view par (case (Inl e :: exn + inference_result) of
        Inl e \<Rightarrow> bind_io (untraced (ids_release store (ir_application_id request) key)) (\<lambda>_. raise_io e)
      | Inr result \<Rightarrow> f result) (\<lambda>y kvs' spans'. kvs @ kvs' = [] \<and> run_spans par request y (spans @ spans'))"
    for e kvs spans f
    by (auto intro!: traces_bind traces_untraced traces_raise)
qed (auto intro!: traces_bind traces_untraced traces_return)

lemma idempotency_traces:
  "traces view par (traced_with_idempotency tr orc request key store)
     (\<lambda>r kvs spans. kvs = [] \<and> (run_spans par request r spans \<or> spans = []))"
  unfolding traced_with_idempotency_def
  by (rule traces_bind, rule traces_untraced)
    (auto intro!: traces_raise traces_return traces_mono[OF reserved_traces] split: idempotency_outcome.split option.split)

lemma invoke_body_traces:
  "\<exists>body. traced_invoke tr orc request = with_span tr ''model_router.invoke'' body \<and>
     traces view (Some ''model_router.invoke'') body (\<lambda>r kvs spans.
       (\<forall>par. closed_span ''model_router.invoke'' par kvs = invoke_span par request r) \<and>
       (run_spans (Some ''model_router.invoke'') request r spans \<or> spans = [] \<and> ir_idempotency_key request \<noteq> None))"
proof -
  have inner: "traces view (Some ''model_router.invoke'')
      (case (ir_idempotency_key request, orc_idempotency_store orc) of
         (Some key, Some store) \<Rightarrow> traced_with_idempotency tr orc request key store
       | _ \<Rightarrow> traced_invoke_uncached tr orc request)
      (\<lambda>r kvs spans. kvs = [] \<and>
         (run_spans (Some ''model_router.invoke'') request r spans \<or> spans = [] \<and> ir_idempotency_key request \<noteq> None))"
    by (auto intro: traces_mono[OF uncached_traces] traces_mono[OF idempotency_traces] split: option.split)
  show ?thesis
    unfolding traced_invoke_def
    by (intro exI conjI, rule refl, intro traces_bind traces_attribute, rule traces_mono[OF inner],
        intro traces_bind traces_attribute traces_return)
      (auto simp: invoke_span_def)
qed

lemma traced_invoke_told:
  "case traced_invoke tr orc request (s, t) of (r, (s', t')) \<Rightarrow>
     invoke orc request s = (r, s') \<and> tr_open (view t') = tr_open (view t) \<and>
     (case r of
        Inl e \<Rightarrow> sp_exception (last (tr_finished (view t'))) = Some e
      | Inr result \<Rightarrow>
          (\<exists>spans. tr_finished (view t') = tr_finished (view t) @ spans @ [invoke_span (parent_of (view t)) request result] \<and>
             (run_spans (Some ''model_router.invoke'') request result spans \<or>
              spans = [] \<and> ir_idempotency_key request \<noteq> None)))"
proof -
  obtain r s' t' where run: "traced_invoke tr orc request (s, t) = (r, (s', t'))" by (metis prod.exhaust)
  have "rel_sum (=) (=) r (fst (invoke orc request s)) \<and> s' = snd (invoke orc request s)"
    using rel_ioD[OF invoke_erases, of "(s, t)" s orc request] by (simp add: erases_def run)
  then have same: "invoke orc request s = (r, s')" by (simp add: sum.rel_eq prod_eq_iff)
  obtain body where body: "traced_invoke tr orc request = with_span tr ''model_router.invoke'' body"
    and told: "traces view (Some ''model_router.invoke'') body (\<lambda>r kvs spans.
       (\<forall>par. closed_span ''model_router.invoke'' par kvs = invoke_span par request r) \<and>
       (run_spans (Some ''model_router.invoke'') request r spans \<or> spans = [] \<and> ir_idempotency_key request \<noteq> None))"
    using invoke_body_traces by blast
  from told run[unfolded body] obtain kvs spans where
    t': "view t' = \<lparr>tr_open = tr_open (view t), tr_finished = tr_finished (view t) @ spans @
       [(closed_span ''model_router.invoke'' (parent_of (view t)) kvs)\<lparr>sp_exception := (case r of Inl e \<Rightarrow> Some e | Inr _ \<Rightarrow> None)\<rparr>]\<rparr>"
    and spans: "\<forall>x. r = Inr x \<longrightarrow> (\<forall>par. closed_span ''model_router.invoke'' par kvs = invoke_span par request x) \<and>
       (run_spans (Some ''model_router.invoke'') request x spans \<or> spans = [] \<and> ir_idempotency_key request \<noteq> None)"
    by (rule with_span_run)
  show ?thesis
  proof (cases r)
    case (Inl e)
    then show ?thesis by (simp add: run same t')
  next
    case (Inr result)
    have "(invoke_span par request result)\<lparr>sp_exception := None\<rparr> = invoke_span par request result" for par
      by (simp add: invoke_span_def closed_span_def)
    then show ?thesis using spans Inr by (simp add: run same t')
  qed
qed

end

section \<open>Property\<close>

text \<open>A tracer that keeps its spans in memory.\<close>

definition memory_tracer :: "trace tracer" where
  "memory_tracer =
     \<lparr>tcr_start = (\<lambda>name t. (Inr (), open_span name t)),
      tcr_attribute = (\<lambda>k v t. (Inr (), t\<lparr>tr_open := annotate [(k, v)] (tr_open t)\<rparr>)),
      tcr_end = (\<lambda>e t. (Inr (), close_span e t))\<rparr>"

interpretation memory_tracer: recording_tracer memory_tracer "\<lambda>t. t"
  by unfold_locales (simp_all add: memory_tracer_def)



end
