(* ===== verification/Demo_Scenarios.thy ===== *)
theory Demo_Scenarios
  imports Local_Tools Spans
begin

text \<open>
  \<open>scripts/run_demo_scenarios.py\<close>: the narrated scenarios, each the composition of the router with
  scripted providers, with the assertions the script makes on the way.  The objects a scenario
  creates are parts of one state beside the world; a failed \<open>assert\<close> raises.  On every platform whose
  clocks, identifiers and output work, all assertions hold and the scenarios end as narrated.
\<close>

section \<open>The script's own catalogue and policies\<close>

definition demo_catalogue :: "model_definition list \<Rightarrow> model_catalogue" where
  "demo_catalogue models =
     \<lparr>mc_catalogue_version = 1,
      mc_find_by_capability = (\<lambda>capability. filter (\<lambda>m. capability \<in> set (cap_capability_tags (md_capabilities m))) models),
      mc_get_by_alias = (\<lambda>name. first_such (\<lambda>m. md_model_alias m = name) models),
      mc_all_models = models\<rparr>"

definition demo_policies :: "(str \<rightharpoonup> routing_policy) \<Rightarrow> routing_policy option \<Rightarrow> 's routing_policy_repository" where
  "demo_policies policies_by_application dflt =
     \<lparr>rp_resolve = (\<lambda>application_id.
        case policies_by_application application_id of
          Some p \<Rightarrow> return_io p
        | None \<Rightarrow> (case dflt of Some p \<Rightarrow> return_io p | None \<Rightarrow> raise_io RoutingPolicyNotFoundError))\<rparr>"

definition demo_model :: "str \<Rightarrow> provider_name \<Rightarrow> model_definition" where
  "demo_model model_alias provider =
     \<lparr>md_model_alias = model_alias, md_provider = provider, md_region = ''us-east-1'',
      md_resolution = \<lparr>mr_type = Resolution_DIRECT_MODEL_ID, mr_value = ''fake.'' @ model_alias @ ''-v1:0''\<rparr>,
      md_capabilities =
        \<lparr>cap_capability_tags = [''balanced-text''], cap_quality_tier = Tier_STANDARD,
         cap_max_input_tokens = 200000, cap_max_output_tokens = 4096,
         cap_supports_tool_use = False, cap_supports_structured_output = False,
         cap_supports_streaming = True, cap_supported_modalities = [''text''], cap_typical_latency = Latency_BALANCED\<rparr>,
      md_pricing = \<lparr>pri_currency = ''USD'', pri_input_price_per_1k_tokens = Dec 3 (- 3), pri_output_price_per_1k_tokens = Dec 15 (- 3),
         pri_pricing_version = 1\<rparr>,
      md_health = Health_HEALTHY\<rparr>"

definition make_model :: "str \<Rightarrow> provider_name \<Rightarrow> model_definition result" where
  "make_model model_alias provider = validate_model_definition (demo_model model_alias provider)"

definition demo_response :: "str \<Rightarrow> provider_response" where
  "demo_response model_alias =
     \<lparr>ps_model_alias = model_alias, ps_provider = Provider_BEDROCK,
      ps_message = \<lparr>msg_role = Role_ASSISTANT, msg_content = ''ok''\<rparr>,
      ps_stop_reason = Stop_END_TURN, ps_usage = \<lparr>us_input_tokens = 5, us_output_tokens = 5\<rparr>\<rparr>"

definition demo_request :: "str option \<Rightarrow> inference_request" where
  "demo_request idempotency_key =
     \<lparr>ir_application_id = ''demo-app'',
      ir_messages = [\<lparr>msg_role = Role_USER, msg_content = ''What are your support hours?''\<rparr>],
      ir_requirements =
        \<lparr>req_capability = ''balanced-text'', req_quality_tier = None, req_maximum_estimated_cost_usd = None,
         req_maximum_output_tokens = None, req_latency_preference = None,
         req_requires_tool_use = False, req_requires_structured_output = False\<rparr>,
      ir_conversation_id = None, ir_idempotency_key = idempotency_key, ir_metadata = []\<rparr>"

text \<open>\<open>_demo_policy\<close>: the overrides any scenario gives are the models.\<close>

definition demo_policy_fields :: "str \<Rightarrow> str \<Rightarrow> routing_policy" where
  "demo_policy_fields preferred fallback =
     \<lparr>pol_policy_id = ''demo-policy'', pol_policy_version = 1, pol_is_default = False,
      pol_allowed_capabilities = [''balanced-text''], pol_allowed_model_aliases = [preferred, fallback],
      pol_allowed_quality_tiers = [Tier_STANDARD], pol_default_quality_tier = Tier_STANDARD,
      pol_maximum_estimated_cost_usd = Dec 50 (- 2), pol_maximum_output_tokens = 1000,
      pol_routing_strategy = Strategy_PREFERRED_MODEL, pol_preferred_model_alias = Some preferred,
      pol_latency_preference = Latency_BALANCED,
      pol_allow_client_overrides =
        \<lparr>ov_quality_tier = False, ov_maximum_estimated_cost_usd = False,
         ov_maximum_output_tokens = False, ov_latency_preference = False\<rparr>,
      pol_fallback_policy = \<lparr>fb_fallback_model_aliases = [fallback], fb_maximum_attempts = 2\<rparr>,
      pol_experiment_policy = None,
      pol_idempotency_policy = \<lparr>idp_allow_response_caching = True, idp_retention_seconds = 300\<rparr>\<rparr>"

definition demo_policy :: "str \<Rightarrow> str \<Rightarrow> routing_policy result" where
  "demo_policy preferred fallback = validate_routing_policy (demo_policy_fields preferred fallback)"

section \<open>The state of a scenario\<close>

record 'w demo_state =
  dms_calls :: "str list"
  dms_openai_calls :: "str list"
  dms_idempotency :: idempotency_records
  dms_health :: health_state
  dms_decisions :: decision_records
  dms_events :: "pyval list"
  dms_world :: 'w

definition on_demo_world :: "('w, 'a) op \<Rightarrow> ('w demo_state, 'a) op" where
  "on_demo_world m = on_part dms_world (\<lambda>w p. p\<lparr>dms_world := w\<rparr>) m"

definition on_demo_idempotency :: "(idempotency_records \<times> 'w, 'a) op \<Rightarrow> ('w demo_state, 'a) op" where
  "on_demo_idempotency m =
     on_part (\<lambda>p. (dms_idempotency p, dms_world p)) (\<lambda>(r, w) p. p\<lparr>dms_idempotency := r, dms_world := w\<rparr>) m"

definition on_demo_decisions :: "(decision_records \<times> 'w, 'a) op \<Rightarrow> ('w demo_state, 'a) op" where
  "on_demo_decisions m =
     on_part (\<lambda>p. (dms_decisions p, dms_world p)) (\<lambda>(r, w) p. p\<lparr>dms_decisions := r, dms_world := w\<rparr>) m"

definition on_demo_health :: "(health_state, 'a) op \<Rightarrow> ('w demo_state, 'a) op" where
  "on_demo_health m = on_part dms_health (\<lambda>x p. p\<lparr>dms_health := x\<rparr>) m"

definition fresh_demo :: "'w \<Rightarrow> 'w demo_state" where
  "fresh_demo w =
     \<lparr>dms_calls = [], dms_openai_calls = [], dms_idempotency = Map.empty, dms_health = Map.empty,
      dms_decisions = Map.empty, dms_events = [], dms_world = w\<rparr>"

definition in_demo :: "('w demo_state, 'a) op \<Rightarrow> ('w, 'a) op" where
  "in_demo m = (\<lambda>w.
     case m (fresh_demo w) of
       (r, p) \<Rightarrow> (r, dms_world p))"

definition done_io :: "('s, 'a) op \<Rightarrow> ('s, unit) op" where
  "done_io m = bind_io m (\<lambda>_. return_io ())"

definition assert_io :: "('s \<Rightarrow> bool) \<Rightarrow> ('s, unit) op" where
  "assert_io P = (\<lambda>s. (if P s then Inr () else Inl Assertion_Error, s))"

section \<open>Scripted providers\<close>

definition record_call :: "str \<Rightarrow> ('w demo_state, unit) op" where
  "record_call a = (\<lambda>s. (Inr (), s\<lparr>dms_calls := dms_calls s @ [a]\<rparr>))"

definition record_openai_call :: "str \<Rightarrow> ('w demo_state, unit) op" where
  "record_openai_call a = (\<lambda>s. (Inr (), s\<lparr>dms_openai_calls := dms_openai_calls s @ [a]\<rparr>))"

definition plain_provider :: "(provider_request \<Rightarrow> ('s, provider_response) op) \<Rightarrow> 's model_provider" where
  "plain_provider call = \<lparr>mp_invoke = call, mp_invoke_stream = None, mp_next = (\<lambda>_. return_io None)\<rparr>"

definition fail_then_succeed :: "'w demo_state model_provider" where
  "fail_then_succeed = plain_provider (\<lambda>request.
     bind_io (record_call (pr_model_alias request)) (\<lambda>_.
       if pr_model_alias request = ''primary''
       then raise_io (ProviderError ''simulated throttling'' Category_THROTTLED)
       else return_io (demo_response (pr_model_alias request))))"

definition counting_success :: "(str \<Rightarrow> ('w demo_state, unit) op) \<Rightarrow> 'w demo_state model_provider" where
  "counting_success note = plain_provider (\<lambda>request.
     bind_io (note (pr_model_alias request)) (\<lambda>_. return_io (demo_response (pr_model_alias request))))"

definition always_fail_primary :: "'w demo_state model_provider" where
  "always_fail_primary = plain_provider (\<lambda>request.
     if pr_model_alias request = ''primary''
     then raise_io (ProviderError ''simulated sustained throttling'' Category_THROTTLED)
     else return_io (demo_response (pr_model_alias request)))"

definition bedrock_fails :: "'w demo_state model_provider" where
  "bedrock_fails = plain_provider (\<lambda>request.
     bind_io (record_call (pr_model_alias request)) (\<lambda>_.
       raise_io (ProviderError ''simulated Bedrock throttling'' Category_THROTTLED)))"

section \<open>Wiring\<close>

record 's demo_ports =
  dmp_health :: "'s model_health_repository option"
  dmp_idempotency :: "'s idempotency_store option"
  dmp_decisions :: "'s routing_decision_repository option"
  dmp_metrics :: "'s metrics_publisher option"
  dmp_events :: "'s decision_event_publisher option"

definition no_ports :: "'s demo_ports" where
  "no_ports = \<lparr>dmp_health = None, dmp_idempotency = None, dmp_decisions = None, dmp_metrics = None, dmp_events = None\<rparr>"

definition demo_service ::
  "('w, 'j) platform \<Rightarrow> routing_policy \<Rightarrow> model_definition list \<Rightarrow> 'w demo_state model_health_repository option \<Rightarrow>
   'w demo_state route_evaluation_service" where
  "demo_service pf policy models health =
     \<lparr>svc_policy_repository = demo_policies Map.empty (Some policy),
      svc_model_catalogue = demo_catalogue models,
      svc_token_estimator = default_token_estimator 4, svc_cost_estimator = default_cost_estimator,
      svc_clock = system_clock (on_demo_world (pf_now pf)),
      svc_identifier_generator = uuid4_identifier_generator (on_demo_world (pf_uuid4_hex pf)),
      svc_model_health_repository = health\<rparr>"

definition demo_orchestrator ::
  "('w, 'j) platform \<Rightarrow> routing_policy \<Rightarrow> model_definition list \<Rightarrow> 'w demo_state model_provider \<Rightarrow>
   'w demo_state demo_ports \<Rightarrow> 'w demo_state orchestrator" where
  "demo_orchestrator pf policy models provider ports =
     \<lparr>orc_route_evaluation_service = demo_service pf policy models (dmp_health ports),
      orc_policy_repository = demo_policies Map.empty (Some policy),
      orc_model_provider = provider,
      orc_idempotency_store = dmp_idempotency ports, orc_decision_repository = dmp_decisions ports,
      orc_model_health_repository = dmp_health ports, orc_metrics_publisher = dmp_metrics ports,
      orc_decision_event_publisher = dmp_events ports,
      orc_monotonic = on_demo_world (pf_monotonic pf)\<rparr>"

definition build_orchestrator ::
  "('w, 'j) platform \<Rightarrow> 'w demo_state model_provider \<Rightarrow> 'w demo_state demo_ports \<Rightarrow> 'w demo_state orchestrator result" where
  "build_orchestrator pf provider ports =
     bind_r (make_model ''primary'' Provider_BEDROCK) (\<lambda>primary.
     bind_r (make_model ''fallback'' Provider_BEDROCK) (\<lambda>fallback.
     bind_r (demo_policy ''primary'' ''fallback'') (\<lambda>policy.
       Inr (demo_orchestrator pf policy [primary, fallback] provider ports))))"

section \<open>The scenarios\<close>

definition demo_fallback :: "('w, 'j) platform \<Rightarrow> ('w, inference_result) op" where
  "demo_fallback pf = in_demo
     (bind_io (lift_r (build_orchestrator pf fail_then_succeed no_ports)) (\<lambda>orchestrator.
      bind_io (invoke orchestrator (demo_request None)) (\<lambda>result.
      bind_io (assert_io (\<lambda>_. dec_selected_model_alias (res_decision result) = Some ''fallback'')) (\<lambda>_.
      bind_io (assert_io (\<lambda>_. dec_fallback_used (res_decision result))) (\<lambda>_.
      return_io result)))))"

definition demo_store :: "('w, 'j) platform \<Rightarrow> 'w demo_state idempotency_store" where
  "demo_store pf =
     (let store = in_memory_idempotency_store (system_clock (pf_now pf)) (seconds 300)
      in \<lparr>ids_reserve = (\<lambda>a k h. on_demo_idempotency (ids_reserve store a k h)),
          ids_complete = (\<lambda>a k h r c n. on_demo_idempotency (ids_complete store a k h r c n)),
          ids_release = (\<lambda>a k. on_demo_idempotency (ids_release store a k))\<rparr>)"

definition demo_key :: str where
  "demo_key = ''demo-idempotency-key-001''"

definition demo_idempotency :: "('w, 'j) platform \<Rightarrow> ('w, inference_result \<times> inference_result) op" where
  "demo_idempotency pf = in_demo
     (bind_io (lift_r (build_orchestrator pf (counting_success record_call)
         (no_ports\<lparr>dmp_idempotency := Some (demo_store pf)\<rparr>))) (\<lambda>orchestrator.
      bind_io (invoke orchestrator (demo_request (Some demo_key))) (\<lambda>first.
      bind_io (invoke orchestrator (demo_request (Some demo_key))) (\<lambda>second.
      bind_io (assert_io (\<lambda>s. length (dms_calls s) = 1)) (\<lambda>_.
      bind_io (assert_io (\<lambda>_. dec_decision_id (res_decision first) = dec_decision_id (res_decision second))) (\<lambda>_.
      return_io (first, second)))))))"

text \<open>One line of the table: the health of the primary after the request, the models attempted, the one selected.\<close>

definition degradation_request ::
  "health_repository \<Rightarrow> 'w demo_state orchestrator \<Rightarrow>
   ('w demo_state, model_health_status \<times> str list \<times> str option) op" where
  "degradation_request cfg orchestrator =
     bind_io (invoke orchestrator (demo_request None)) (\<lambda>result.
     bind_io (on_demo_health (get_health cfg ''primary'')) (\<lambda>health.
     return_io (health, map at_model_alias (res_invocation_attempts result),
       dec_selected_model_alias (res_decision result))))"

definition demo_health_ports :: "health_repository \<Rightarrow> 'w demo_state demo_ports" where
  "demo_health_ports cfg = no_ports\<lparr>dmp_health := Some
     \<lparr>mh_get_health = (\<lambda>a. on_demo_health (get_health cfg a)), mh_record_outcome = (\<lambda>a st. on_demo_health (record_outcome a st))\<rparr>\<rparr>"

definition demo_health_degradation ::
  "('w, 'j) platform \<Rightarrow> ('w, (model_health_status \<times> str list \<times> str option) list) op" where
  "demo_health_degradation pf = in_demo
     (bind_io (lift_r (new_health_repository 2 3)) (\<lambda>repository.
      bind_io (lift_r (build_orchestrator pf always_fail_primary (demo_health_ports (fst repository)))) (\<lambda>orchestrator.
      repeat_io 5 (degradation_request (fst repository) orchestrator))))"

definition demo_emf :: "('w, 'j) platform \<Rightarrow> 'w demo_state emf_publisher" where
  "demo_emf pf = \<lparr>emf_environment = ''demo'', emf_time = on_demo_world (pf_time pf), emf_print = (\<lambda>v. on_demo_world (pf_print pf v))\<rparr>"

definition demo_decision_repository :: "'w demo_state routing_decision_repository" where
  "demo_decision_repository =
     \<lparr>rd_save = (\<lambda>r. on_demo_decisions (rd_save in_memory_decision_repository r)),
      rd_get = (\<lambda>i. on_demo_decisions (rd_get in_memory_decision_repository i))\<rparr>"

text \<open>The result and the audit record that is found for it.\<close>

definition demo_observability :: "('w, 'j) platform \<Rightarrow> ('w, inference_result \<times> audit_record option) op" where
  "demo_observability pf = in_demo
     (bind_io (lift_r (build_orchestrator pf (counting_success record_call)
         (no_ports\<lparr>dmp_decisions := Some demo_decision_repository,
                   dmp_metrics := Some (emf_metrics_publisher (demo_emf pf))\<rparr>))) (\<lambda>orchestrator.
      bind_io (invoke orchestrator (demo_request None)) (\<lambda>result.
      bind_io (rd_get demo_decision_repository (dec_decision_id (res_decision result))) (\<lambda>audit_record.
      return_io (result, audit_record)))))"

definition demo_composite :: "model_catalogue \<Rightarrow> 'w demo_state model_provider" where
  "demo_composite catalogue = composite_model_provider
     \<lparr>cmp_catalogue = catalogue,
      cmp_providers = [Provider_BEDROCK \<mapsto> bedrock_fails, Provider_OPENAI \<mapsto> counting_success record_openai_call],
      cmp_next = (\<lambda>_. return_io None)\<rparr>"

definition demo_multi_provider_fallback :: "('w, 'j) platform \<Rightarrow> ('w, inference_result) op" where
  "demo_multi_provider_fallback pf = in_demo
     (bind_io (lift_r (make_model ''bedrock-primary'' Provider_BEDROCK)) (\<lambda>bedrock_model.
      bind_io (lift_r (make_model ''openai-fallback'' Provider_OPENAI)) (\<lambda>openai_model.
      bind_io (lift_r (demo_policy ''bedrock-primary'' ''openai-fallback'')) (\<lambda>policy.
      let models = [bedrock_model, openai_model]
      in bind_io (invoke (demo_orchestrator pf policy models (demo_composite (demo_catalogue models)) no_ports)
           (demo_request None)) (\<lambda>result.
      bind_io (assert_io (\<lambda>s. dms_calls s = [''bedrock-primary''])) (\<lambda>_.
      bind_io (assert_io (\<lambda>s. dms_openai_calls s = [''openai-fallback''])) (\<lambda>_.
      bind_io (assert_io (\<lambda>_. dec_selected_model_alias (res_decision result) = Some ''openai-fallback'')) (\<lambda>_.
      return_io result))))))))"

definition demo_event_client :: "pyval \<Rightarrow> ('w demo_state, unit) op" where
  "demo_event_client entries = (\<lambda>s. (Inr (), s\<lparr>dms_events := dms_events s @ [entries]\<rparr>))"

text \<open>The number of calls of \<open>put_events\<close>, and the \<open>Detail\<close> of the first entry of the first call.\<close>

definition demo_decision_events :: "('w, 'j) platform \<Rightarrow> ('w, nat \<times> pyval) op" where
  "demo_decision_events pf = in_demo
     (bind_io (lift_r (build_orchestrator pf (counting_success record_call)
         (no_ports\<lparr>dmp_events := Some (eventbridge_publisher
            \<lparr>evp_put_events = demo_event_client, evp_event_bus_name = ''demo-bus''\<rparr>)\<rparr>))) (\<lambda>orchestrator.
      bind_io (invoke orchestrator (demo_request None)) (\<lambda>_ s.
        (bind_r (list_item (dms_events s) 0) (\<lambda>call.
         bind_r (py_iter call) (\<lambda>entries.
         bind_r (list_item entries 0) (\<lambda>entry.
         bind_r (py_item entry ''Detail'') (\<lambda>detail.
           Inr (length (dms_events s), detail))))), s))))"

text \<open>
  The tracer of a new provider with an exporter in memory, as the library creates them: the tracer,
  its first state and \<open>get_finished_spans\<close>.
\<close>

record 't tracing_sdk =
  sdk_tracer :: "'t tracer"
  sdk_start :: 't
  sdk_finished_spans :: "'t \<Rightarrow> span list"

definition demo_tracing :: "('w, 'j) platform \<Rightarrow> 't tracing_sdk \<Rightarrow> ('w, span list) op" where
  "demo_tracing pf sdk = in_demo
     (bind_io (lift_r (build_orchestrator pf fail_then_succeed no_ports)) (\<lambda>orchestrator s.
        case traced_invoke (sdk_tracer sdk) orchestrator (demo_request None) (s, sdk_start sdk) of
          (Inl e, (s', _)) \<Rightarrow> (Inl e, s')
        | (Inr _, (s', t)) \<Rightarrow> (Inr (sdk_finished_spans sdk t), s')))"

text \<open>\<open>main\<close>, from the parsed \<open>--scenario\<close>: one scenario, or all in the order of the table.\<close>

definition demo_table :: "('w, 'j) platform \<Rightarrow> 't tracing_sdk \<Rightarrow> (str \<times> ('w, unit) op) list" where
  "demo_table pf sdk =
     [(''fallback'', done_io (demo_fallback pf)),
      (''idempotency'', done_io (demo_idempotency pf)),
      (''health-degradation'', done_io (demo_health_degradation pf)),
      (''observability'', done_io (demo_observability pf)),
      (''multi-provider-fallback'', done_io (demo_multi_provider_fallback pf)),
      (''decision-events'', done_io (demo_decision_events pf)),
      (''tracing'', done_io (demo_tracing pf sdk))]"

fun run_scenarios :: "('w, unit) op list \<Rightarrow> ('w, unit) op" where
  "run_scenarios [] = return_io ()"
| "run_scenarios (scenario # rest) = bind_io scenario (\<lambda>_. run_scenarios rest)"

definition demo_main :: "('w, 'j) platform \<Rightarrow> 't tracing_sdk \<Rightarrow> str option \<Rightarrow> ('w, int) op" where
  "demo_main pf sdk chosen =
     bind_io (case chosen of
         Some name \<Rightarrow> (case map_of (demo_table pf sdk) name of
             None \<Rightarrow> raise_io Key_Error
           | Some scenario \<Rightarrow> run_scenarios [scenario])
       | None \<Rightarrow> run_scenarios (map snd (demo_table pf sdk))) (\<lambda>_.
     return_io 0)"

section \<open>What the objects are\<close>

lemma done_totalI:
  assumes "\<And>s. \<exists>x s'. m s = (Inr x, s')"
  shows "total_io (done_io m)"
proof -
  have "total_io m" using assms by (simp add: total_io_def)
  then show ?thesis unfolding done_io_def by (rule total_io_bind) simp
qed

lemma run_scenarios_total: "\<forall>m \<in> set ms. total_io m \<Longrightarrow> total_io (run_scenarios ms)"
  by (induction ms) (auto intro: total_io_bind)

lemma make_model_ok: "make_model a p = Inr (demo_model a p)"
  by (simp add: make_model_def validate_model_definition_def demo_model_def model_capabilities_fields_ok_def
      model_pricing_fields_ok_def bedrock_only_resolution_types_def)

lemma demo_policy_ok:
  assumes "preferred \<noteq> []"
  shows "demo_policy preferred fallback = Inr (demo_policy_fields preferred fallback)"
proof -
  have "policy_ok (demo_policy_fields preferred fallback)"
    using assms unfolding policy_ok_iff by (simp add: demo_policy_fields_def routing_policy_fields_ok_def)
  then show ?thesis by (simp add: demo_policy_def policy_ok_def)
qed

lemma build_orchestrator_ok:
  "build_orchestrator pf provider ports =
     Inr (demo_orchestrator pf (demo_policy_fields ''primary'' ''fallback'')
       [demo_model ''primary'' Provider_BEDROCK, demo_model ''fallback'' Provider_BEDROCK] provider ports)"
  by (simp add: build_orchestrator_def make_model_ok demo_policy_ok)

definition demo_effective :: effective_requirements where
  "demo_effective = resolve_effective_requirements (ir_requirements (demo_request None)) (demo_policy_fields [] [])"

lemma demo_effective_any:
  "resolve_effective_requirements (ir_requirements (demo_request key)) (demo_policy_fields a b) = demo_effective"
  by (simp add: demo_effective_def resolve_effective_requirements_def demo_request_def demo_policy_fields_def Let_def)

lemma demo_effective_simps [simp]:
  "eff_capability demo_effective = ''balanced-text''" "eff_quality_tier demo_effective = Tier_STANDARD"
  "eff_maximum_estimated_cost_usd demo_effective = Dec 50 (- 2)" "eff_maximum_output_tokens demo_effective = 1000"
  "\<not> eff_requires_tool_use demo_effective" "\<not> eff_requires_structured_output demo_effective"
  by (simp_all add: demo_effective_def resolve_effective_requirements_def demo_request_def demo_policy_fields_def Let_def)

definition demo_candidate :: "str \<Rightarrow> provider_name \<Rightarrow> model_health_status \<Rightarrow> route_candidate" where
  "demo_candidate a p h =
     \<lparr>rc_model_alias = a, rc_provider = p, rc_eligible = (h \<noteq> Health_UNAVAILABLE),
      rc_reason_codes = sort_reason_codes (health_codes h @ [CAPABILITY_MATCH, MODEL_ALLOWED, QUALITY_TIER_MATCH, WITHIN_COST_LIMIT]),
      rc_estimated_usage = \<lparr>us_input_tokens = 7, us_output_tokens = 1000\<rparr>,
      rc_estimated_cost = \<lparr>ec_amount_usd = Dec 15021 (- 6)\<rparr>\<rparr>"

lemma demo_thousandths:
  "dec_div (dec_of_int 7) cents_per_1k = Some (Dec 7 (- 3))" "dec_div (dec_of_int 1000) cents_per_1k = Some (Dec 1 0)"
  by (simp_all add: dec_div_1000_eq strip_zeros.simps)

lemma demo_cost:
  "default_cost_estimate \<lparr>us_input_tokens = 7, us_output_tokens = 1000\<rparr> (md_pricing (demo_model a p)) =
     Inr \<lparr>ec_amount_usd = Dec 15021 (- 6)\<rparr>"
  by (simp add: default_cost_estimate_def side_cost_def demo_thousandths dec_mult_def dec_add_def dec_fix_Dec
      dec_quantize_def dec_rescale_def round_half_even_def fits_iff demo_model_def)

lemma demo_tokens: "default_token_estimate 4 (ir_messages (demo_request key)) 1000 = Inr \<lparr>us_input_tokens = 7, us_output_tokens = 1000\<rparr>"
  by (simp add: default_token_estimate_def demo_request_def)

lemma demo_evaluation:
  assumes "a \<in> {preferred, fallback}"
  shows "evaluate_candidate (demo_model a p) demo_effective (demo_policy_fields preferred fallback) (default_token_estimator 4)
    default_cost_estimator (ir_messages (demo_request key)) h = Inr (demo_candidate a p h)"
proof -
  have "dec_val (Dec 15021 (- 6)) \<le> dec_val (Dec 50 (- 2))" by (simp add: power_int_def power_one_over divide_simps)
  then show ?thesis
    using assms
    by (simp add: evaluate_candidate_def default_token_estimator_def default_cost_estimator_def demo_tokens demo_cost Let_def
        capability_matched_def token_limit_exceeded_def within_cost_limit_def demo_candidate_def del: dec_val_Dec)
      (auto simp: demo_model_def demo_policy_fields_def)
qed

section \<open>Scenarios on a working platform\<close>

abbreviation "throttled_then_served x y \<equiv>
  [\<lparr>at_model_alias = x, at_status = Attempt_THROTTLED, at_latency_ms = 0\<rparr>,
   \<lparr>at_model_alias = y, at_status = Attempt_SUCCEEDED, at_latency_ms = 0\<rparr>]"

locale demo_platform =
  fixes pf :: "('w, 'j) platform" and tm :: "'w \<Rightarrow> rat"
  assumes now_total: "total_io (pf_now pf)" and hex_total: "total_io (pf_uuid4_hex pf)"
    and monotonic_reads: "pf_monotonic pf w = (Inr (tm w), w)"
    and time_total: "total_io (pf_time pf)" and print_total: "total_io (pf_print pf v)"
begin

text \<open>Only the world changes when a route is evaluated; the health of the models decides.\<close>

lemma demo_route:
  assumes health: "\<And>a. candidate_health health a s = (Inr (st a), s)" and "x \<noteq> y" "x \<noteq> []"
  obtains d w where
    "evaluate_route (demo_service pf (demo_policy_fields x y) [demo_model x p, demo_model y q] health) (demo_request key) s =
       (Inr d, s\<lparr>dms_world := w\<rparr>)"
    "dec_considered_candidates d = [demo_candidate x p (st x), demo_candidate y q (st y)]"
    "dec_selected_model_alias d = (if st x = Health_UNAVAILABLE then None else Some x)"
proof -
  let ?svc = "demo_service pf (demo_policy_fields x y) [demo_model x p, demo_model y q] health"
  let ?cs = "[demo_candidate x p (st x), demo_candidate y q (st y)]"
  obtain h w1 where h: "pf_uuid4_hex pf (dms_world s) = (Inr h, w1)" using hex_total by (rule total_ioE)
  obtain t w2 where t: "pf_now pf w1 = (Inr t, w2)" using now_total by (rule total_ioE)
  have models: "mc_find_by_capability (demo_catalogue [demo_model x p, demo_model y q]) ''balanced-text'' = [demo_model x p, demo_model y q]"
    by (simp add: demo_catalogue_def demo_model_def)
  have names: "md_model_alias (demo_model a r) = a" for a r by (simp add: demo_model_def)
  have candidates: "build_route_candidates [demo_model x p, demo_model y q] demo_effective (demo_policy_fields x y)
      (default_token_estimator 4) default_cost_estimator (ir_messages (demo_request key)) health s = (Inr ?cs, s)"
    by (simp add: build_route_candidates_def io_run health names demo_evaluation)
  define sel where "sel = (if st x = Health_UNAVAILABLE then no_selection
    else \<lparr>sel_selected = Some (demo_candidate x p (st x)), sel_additional_reason_codes = []\<rparr>)"
  have select: "get_strategy Strategy_PREFERRED_MODEL (filter rc_eligible ?cs) (demo_policy_fields x y) demo_effective ctx = Inr sel" for ctx
    using assms(2) by (simp add: preferred_model_select_def demo_policy_fields_def demo_candidate_def sel_def)
  have build: "\<exists>d. build_decision ?svc (demo_request key) (demo_policy_fields x y) ''balanced-text'' sel ?cs codes s =
      (Inr d, s\<lparr>dms_world := w2\<rparr>)" for codes
    by (simp add: build_decision_def demo_service_def uuid4_identifier_generator_def system_clock_def Let_def io_run
        on_demo_world_def h t)
  obtain d where d: "build_decision ?svc (demo_request key) (demo_policy_fields x y) ''balanced-text'' sel ?cs (selection_codes sel) s =
      (Inr d, s\<lparr>dms_world := w2\<rparr>)" using build by blast
  have app: "svc_policy_repository ?svc = demo_policies Map.empty (Some (demo_policy_fields x y))"
    "svc_model_catalogue ?svc = demo_catalogue [demo_model x p, demo_model y q]"
    "svc_token_estimator ?svc = default_token_estimator 4" "svc_cost_estimator ?svc = default_cost_estimator"
    "svc_model_health_repository ?svc = health"
    by (simp_all add: demo_service_def)
  have "rp_resolve (svc_policy_repository ?svc) a s = (Inr (demo_policy_fields x y), s)" for a
    by (simp add: app demo_policies_def return_io_def)
  moreover have "req_capability (ir_requirements (demo_request key)) = ''balanced-text''"
    "''balanced-text'' \<in> set (pol_allowed_capabilities (demo_policy_fields x y))"
    "pol_routing_strategy (demo_policy_fields x y) = Strategy_PREFERRED_MODEL"
    by (simp_all add: demo_request_def demo_policy_fields_def)
  ultimately have "evaluate_route ?svc (demo_request key) s = (Inr d, s\<lparr>dms_world := w2\<rparr>)"
    using d unfolding evaluate_route_def app
    by (simp add: io_run Let_def demo_effective_any models candidates select bind_lift_Inr del: list.map filter.simps get_strategy.simps)
  moreover have "dec_selected_model_alias d = (if st x = Health_UNAVAILABLE then None else Some x)"
    using build_decision_Inr(5)[OF d] by (simp add: sel_def no_selection_def demo_candidate_def)
  ultimately show thesis using build_decision_Inr(9)[OF d] by (intro that) simp_all
qed

text \<open>One attempt, by what the provider does; the clock stands still meanwhile.\<close>

lemma demo_provider_request:
  "\<exists>pr. make_provider_request (demo_request key) demo_effective a = Inr pr \<and> pr_model_alias pr = a"
  by (simp add: make_provider_request_def demo_request_def)

lemma demo_monotonic: "orc_monotonic (demo_orchestrator pf policy models provider ports) s = (Inr (tm (dms_world s)), s)"
  by (simp add: demo_orchestrator_def on_demo_world_def on_part_def monotonic_reads)

lemma demo_close:
  assumes "record_health_outcome (demo_orchestrator pf policy models provider ports) a st s = (Inr (), s')"
  shows "close_attempt (demo_orchestrator pf policy models provider ports) a st (tm (dms_world s)) s =
    (Inr \<lparr>at_model_alias = a, at_status = st, at_latency_ms = 0\<rparr>, s')"
  using assms by (simp add: close_attempt_def io_run demo_monotonic mk_invocation_attempt_def)

lemma attempt_succeeds:
  assumes "\<And>pr. pr_model_alias pr = a \<Longrightarrow> mp_invoke provider pr s = (Inr r, s1)" and world: "dms_world s1 = dms_world s"
    and "record_health_outcome (demo_orchestrator pf policy models provider ports) a Attempt_SUCCEEDED s1 = (Inr (), s2)"
  shows "invoke_attempt (demo_orchestrator pf policy models provider ports) (demo_request key) d demo_effective a s =
    (Inr (Attempt_Break \<lparr>at_model_alias = a, at_status = Attempt_SUCCEEDED, at_latency_ms = 0\<rparr>
       (if Some a \<noteq> dec_selected_model_alias d then [FALLBACK_SELECTED] else []) (Some r)), s2)"
proof -
  obtain pr where pr: "make_provider_request (demo_request key) demo_effective a = Inr pr" "pr_model_alias pr = a"
    using demo_provider_request by blast
  have "mp_invoke (orc_model_provider (demo_orchestrator pf policy models provider ports)) pr s = (Inr r, s1)"
    using assms(1)[OF pr(2)] by (simp add: demo_orchestrator_def)
  then show ?thesis
    using demo_close[OF assms(3)] by (simp add: invoke_attempt_def pr(1) io_run demo_monotonic world)
qed

lemma attempt_throttled:
  assumes "\<And>pr. pr_model_alias pr = a \<Longrightarrow> mp_invoke provider pr s = (Inl (ProviderError m Category_THROTTLED), s1)"
    and world: "dms_world s1 = dms_world s"
    and "record_health_outcome (demo_orchestrator pf policy models provider ports) a Attempt_THROTTLED s1 = (Inr (), s2)"
  shows "invoke_attempt (demo_orchestrator pf policy models provider ports) (demo_request key) d demo_effective a s =
    (Inr (Attempt_Continue \<lparr>at_model_alias = a, at_status = Attempt_THROTTLED, at_latency_ms = 0\<rparr> [MODEL_THROTTLED]), s2)"
proof -
  obtain pr where pr: "make_provider_request (demo_request key) demo_effective a = Inr pr" "pr_model_alias pr = a"
    using demo_provider_request by blast
  have "mp_invoke (orc_model_provider (demo_orchestrator pf policy models provider ports)) pr s =
      (Inl (ProviderError m Category_THROTTLED), s1)"
    using assms(1)[OF pr(2)] by (simp add: demo_orchestrator_def)
  then show ?thesis
    using demo_close[OF assms(3)] by (simp add: invoke_attempt_def pr(1) io_run demo_monotonic world error_codes_def)
qed

text \<open>A request, given what its attempts come to.\<close>

lemma demo_invocation:
  fixes ports x y p q provider
  defines "orc \<equiv> demo_orchestrator pf (demo_policy_fields x y) [demo_model x p, demo_model y q] provider ports"
  assumes health: "\<And>a. candidate_health (dmp_health ports) a s = (Inr (st a), s)" and xy: "x \<noteq> y" "x \<noteq> []" "st y \<noteq> Health_UNAVAILABLE"
    and attempts: "\<And>w d. dec_selected_model_alias d = (if st x = Health_UNAVAILABLE then None else Some x) \<Longrightarrow>
      attempt_chain orc (demo_request key) d demo_effective (if st x = Health_UNAVAILABLE then [y] else [x, y]) [] [] (s\<lparr>dms_world := w\<rparr>) =
        (Inr \<lparr>prg_attempts = ats, prg_reason_codes = codes, prg_response = Some resp, prg_succeeded_alias = Some z\<rparr>, fin w)"
    and z: "z = y \<or> z = x \<and> st x \<noteq> Health_UNAVAILABLE"
  shows "\<exists>f w. invoke_uncached orc (demo_request key) s =
       finish orc \<lparr>res_decision = f, res_response = Some resp, res_invocation_attempts = ats\<rparr> (fin w) \<and>
    dec_selected_model_alias f = Some z \<and> (dec_fallback_used f \<longleftrightarrow> z \<noteq> x \<or> st x = Health_UNAVAILABLE)"
proof -
  obtain d w where d: "evaluate_route (demo_service pf (demo_policy_fields x y) [demo_model x p, demo_model y q] (dmp_health ports))
        (demo_request key) s = (Inr d, s\<lparr>dms_world := w\<rparr>)"
    and cs: "dec_considered_candidates d = [demo_candidate x p (st x), demo_candidate y q (st y)]"
    and sel: "dec_selected_model_alias d = (if st x = Health_UNAVAILABLE then None else Some x)"
    using health xy(1,2) by (rule demo_route)
  have route: "evaluate_route (orc_route_evaluation_service orc) (demo_request key) s = (Inr d, s\<lparr>dms_world := w\<rparr>)"
    using d by (simp add: orc_def demo_orchestrator_def)
  have policy: "rp_resolve (orc_policy_repository orc) a r = (Inr (demo_policy_fields x y), r)" for a r
    by (simp add: orc_def demo_orchestrator_def demo_policies_def return_io_def)
  have chain: "build_candidate_chain d (pol_fallback_policy (demo_policy_fields x y)) =
      (if st x = Health_UNAVAILABLE then [y] else [x, y])"
    using xy by (simp add: build_candidate_chain_def eligible_aliases_def cs sel demo_candidate_def demo_policy_fields_def)
  have "\<exists>f. aggregate_decision d (Some z) codes = Inr f"
    using z xy(1) by (auto simp: aggregate_decision_def Let_def cs demo_candidate_def)
  then obtain f where f: "aggregate_decision d (Some z) codes = Inr f" by blast
  have "invoke_uncached orc (demo_request key) s =
      finish orc \<lparr>res_decision = f, res_response = Some resp, res_invocation_attempts = ats\<rparr> (fin w)"
    using attempts[OF sel, of w]
    by (simp add: invoke_uncached_def io_run route policy chain Let_def demo_effective_any f del: attempt_chain.simps)
  then show ?thesis
    using aggregate_decision_Inr(1,2)[OF f] sel z xy(1) by (intro exI[of _ f] exI[of _ w]) (auto split: if_splits)
qed

lemma no_health_outcome:
  "dmp_health ports = None \<Longrightarrow>
   record_health_outcome (demo_orchestrator pf policy models provider ports) a st s = (Inr (), s)"
  by (simp add: record_health_outcome_def when_some_def demo_orchestrator_def return_io_def)

lemma no_health_candidate: "candidate_health None a s = (Inr Health_HEALTHY, s)"
  by (simp add: candidate_health_def return_io_def)

lemma demo_finish:
  assumes "dmp_decisions ports = None" "dmp_metrics ports = None" "dmp_events ports = None"
  shows "finish (demo_orchestrator pf policy models provider ports) r s = (Inr r, s)"
  using assms by (simp add: finish_def persist_def publish_metrics_def publish_decision_event_def demo_orchestrator_def io_run)

lemma chain_first:
  assumes "invoke_attempt orc request d eff x s = (Inr (Attempt_Break a codes (Some r)), mid)"
  shows "attempt_chain orc request d eff (x # xs) [] [] s =
    (Inr \<lparr>prg_attempts = [a], prg_reason_codes = codes, prg_response = Some r, prg_succeeded_alias = Some x\<rparr>, mid)"
  using assms by (simp add: io_run return_io_def)

lemma chain_second:
  assumes "invoke_attempt orc request d eff x s = (Inr (Attempt_Continue a codes), mid)"
    and "invoke_attempt orc request d eff y mid = (Inr (Attempt_Break b codes' (Some r)), fin)"
  shows "attempt_chain orc request d eff [x, y] [] [] s =
    (Inr \<lparr>prg_attempts = [a, b], prg_reason_codes = codes @ codes', prg_response = Some r, prg_succeeded_alias = Some y\<rparr>, fin)"
  using assms by (simp add: io_run return_io_def)

text \<open>The first model throttles, the second answers.\<close>

lemma throttled_chain:
  assumes "dmp_health ports = None" and "dec_selected_model_alias d = Some x" and "x \<noteq> y"
    and "\<And>pr. pr_model_alias pr = x \<Longrightarrow> mp_invoke provider pr s = (Inl (ProviderError m Category_THROTTLED), mid)"
    and "\<And>pr. pr_model_alias pr = y \<Longrightarrow> mp_invoke provider pr mid = (Inr r, fin)"
    and "dms_world mid = dms_world s" "dms_world fin = dms_world s"
  shows "attempt_chain (demo_orchestrator pf policy models provider ports) (demo_request key) d demo_effective [x, y] [] [] s =
    (Inr \<lparr>prg_attempts = throttled_then_served x y, prg_reason_codes = [MODEL_THROTTLED] @ [FALLBACK_SELECTED],
          prg_response = Some r, prg_succeeded_alias = Some y\<rparr>, fin)"
proof (rule chain_second)
  show "invoke_attempt (demo_orchestrator pf policy models provider ports) (demo_request key) d demo_effective x s =
      (Inr (Attempt_Continue \<lparr>at_model_alias = x, at_status = Attempt_THROTTLED, at_latency_ms = 0\<rparr> [MODEL_THROTTLED]), mid)"
    by (rule attempt_throttled[OF assms(4) assms(6) no_health_outcome[OF assms(1)]])
  have "invoke_attempt (demo_orchestrator pf policy models provider ports) (demo_request key) d demo_effective y mid =
      (Inr (Attempt_Break \<lparr>at_model_alias = y, at_status = Attempt_SUCCEEDED, at_latency_ms = 0\<rparr>
         (if Some y \<noteq> dec_selected_model_alias d then [FALLBACK_SELECTED] else []) (Some r)), fin)"
    by (rule attempt_succeeds[OF assms(5) _ no_health_outcome[OF assms(1)]]) (simp_all add: assms(6,7))
  then show "invoke_attempt (demo_orchestrator pf policy models provider ports) (demo_request key) d demo_effective y mid =
      (Inr (Attempt_Break \<lparr>at_model_alias = y, at_status = Attempt_SUCCEEDED, at_latency_ms = 0\<rparr> [FALLBACK_SELECTED] (Some r)), fin)"
    using assms(2,3) by simp
qed

text \<open>A request whose first model throttles, up to the end of the use case.\<close>

lemma throttled_invocation:
  assumes ports: "dmp_health ports = None" "dmp_decisions ports = None" "dmp_metrics ports = None" "dmp_events ports = None"
    and xy: "x \<noteq> y" "x \<noteq> []"
    and "\<And>v pr. pr_model_alias pr = x \<Longrightarrow> mp_invoke provider pr (s\<lparr>dms_world := v\<rparr>) = (Inl (ProviderError m Category_THROTTLED), mid v)"
    and "\<And>v pr. pr_model_alias pr = y \<Longrightarrow> mp_invoke provider pr (mid v) = (Inr r, fin v)"
    and "\<And>v. dms_world (mid v) = v" "\<And>v. dms_world (fin v) = v"
  shows "\<exists>f v. invoke (demo_orchestrator pf (demo_policy_fields x y) [demo_model x p, demo_model y q] provider ports) (demo_request None) s =
      (Inr \<lparr>res_decision = f, res_response = Some r, res_invocation_attempts = throttled_then_served x y\<rparr>, fin v) \<and>
    dec_selected_model_alias f = Some y \<and> dec_fallback_used f"
proof -
  let ?orc = "demo_orchestrator pf (demo_policy_fields x y) [demo_model x p, demo_model y q] provider ports"
  have same: "invoke ?orc (demo_request None) = invoke_uncached ?orc (demo_request None)"
    by (simp add: invoke_def demo_request_def)
  have health: "candidate_health (dmp_health ports) a s = (Inr Health_HEALTHY, s)" for a
    by (simp add: ports(1) no_health_candidate)
  have ats: "attempt_chain ?orc (demo_request None) d demo_effective [x, y] [] [] (s\<lparr>dms_world := v\<rparr>) =
      (Inr \<lparr>prg_attempts = throttled_then_served x y, prg_reason_codes = [MODEL_THROTTLED] @ [FALLBACK_SELECTED],
            prg_response = Some r, prg_succeeded_alias = Some y\<rparr>, fin v)" if "dec_selected_model_alias d = Some x" for d v
    by (rule throttled_chain[OF ports(1) that xy(1) assms(7,8)]) (simp_all add: assms(9,10))
  have "\<exists>f v. invoke_uncached ?orc (demo_request None) s =
      finish ?orc \<lparr>res_decision = f, res_response = Some r, res_invocation_attempts = throttled_then_served x y\<rparr> (fin v) \<and>
    dec_selected_model_alias f = Some y \<and> (dec_fallback_used f \<longleftrightarrow> y \<noteq> x \<or> Health_HEALTHY = Health_UNAVAILABLE)"
    by (rule demo_invocation[where st = "\<lambda>_. Health_HEALTHY", OF health xy]) (simp_all add: ats del: attempt_chain.simps)
  then show ?thesis using xy(1) by (auto simp: same demo_finish[OF ports(2-4)])
qed

lemma no_ports_simps [simp]:
  "dmp_health no_ports = None" "dmp_decisions no_ports = None" "dmp_metrics no_ports = None" "dmp_events no_ports = None"
  by (simp_all add: no_ports_def)

lemma fallback_invocation:
  "\<exists>f v. invoke (demo_orchestrator pf (demo_policy_fields ''primary'' ''fallback'')
      [demo_model ''primary'' Provider_BEDROCK, demo_model ''fallback'' Provider_BEDROCK] fail_then_succeed no_ports)
      (demo_request None) s =
      (Inr \<lparr>res_decision = f, res_response = Some (demo_response ''fallback''),
            res_invocation_attempts = throttled_then_served ''primary'' ''fallback''\<rparr>,
       s\<lparr>dms_world := v, dms_calls := dms_calls s @ [''primary'', ''fallback'']\<rparr>) \<and>
    dec_selected_model_alias f = Some ''fallback'' \<and> dec_fallback_used f"
  by (rule throttled_invocation[where mid = "\<lambda>v. s\<lparr>dms_world := v, dms_calls := dms_calls s @ [''primary'']\<rparr>"])
    (simp_all add: fail_then_succeed_def plain_provider_def record_call_def io_run return_io_def)

lemma fallback_holds:
  "\<exists>r w'. demo_fallback pf w = (Inr r, w') \<and> res_invocation_attempts r = throttled_then_served ''primary'' ''fallback'' \<and>
     res_response r = Some (demo_response ''fallback'')"
  using fallback_invocation[of "fresh_demo w"]
  by (auto simp: demo_fallback_def in_demo_def build_orchestrator_ok io_run assert_io_def)

text \<open>The spans of that invocation.\<close>

lemma tracing_holds:
  assumes "recording_tracer (sdk_tracer sdk) view" and "view (sdk_start sdk) = \<lparr>tr_open = [], tr_finished = []\<rparr>"
    and "sdk_finished_spans sdk = tr_finished \<circ> view"
  shows "\<exists>d r w'. demo_tracing pf sdk w = (Inr (route_span (Some ''model_router.invoke'') (demo_request None) d #
       map (attempt_span (Some ''model_router.invoke'')) (throttled_then_served ''primary'' ''fallback'') @
       [invoke_span None (demo_request None) r]), w')"
proof -
  let ?orc = "demo_orchestrator pf (demo_policy_fields ''primary'' ''fallback'')
      [demo_model ''primary'' Provider_BEDROCK, demo_model ''fallback'' Provider_BEDROCK] fail_then_succeed no_ports"
  obtain r s' where r: "invoke ?orc (demo_request None) (fresh_demo w) = (Inr r, s')"
    "res_invocation_attempts r = throttled_then_served ''primary'' ''fallback''"
    using fallback_invocation[of "fresh_demo w"] by auto
  obtain q u t where run: "traced_invoke (sdk_tracer sdk) ?orc (demo_request None) (fresh_demo w, sdk_start sdk) = (q, (u, t))"
    by (metis prod.exhaust)
  have key: "ir_idempotency_key (demo_request None) = None" by (simp add: demo_request_def)
  note told = recording_tracer.traced_invoke_told[OF assms(1), of ?orc "demo_request None" "fresh_demo w" "sdk_start sdk", unfolded run r(1)]
  have q: "q = Inr r" using told by simp
  have "\<exists>d. tr_finished (view t) = route_span (Some ''model_router.invoke'') (demo_request None) d #
       map (attempt_span (Some ''model_router.invoke'')) (res_invocation_attempts r) @ [invoke_span None (demo_request None) r]"
    using told by (auto simp: q run_spans_def key parent_of_def assms(2))
  then show ?thesis
    unfolding r(2) by (auto simp: demo_tracing_def in_demo_def build_orchestrator_ok bind_lift_Inr run q assms(3))
qed

text \<open>A request whose first model answers, up to the persistence of its result.\<close>

lemma served_invocation:
  assumes health: "dmp_health ports = None" and xy: "x \<noteq> y" "x \<noteq> []"
    and call: "\<And>v pr. pr_model_alias pr = x \<Longrightarrow> mp_invoke provider pr (s\<lparr>dms_world := v\<rparr>) = (Inr r, fin v)"
    and world: "\<And>v. dms_world (fin v) = v"
  shows "\<exists>f v. invoke_uncached (demo_orchestrator pf (demo_policy_fields x y) [demo_model x p, demo_model y q] provider ports)
        (demo_request key) s =
      finish (demo_orchestrator pf (demo_policy_fields x y) [demo_model x p, demo_model y q] provider ports)
        \<lparr>res_decision = f, res_response = Some r,
         res_invocation_attempts = [\<lparr>at_model_alias = x, at_status = Attempt_SUCCEEDED, at_latency_ms = 0\<rparr>]\<rparr> (fin v)"
proof -
  let ?orc = "demo_orchestrator pf (demo_policy_fields x y) [demo_model x p, demo_model y q] provider ports"
  have none: "candidate_health (dmp_health ports) a s = (Inr Health_HEALTHY, s)" for a
    by (simp add: health no_health_candidate)
  have ats: "attempt_chain ?orc (demo_request key) d demo_effective [x, y] [] [] (s\<lparr>dms_world := v\<rparr>) =
      (Inr \<lparr>prg_attempts = [\<lparr>at_model_alias = x, at_status = Attempt_SUCCEEDED, at_latency_ms = 0\<rparr>],
            prg_reason_codes = [], prg_response = Some r, prg_succeeded_alias = Some x\<rparr>, fin v)"
    if "dec_selected_model_alias d = Some x" for d v
  proof (rule chain_first)
    have "dms_world (fin v) = dms_world (s\<lparr>dms_world := v\<rparr>)" by (simp add: world)
    from attempt_succeeds[where d = d, OF call this no_health_outcome[OF health]]
    show "invoke_attempt ?orc (demo_request key) d demo_effective x (s\<lparr>dms_world := v\<rparr>) =
        (Inr (Attempt_Break \<lparr>at_model_alias = x, at_status = Attempt_SUCCEEDED, at_latency_ms = 0\<rparr> [] (Some r)), fin v)"
      using that by simp
  qed
  have "\<exists>f v. invoke_uncached ?orc (demo_request key) s =
      finish ?orc \<lparr>res_decision = f, res_response = Some r,
         res_invocation_attempts = [\<lparr>at_model_alias = x, at_status = Attempt_SUCCEEDED, at_latency_ms = 0\<rparr>]\<rparr> (fin v) \<and>
    dec_selected_model_alias f = Some x \<and> (dec_fallback_used f \<longleftrightarrow> x \<noteq> x \<or> Health_HEALTHY = Health_UNAVAILABLE)"
    by (rule demo_invocation[where st = "\<lambda>_. Health_HEALTHY", OF none xy]) (simp_all add: ats del: attempt_chain.simps)
  then show ?thesis by blast
qed

lemma counting_invocation:
  assumes "dmp_health ports = None"
  shows "\<exists>f v. invoke_uncached (demo_orchestrator pf (demo_policy_fields ''primary'' ''fallback'')
        [demo_model ''primary'' Provider_BEDROCK, demo_model ''fallback'' Provider_BEDROCK] (counting_success record_call) ports)
        (demo_request key) s =
      finish (demo_orchestrator pf (demo_policy_fields ''primary'' ''fallback'')
        [demo_model ''primary'' Provider_BEDROCK, demo_model ''fallback'' Provider_BEDROCK] (counting_success record_call) ports)
        \<lparr>res_decision = f, res_response = Some (demo_response ''primary''),
         res_invocation_attempts = [\<lparr>at_model_alias = ''primary'', at_status = Attempt_SUCCEEDED, at_latency_ms = 0\<rparr>]\<rparr>
        (s\<lparr>dms_world := v, dms_calls := dms_calls s @ [''primary'']\<rparr>)"
  by (rule served_invocation[OF assms])
    (simp_all add: counting_success_def plain_provider_def record_call_def io_run return_io_def)

text \<open>Two providers in one chain.\<close>

lemma demo_composite_invoke:
  "pr_model_alias pr = ''bedrock-primary'' \<Longrightarrow>
   mp_invoke (demo_composite (demo_catalogue [demo_model ''bedrock-primary'' Provider_BEDROCK, demo_model ''openai-fallback'' Provider_OPENAI])) pr s =
     (Inl (ProviderError ''simulated Bedrock throttling'' Category_THROTTLED), s\<lparr>dms_calls := dms_calls s @ [''bedrock-primary'']\<rparr>)"
  "pr_model_alias pr = ''openai-fallback'' \<Longrightarrow>
   mp_invoke (demo_composite (demo_catalogue [demo_model ''bedrock-primary'' Provider_BEDROCK, demo_model ''openai-fallback'' Provider_OPENAI])) pr s =
     (Inr (demo_response ''openai-fallback''), s\<lparr>dms_openai_calls := dms_openai_calls s @ [''openai-fallback'']\<rparr>)"
  by (simp_all add: demo_composite_def composite_model_provider_def composite_invoke_def composite_resolve_provider_def
      resolve_model_def demo_catalogue_def demo_model_def bedrock_fails_def counting_success_def plain_provider_def
      record_call_def record_openai_call_def io_run bind_lift_Inr return_io_def)

lemma multi_provider_holds:
  "\<exists>r w'. demo_multi_provider_fallback pf w = (Inr r, w') \<and>
     res_invocation_attempts r = throttled_then_served ''bedrock-primary'' ''openai-fallback'' \<and>
     res_response r = Some (demo_response ''openai-fallback'')"
proof -
  let ?models = "[demo_model ''bedrock-primary'' Provider_BEDROCK, demo_model ''openai-fallback'' Provider_OPENAI]"
  let ?orc = "demo_orchestrator pf (demo_policy_fields ''bedrock-primary'' ''openai-fallback'') ?models
    (demo_composite (demo_catalogue ?models)) no_ports"
  have "\<exists>f v. invoke ?orc (demo_request None) s =
      (Inr \<lparr>res_decision = f, res_response = Some (demo_response ''openai-fallback''),
            res_invocation_attempts = throttled_then_served ''bedrock-primary'' ''openai-fallback''\<rparr>,
       s\<lparr>dms_world := v, dms_calls := dms_calls s @ [''bedrock-primary''],
         dms_openai_calls := dms_openai_calls s @ [''openai-fallback'']\<rparr>) \<and>
    dec_selected_model_alias f = Some ''openai-fallback'' \<and> dec_fallback_used f" for s
    by (rule throttled_invocation[where mid = "\<lambda>v. s\<lparr>dms_world := v, dms_calls := dms_calls s @ [''bedrock-primary'']\<rparr>"])
      (simp_all add: demo_composite_invoke)
  then obtain f v where "invoke ?orc (demo_request None) (fresh_demo w) =
      (Inr \<lparr>res_decision = f, res_response = Some (demo_response ''openai-fallback''),
            res_invocation_attempts = throttled_then_served ''bedrock-primary'' ''openai-fallback''\<rparr>,
       (fresh_demo w)\<lparr>dms_world := v, dms_calls := dms_calls (fresh_demo w) @ [''bedrock-primary''],
         dms_openai_calls := dms_openai_calls (fresh_demo w) @ [''openai-fallback'']\<rparr>)"
    "dec_selected_model_alias f = Some ''openai-fallback''" by blast
  then show ?thesis
    by (simp add: demo_multi_provider_fallback_def in_demo_def make_model_ok demo_policy_ok io_run assert_io_def
        fresh_demo_def Let_def)
qed

text \<open>Events and observability.\<close>

lemma decision_events_hold:
  "\<exists>r w'. demo_decision_events pf w = (Inr (1, build_detail r), w')"
proof -
  let ?ports = "no_ports\<lparr>dmp_events := Some (eventbridge_publisher
            \<lparr>evp_put_events = demo_event_client, evp_event_bus_name = ''demo-bus''\<rparr>)\<rparr>"
  let ?orc = "demo_orchestrator pf (demo_policy_fields ''primary'' ''fallback'')
        [demo_model ''primary'' Provider_BEDROCK, demo_model ''fallback'' Provider_BEDROCK] (counting_success record_call) ?ports"
  have finish: "finish ?orc r s = (Inr r, s\<lparr>dms_events := dms_events s @ [event_entry ''demo-bus'' r]\<rparr>)" for r s
    by (simp add: finish_def persist_def publish_metrics_def publish_decision_event_def demo_orchestrator_def when_some_def
        eventbridge_publisher_def event_publish_def demo_event_client_def io_run return_io_def)
  have "dmp_health ?ports = None" by simp
  from counting_invocation[OF this, of None "fresh_demo w"] obtain f v where
    "invoke ?orc (demo_request None) (fresh_demo w) = finish ?orc
        \<lparr>res_decision = f, res_response = Some (demo_response ''primary''),
         res_invocation_attempts = [\<lparr>at_model_alias = ''primary'', at_status = Attempt_SUCCEEDED, at_latency_ms = 0\<rparr>]\<rparr>
        ((fresh_demo w)\<lparr>dms_world := v, dms_calls := dms_calls (fresh_demo w) @ [''primary'']\<rparr>)"
    by (auto simp: invoke_def demo_request_def)
  then show ?thesis
    by (auto simp: demo_decision_events_def in_demo_def build_orchestrator_ok io_run finish fresh_demo_def event_entry_def
        list_item_def)
qed

lemma observability_holds:
  "\<exists>r w'. demo_observability pf w =
     (Inr (r, Some \<lparr>aud_decision = res_decision r, aud_invocation_attempts = res_invocation_attempts r\<rparr>), w')"
proof -
  let ?ports = "no_ports\<lparr>dmp_decisions := Some demo_decision_repository,
                   dmp_metrics := Some (emf_metrics_publisher (demo_emf pf))\<rparr>"
  let ?orc = "demo_orchestrator pf (demo_policy_fields ''primary'' ''fallback'')
        [demo_model ''primary'' Provider_BEDROCK, demo_model ''fallback'' Provider_BEDROCK] (counting_success record_call) ?ports"
  have emf: "total_io (emf_publish (demo_emf pf) r)" for r
    by (rule emf_publish_total) (simp_all add: demo_emf_def on_demo_world_def total_on_part time_total print_total)
  have keep: "preserves_io (\<lambda>s. dms_decisions s = D) (emf_publish (demo_emf pf) r)" for D r
    by (rule emf_publish_keeps) (auto simp: demo_emf_def on_demo_world_def preserves_io_def io_inv)
  have finish: "\<exists>s'. finish ?orc r s = (Inr r, s') \<and> dms_decisions s' (dec_decision_id (res_decision r)) =
      Some \<lparr>aud_decision = res_decision r, aud_invocation_attempts = res_invocation_attempts r\<rparr>" for r s
  proof -
    let ?rec = "\<lparr>aud_decision = res_decision r, aud_invocation_attempts = res_invocation_attempts r\<rparr>"
    let ?D = "(dms_decisions s)(dec_decision_id (res_decision r) \<mapsto> ?rec)"
    obtain u t where t: "emf_publish (demo_emf pf) r (s\<lparr>dms_decisions := ?D\<rparr>) = (Inr u, t)" using emf by (rule total_ioE)
    have "dms_decisions t = ?D" using preserves_ioD[OF keep _ t] by simp
    then show ?thesis
      using t by (simp add: finish_def persist_def publish_metrics_def publish_decision_event_def demo_orchestrator_def when_some_def
          demo_decision_repository_def in_memory_decision_repository_def memory_save_def on_demo_decisions_def
          emf_metrics_publisher_def io_run return_io_def)
  qed
  have "dmp_health ?ports = None" by simp
  from counting_invocation[OF this, of None "fresh_demo w"] obtain f v where
    run: "invoke ?orc (demo_request None) (fresh_demo w) = finish ?orc
        \<lparr>res_decision = f, res_response = Some (demo_response ''primary''),
         res_invocation_attempts = [\<lparr>at_model_alias = ''primary'', at_status = Attempt_SUCCEEDED, at_latency_ms = 0\<rparr>]\<rparr>
        ((fresh_demo w)\<lparr>dms_world := v, dms_calls := dms_calls (fresh_demo w) @ [''primary'']\<rparr>)"
    by (auto simp: invoke_def demo_request_def)
  obtain r s' where r: "invoke ?orc (demo_request None) (fresh_demo w) = (Inr r, s')" "dms_decisions s' (dec_decision_id (res_decision r)) =
      Some \<lparr>aud_decision = res_decision r, aud_invocation_attempts = res_invocation_attempts r\<rparr>"
    using finish unfolding run by blast
  then show ?thesis
    by (simp add: demo_observability_def in_demo_def build_orchestrator_ok io_run demo_decision_repository_def
        in_memory_decision_repository_def memory_get_def on_demo_decisions_def)
qed

text \<open>
  The duplicate request is answered from the store as long as the clock has not passed the five
  minutes of the policy's retention between the two.
\<close>

lemma idempotency_holds:
  assumes window: "\<And>v t v'. pf_now pf v = (Inr t, v') \<Longrightarrow> t0 \<le> t \<and> t < t0 + seconds 300"
  shows "\<exists>r w'. demo_idempotency pf w = (Inr (r, r), w')"
proof -
  let ?ports = "no_ports\<lparr>dmp_idempotency := Some (demo_store pf)\<rparr>"
  let ?orc = "demo_orchestrator pf (demo_policy_fields ''primary'' ''fallback'')
        [demo_model ''primary'' Provider_BEDROCK, demo_model ''fallback'' Provider_BEDROCK] (counting_success record_call) ?ports"
  let ?req = "demo_request (Some demo_key)"
  let ?k = "(''demo-app'', demo_key)" and ?h = "compute_request_hash ?req"
  have app: "ir_application_id ?req = ''demo-app''" "ir_idempotency_key ?req = Some demo_key" by (simp_all add: demo_request_def)
  have key: "invoke ?orc ?req = invoke_with_idempotency ?orc ?req demo_key (demo_store pf)"
    by (simp add: invoke_def app demo_orchestrator_def)
  have policy: "rp_resolve (orc_policy_repository ?orc) a s = (Inr (demo_policy_fields ''primary'' ''fallback''), s)" for a s
    by (simp add: demo_orchestrator_def demo_policies_def return_io_def)
  have caching: "idp_allow_response_caching (pol_idempotency_policy (demo_policy_fields ''primary'' ''fallback''))"
    "idp_retention_seconds (pol_idempotency_policy (demo_policy_fields ''primary'' ''fallback'')) = 300"
    by (simp_all add: demo_policy_fields_def)
  note store = demo_store_def in_memory_idempotency_store_def on_demo_idempotency_def memory_reserve_def memory_complete_def
    store_now_def system_clock_def
  obtain t1 w1 where t1: "pf_now pf w = (Inr t1, w1)" using now_total by (rule total_ioE)
  define s1 where "s1 = (fresh_demo w)\<lparr>dms_idempotency := [?k \<mapsto> \<lparr>idr_request_hash = ?h, idr_in_progress = True,
      idr_result = None, idr_expires_at = t1 + seconds 300\<rparr>], dms_world := w1\<rparr>"
  have reserve1: "ids_reserve (demo_store pf) ''demo-app'' demo_key ?h (fresh_demo w) = (Inr (reservation Outcome_NEW None), s1)"
    by (simp add: store t1 io_run Let_def fresh_demo_def s1_def)
  have "dmp_health ?ports = None" by simp
  from counting_invocation[OF this, of "Some demo_key" s1] obtain f v where
    run: "invoke_uncached ?orc ?req s1 = finish ?orc
        \<lparr>res_decision = f, res_response = Some (demo_response ''primary''),
         res_invocation_attempts = [\<lparr>at_model_alias = ''primary'', at_status = Attempt_SUCCEEDED, at_latency_ms = 0\<rparr>]\<rparr>
        (s1\<lparr>dms_world := v, dms_calls := dms_calls s1 @ [''primary'']\<rparr>)"
    by blast
  define r where "r = \<lparr>res_decision = f, res_response = Some (demo_response ''primary''),
         res_invocation_attempts = [\<lparr>at_model_alias = ''primary'', at_status = Attempt_SUCCEEDED, at_latency_ms = 0\<rparr>]\<rparr>"
  define u where "u = s1\<lparr>dms_world := v, dms_calls := [''primary'']\<rparr>"
  have run: "invoke_uncached ?orc ?req s1 = (Inr r, u)"
    unfolding run by (simp add: demo_finish r_def u_def) (simp add: s1_def fresh_demo_def)
  obtain t2 w2 where t2: "pf_now pf v = (Inr t2, w2)" using now_total by (rule total_ioE)
  define s2 where "s2 = u\<lparr>dms_idempotency := (dms_idempotency u)(?k \<mapsto> \<lparr>idr_request_hash = ?h, idr_in_progress = False,
      idr_result = Some r, idr_expires_at = t2 + seconds 300\<rparr>), dms_world := w2\<rparr>"
  have complete: "ids_complete (demo_store pf) ''demo-app'' demo_key ?h r True 300 u = (Inr (), s2)"
    by (simp add: store io_run Let_def s2_def) (simp add: u_def t2)
  have first: "invoke ?orc ?req (fresh_demo w) = (Inr r, s2)"
    using complete by (simp add: key invoke_with_idempotency_def app reserve1 io_run reservation_def run_reserved_def Let_def run policy caching)
  obtain t3 w3 where t3: "pf_now pf w2 = (Inr t3, w3)" using now_total by (rule total_ioE)
  have live: "t3 < t2 + seconds 300" using window[OF t2] window[OF t3] by linarith
  have "ids_reserve (demo_store pf) ''demo-app'' demo_key ?h s2 = (Inr (reservation Outcome_COMPLETED (Some r)), s2\<lparr>dms_world := w3\<rparr>)"
    using live by (simp add: store io_run Let_def) (simp add: s2_def t3)
  then have second: "invoke ?orc ?req s2 = (Inr r, s2\<lparr>dms_world := w3\<rparr>)"
    by (simp add: key invoke_with_idempotency_def app io_run reservation_def return_io_def)
  have "dms_calls s2 = [''primary'']" by (simp add: s2_def u_def)
  then show ?thesis
    using first second by (simp add: demo_idempotency_def in_demo_def build_orchestrator_ok io_run assert_io_def)
qed

text \<open>Health: while the primary is not written off it is tried and fails; afterwards it is skipped.\<close>

abbreviation "demo_health_config \<equiv> \<lparr>hr_degraded_after = 2, hr_unavailable_after = 3\<rparr>"

lemma degradation_step:
  assumes "consecutive_failures (dms_health s) ''primary'' = n" and "consecutive_failures (dms_health s) ''fallback'' = 0"
  defines "orc \<equiv> demo_orchestrator pf (demo_policy_fields ''primary'' ''fallback'')
    [demo_model ''primary'' Provider_BEDROCK, demo_model ''fallback'' Provider_BEDROCK] always_fail_primary
    (demo_health_ports demo_health_config)"
  shows "\<exists>s'. degradation_request demo_health_config orc s =
      (Inr (health_of_count demo_health_config (if n < 3 then n + 1 else n),
            if n < 3 then [''primary'', ''fallback''] else [''fallback''], Some ''fallback''), s') \<and>
    consecutive_failures (dms_health s') ''primary'' = (if n < 3 then n + 1 else n) \<and>
    consecutive_failures (dms_health s') ''fallback'' = 0"
proof -
  let ?ports = "demo_health_ports demo_health_config"
  let ?st = "\<lambda>a. health_of_count demo_health_config (consecutive_failures (dms_health s) a)"
  have none: "dmp_decisions ?ports = None" "dmp_metrics ?ports = None" "dmp_events ?ports = None"
    by (simp_all add: demo_health_ports_def)
  have health: "candidate_health (dmp_health ?ports) a s = (Inr (?st a), s)" for a
    by (simp add: candidate_health_def demo_health_ports_def on_demo_health_def get_health_def on_part_def)
  have outcome: "record_health_outcome orc a st t =
      (case record_outcome a st (dms_health t) of (r, x) \<Rightarrow> (r, t\<lparr>dms_health := x\<rparr>))" for a st t
    by (simp add: orc_def record_health_outcome_def demo_orchestrator_def demo_health_ports_def when_some_def on_demo_health_def on_part_def)
  have st: "?st ''primary'' = Health_UNAVAILABLE \<longleftrightarrow> \<not> n < 3" "?st ''fallback'' = Health_HEALTHY"
    using assms(1,2) by (auto simp: health_of_count_def)
  have same: "invoke orc (demo_request None) = invoke_uncached orc (demo_request None)"
    by (simp add: invoke_def demo_request_def)
  have serves: "mp_invoke always_fail_primary pr t = (Inr (demo_response ''fallback''), t)" if "pr_model_alias pr = ''fallback''" for pr t
    by (simp add: always_fail_primary_def plain_provider_def return_io_def that)
  have throttles: "mp_invoke always_fail_primary pr t = (Inl (ProviderError ''simulated sustained throttling'' Category_THROTTLED), t)"
    if "pr_model_alias pr = ''primary''" for pr t
    by (simp add: always_fail_primary_def plain_provider_def raise_io_def that)
  have healed: "record_health_outcome orc ''fallback'' Attempt_SUCCEEDED t =
      (Inr (), t\<lparr>dms_health := (dms_health t)(''fallback'' \<mapsto> 0)\<rparr>)" for t
    by (simp add: outcome record_outcome_def)
  have counted: "record_health_outcome orc ''primary'' Attempt_THROTTLED t =
      (Inr (), t\<lparr>dms_health := (dms_health t)(''primary'' \<mapsto> consecutive_failures (dms_health t) ''primary'' + 1)\<rparr>)" for t
    by (simp add: outcome record_outcome_def health_affecting_statuses_def)
  have served: "invoke_attempt orc (demo_request None) d demo_effective ''fallback'' t =
      (Inr (Attempt_Break \<lparr>at_model_alias = ''fallback'', at_status = Attempt_SUCCEEDED, at_latency_ms = 0\<rparr>
         (if Some ''fallback'' \<noteq> dec_selected_model_alias d then [FALLBACK_SELECTED] else []) (Some (demo_response ''fallback''))),
       t\<lparr>dms_health := (dms_health t)(''fallback'' \<mapsto> 0)\<rparr>)" for d t
    unfolding orc_def by (rule attempt_succeeds[OF serves refl healed[unfolded orc_def]])
  have throttled: "invoke_attempt orc (demo_request None) d demo_effective ''primary'' t =
      (Inr (Attempt_Continue \<lparr>at_model_alias = ''primary'', at_status = Attempt_THROTTLED, at_latency_ms = 0\<rparr> [MODEL_THROTTLED]),
       t\<lparr>dms_health := (dms_health t)(''primary'' \<mapsto> consecutive_failures (dms_health t) ''primary'' + 1)\<rparr>)" for d t
    unfolding orc_def by (rule attempt_throttled[OF throttles refl counted[unfolded orc_def]])
  define ats where "ats = (if n < 3 then throttled_then_served ''primary'' ''fallback''
    else [\<lparr>at_model_alias = ''fallback'', at_status = Attempt_SUCCEEDED, at_latency_ms = 0\<rparr>])"
  define hs where "hs = (if n < 3 then (dms_health s)(''primary'' \<mapsto> n + 1) else dms_health s)(''fallback'' \<mapsto> 0)"
  define codes where "codes = (if n < 3 then [MODEL_THROTTLED] else []) @ [FALLBACK_SELECTED]"
  have chain: "attempt_chain orc (demo_request None) d demo_effective
        (if ?st ''primary'' = Health_UNAVAILABLE then [''fallback''] else [''primary'', ''fallback'']) [] [] (s\<lparr>dms_world := v\<rparr>) =
      (Inr \<lparr>prg_attempts = ats, prg_reason_codes = codes, prg_response = Some (demo_response ''fallback''),
            prg_succeeded_alias = Some ''fallback''\<rparr>, s\<lparr>dms_world := v, dms_health := hs\<rparr>)"
    if "dec_selected_model_alias d = (if ?st ''primary'' = Health_UNAVAILABLE then None else Some ''primary'')" for d v
  proof (cases "n < 3")
    case True
    have "dec_selected_model_alias d = Some ''primary''" using that st(1) True by simp
    then show ?thesis
      using chain_second[OF throttled served, of d "s\<lparr>dms_world := v\<rparr>"] True st(1)
      by (simp add: ats_def hs_def codes_def assms(1) del: attempt_chain.simps)
  next
    case False
    have "dec_selected_model_alias d = None" using that st(1) False by simp
    then show ?thesis
      using chain_first[OF served, of d "[]" "s\<lparr>dms_world := v\<rparr>"] False st(1)
      by (simp add: ats_def hs_def codes_def del: attempt_chain.simps)
  qed
  have "\<exists>f v. invoke_uncached orc (demo_request None) s =
      finish orc \<lparr>res_decision = f, res_response = Some (demo_response ''fallback''), res_invocation_attempts = ats\<rparr>
        (s\<lparr>dms_world := v, dms_health := hs\<rparr>) \<and>
    dec_selected_model_alias f = Some ''fallback'' \<and>
    (dec_fallback_used f \<longleftrightarrow> ''fallback'' \<noteq> ''primary'' \<or> ?st ''primary'' = Health_UNAVAILABLE)"
    unfolding orc_def
    by (rule demo_invocation[where st = ?st, OF health _ _ _ chain[unfolded orc_def]]) (simp_all add: st(2))
  then obtain f v where "invoke orc (demo_request None) s =
      (Inr \<lparr>res_decision = f, res_response = Some (demo_response ''fallback''), res_invocation_attempts = ats\<rparr>,
       s\<lparr>dms_world := v, dms_health := hs\<rparr>)" "dec_selected_model_alias f = Some ''fallback''"
    unfolding orc_def same[unfolded orc_def] demo_finish[OF none] by blast
  then show ?thesis
    by (auto simp: degradation_request_def io_run on_demo_health_def get_health_def ats_def hs_def consecutive_failures_def
        assms(1)[unfolded consecutive_failures_def])
qed

lemma degradation_holds:
  "\<exists>w'. demo_health_degradation pf w =
     (Inr [(Health_HEALTHY, [''primary'', ''fallback''], Some ''fallback''),
           (Health_DEGRADED, [''primary'', ''fallback''], Some ''fallback''),
           (Health_UNAVAILABLE, [''primary'', ''fallback''], Some ''fallback''),
           (Health_UNAVAILABLE, [''fallback''], Some ''fallback''),
           (Health_UNAVAILABLE, [''fallback''], Some ''fallback'')], w')"
proof -
  let ?orc = "demo_orchestrator pf (demo_policy_fields ''primary'' ''fallback'')
    [demo_model ''primary'' Provider_BEDROCK, demo_model ''fallback'' Provider_BEDROCK] always_fail_primary
    (demo_health_ports demo_health_config)"
  let ?inv = "\<lambda>n s. consecutive_failures (dms_health s) ''primary'' = n \<and> consecutive_failures (dms_health s) ''fallback'' = 0"
  have start: "?inv 0 (fresh_demo w)" by (simp add: fresh_demo_def consecutive_failures_def)
  have step: "\<exists>s'. degradation_request demo_health_config ?orc s =
      (Inr (health_of_count demo_health_config (if n < 3 then n + 1 else n),
            if n < 3 then [''primary'', ''fallback''] else [''fallback''], Some ''fallback''), s') \<and> ?inv (if n < 3 then n + 1 else n) s'"
    if "?inv n s" for n s using degradation_step[of s n] that by blast
  obtain s1 where 1: "degradation_request demo_health_config ?orc (fresh_demo w) =
      (Inr (Health_HEALTHY, [''primary'', ''fallback''], Some ''fallback''), s1)" "?inv 1 s1"
    using step[OF start] by (auto simp: health_of_count_def)
  obtain s2 where 2: "degradation_request demo_health_config ?orc s1 =
      (Inr (Health_DEGRADED, [''primary'', ''fallback''], Some ''fallback''), s2)" "?inv 2 s2"
    using step[OF 1(2)] by (auto simp: health_of_count_def)
  obtain s3 where 3: "degradation_request demo_health_config ?orc s2 =
      (Inr (Health_UNAVAILABLE, [''primary'', ''fallback''], Some ''fallback''), s3)" "?inv 3 s3"
    using step[OF 2(2)] by (auto simp: health_of_count_def)
  obtain s4 where 4: "degradation_request demo_health_config ?orc s3 =
      (Inr (Health_UNAVAILABLE, [''fallback''], Some ''fallback''), s4)" "?inv 3 s4"
    using step[OF 3(2)] by (auto simp: health_of_count_def)
  obtain s5 where 5: "degradation_request demo_health_config ?orc s4 =
      (Inr (Health_UNAVAILABLE, [''fallback''], Some ''fallback''), s5)"
    using step[OF 4(2)] by (auto simp: health_of_count_def)
  show ?thesis
    by (simp add: demo_health_degradation_def in_demo_def new_health_repository_def build_orchestrator_ok io_run eval_nat_numeral
        1(1) 2(1) 3(1) 4(1) 5 return_io_def)
qed

lemma all_scenarios_run:
  assumes "\<And>v. \<exists>r w'. demo_idempotency pf v = (Inr (r, r), w')" and "total_io (done_io (demo_tracing pf sdk))"
  shows "\<exists>w'. demo_main pf sdk None w = (Inr 0, w')"
proof -
  have "total_io (done_io (demo_fallback pf))" by (rule done_totalI) (use fallback_holds in blast)
  moreover have "total_io (done_io (demo_idempotency pf))" by (rule done_totalI) (use assms(1) in blast)
  moreover have "total_io (done_io (demo_health_degradation pf))" by (rule done_totalI) (use degradation_holds in blast)
  moreover have "total_io (done_io (demo_observability pf))" by (rule done_totalI) (use observability_holds in blast)
  moreover have "total_io (done_io (demo_multi_provider_fallback pf))" by (rule done_totalI) (use multi_provider_holds in blast)
  moreover have "total_io (done_io (demo_decision_events pf))" by (rule done_totalI) (use decision_events_hold in blast)
  ultimately have "\<forall>m \<in> set (map snd (demo_table pf sdk)). total_io m"
    using assms(2) by (simp add: demo_table_def)
  then have "total_io (run_scenarios (map snd (demo_table pf sdk)))" by (rule run_scenarios_total)
  then show ?thesis by (auto simp: demo_main_def io_run elim: total_ioE[where s = w])
qed

end

interpretation sample_demo: demo_platform sample_platform "\<lambda>w. of_nat w"
  by unfold_locales (simp_all add: sample_platform_def)


definition memory_sdk :: "trace tracing_sdk" where
  "memory_sdk = \<lparr>sdk_tracer = memory_tracer, sdk_start = \<lparr>tr_open = [], tr_finished = []\<rparr>, sdk_finished_spans = tr_finished\<rparr>"


end
