(* ===== verification/Spec2Isabelle.thy ===== *)
theory Spec2Isabelle
  imports Streaming Stack Logging Typed_Results Confidentiality Demo_Scenarios
begin

text \<open>
  Verification of the AWS model router: a service that receives inference requests over HTTP,
  chooses a model by a per-application policy, invokes it with fallback, and keeps an audit trail.

  \<^bold>\<open>The program and its model.\<close>  Source files are named below \<open>src/src/\<close> unless said otherwise.

  \<^item> \<^bold>\<open>Foundations.\<close>  \<open>Prelude\<close>: exceptions as sums, the state-and-exception monad \<open>io\<close>, Python's
    collection idioms, and the rule collections \<open>io_run\<close>, \<open>io_inv\<close>, \<open>io_keep\<close> and \<open>raises\<close>.
    \<open>Relational\<close>: two runs side by side, with the collection \<open>io_rel\<close>.
    \<open>Py_Decimal\<close> and \<open>Py_Float\<close>: Python's decimal and floating-point arithmetic with their rounding.
    \<open>Py_Value\<close>: untyped values as JSON and the client libraries give them, with every way in which
    reading them raises.  \<open>Sha256\<close>: the hash function.
  \<^item> \<^bold>\<open>Domain\<close> (\<open>domain/\<close>).  \<open>Domain_Enums\<close>, \<open>Reason_Codes\<close>, \<open>Domain_Types\<close>: enumerations,
    exceptions, the pydantic classes as records with their validation.  \<open>Ports\<close>: one record per
    protocol.  \<open>Cost_Estimation\<close>, \<open>Requirements\<close>, \<open>Filtering\<close>, \<open>Experiment\<close>, \<open>Strategy\<close>: estimating
    tokens and cost, merging client requirements with the policy, eligibility of the candidates,
    experiment cohorts, and the four selection strategies.  \<open>Request_Hash\<close>, \<open>Json_Text\<close>: the
    canonical text and hash that identify a request's content; JSON as text, written and read back.
    \<open>Shipped_Config\<close>: the configuration under \<open>policies/\<close>.
  \<^item> \<^bold>\<open>Application\<close> (\<open>application/\<close>).  \<open>Route_Evaluation\<close>: the evaluation service.  \<open>Orchestrator\<close>,
    \<open>Invocation_Results\<close>, \<open>Idempotent_Invocation\<close>, \<open>Streaming\<close>: candidate chain, attempts with
    fallback, aggregation, persistence and publication, idempotency, and the streaming generator.
    \<open>Typed_Results\<close>: what the classes promise of every result.  \<open>Spans\<close>: the same services under a
    tracer.
  \<^item> \<^bold>\<open>Adapters\<close> (\<open>adapters/\<close>).  \<open>Local_Config\<close>: catalogue and policies from files, with their caches.
    \<open>Model_Health\<close>, \<open>Idempotency_Store\<close>, \<open>Decision_Store\<close>: the in-memory and the DynamoDB stores.
    \<open>Provider_Common\<close>, \<open>Bedrock_Provider\<close>, \<open>OpenAI_Provider\<close>, \<open>Composite_Provider\<close>: the provider
    adapters with their retries.  \<open>Publishers\<close>: metrics, decision events, clock and identifiers.
  \<^item> \<^bold>\<open>Handlers\<close> (\<open>handlers/\<close>).  \<open>Request_Mapping\<close>, \<open>Api_Handler\<close>, \<open>Api_Properties\<close>: parsing and
    serialization, the mapping of errors, the endpoints, dispatch and the Lambda entry point.
    \<open>Services\<close>, \<open>Deployed_Service\<close>: \<open>build_services\<close>, the real adapters wired over one process, and
    what holds of the whole.  \<open>Confidentiality\<close>: what the whole does with the text of messages.
  \<^item> \<^bold>\<open>Around the service.\<close>  \<open>Logging\<close> (\<open>shared/\<close>): the log formatter and its whitelist, configuration
    of logging and tracing.  \<open>Deployment\<close>, \<open>Stack\<close> (\<open>src/infrastructure/\<close>): the environments, the
    permissions, secret and variables of the function, the routes, tables, alarms, deploy roles and
    the package.  \<open>Local_Tools\<close>, \<open>Demo_Scenarios\<close> (\<open>src/scripts/\<close>): the command-line
    tools and the demo script.

  \<^bold>\<open>State and effects.\<close>  An operation that reads or changes anything outside its arguments is a
  function from a state \<open>'s\<close> to a result or exception and a new state; \<open>'s\<close> is whatever lies behind the
  ports, and every theorem that is not about one particular store holds for all of them.  The
  methods of a class are functions on its record; a generator is the sequence of its steps.

  \<^bold>\<open>Interfaces.\<close>  \<open>idempotency_contract\<close> and \<open>decision_contract\<close> state what the orchestrator relies on;
  both are interpreted on the in-memory and on the DynamoDB store.  \<open>idempotent_orchestrator\<close> extends
  the first with the orchestrator's own laws.  \<open>retrying_adapter\<close> is the common behaviour of the
  provider adapters, interpreted on both.  The health repository and the orchestrator's
  environment have locales of their own in their theories.  \<open>platform_contract\<close> states what the wired
  service needs of the platform it runs on, and instantiates the orchestrator's environment;
  \<open>demo_platform\<close> states what the demo script needs of it.  \<open>recording_tracer\<close> is OpenTelemetry's
  contract, and \<open>text_blind_environment\<close> what the orchestrator needs to keep text to the provider,
  which the wired services have.

  \<^bold>\<open>What is shown.\<close> The selected model is always one that the policy allows,
  within the policy's and the model's limits, and every decision explains itself by its reason
  codes (C1, C5 to C8). Only allowed models are ever invoked, at most
  \<open>maximum_attempts\<close> times, each at most once, in the order of the fallback chain,
  and the result agrees with the attempts and with the promises of its classes (C2 to C4, C9,
  C18). A key is held by one request at a time as long as requests finish before their reservation
  goes stale, a repeated request is answered from the stored result, a failed one frees its key,
  and keys are compared by content alone (C10 to C14, C27). Every result is stored and can be read
  back by its owner and nobody else (C15, C19, C23); every event is answered, with a documented
  status, and the wired service never with an internal error to a readable inference request (C20
  to C22, C26). The text of messages reaches the model provider and nothing else that is recorded
  (C16), and tracing changes nothing and tells what happened (C17). Streams come from one model
  and agree with the one-shot call (C28, C29, C38). Cost estimates are within half a micro-dollar,
  experiment shares within one hash value of their weights, retries within their limits (C30, C31,
  C34, C37). Catalogue and policies loaded from files are valid (C32) and looked up exactly
  (\<open>catalogue_lookups_exact\<close>); health reflects the history of outcomes (C33). What is
  deployed fits the service: permissions on models and tables are exact, every provider is wired,
  gateway and handler know the same routes (C24, C35, C36; \<open>table_grants_exact\<close>). The
  tools call no model unconfirmed (C25), log lines hold the documented fields only (C39), and the
  demo script's scenarios, whole requests through the composed service, end as narrated (C40).

  \<^bold>\<open>Termination.\<close>  No fuel is used: every loop is structural recursion or a function with a
  termination proof; the retry loop's measure is the number of attempts left.

  \<^bold>\<open>Parameters.\<close>  Code outside the repository is a parameter: the clients of AWS and OpenAI, the
  tracer, the tables, the file system, the YAML and JSON parsers and pydantic's conversion of raw values, the
  clock, the identifiers and the random jitter.  Where a theorem needs more of one than its type, the
  assumption is in the theorem and an instance in its witness.

  \<^bold>\<open>Limits of the model.\<close>  Strings have code points below 256.  Floats have no exponent limits, so
  overflow, infinities and NaN do not occur; neither do they on the values the code computes.  The
  texts of configuration errors are not modelled, since nothing reads them.

  \<^bold>\<open>Not modelled.\<close>  The calls that write log records (they have no effect on results; the fields they
  pass are in \<open>Logging\<close>); the span around a stream and the library's own proxy tracer; CDK itself, with
  the descriptions, tags and suppressions passed to it; argument parsing (the tools start from the
  parsed arguments) and the layout of printed reports and narration.
\<close>

end
